(* ===== verification/Prelude.thy ===== *)
theory Prelude
  imports Complex_Main "HOL-Library.Word"
begin

text \<open>
  Shared vocabulary of the development: the byte type of a canvas sample, the
  JavaScript number operations the engine relies on (\<open>Math.round\<close>, the
  store of a Number into a \<open>Uint8ClampedArray\<close> cell, NaN propagation), the
  two loop shapes of \<open>src/script.js\<close> (the stride-4 sample loop and the
  nested row/column loop), and the generic lemmas about writing RGBA pixels into
  a flat byte list that every component uses.

  JavaScript Numbers are modelled as exact reals: IEEE rounding of the
  intermediate products is not modelled (see the root theory).  A NaN value is
  \<open>None\<close> of \<open>jsnum\<close>; it only arises where the code reads an
  undefined array element.
\<close>

named_theorems pixel_simps "facts that evaluate pixel reads and writes"

type_synonym u8 = "8 word"
type_synonym jsnum = "real option"

subsection \<open>JavaScript number semantics\<close>

text \<open>
  Assignment of a Number to a cell of a \<open>Uint8ClampedArray\<close> (the
  \<open>data\<close> of an \<open>ImageData\<close>) applies ToUint8Clamp: values at or below
  0 become 0, values at or above 255 become 255, anything else is rounded to
  the nearest integer with ties to even.  NaN becomes 0.
\<close>

definition u8_clamped :: "real \<Rightarrow> u8" where
  "u8_clamped x =
     (if x \<le> 0 then 0
      else if 255 \<le> x then 255
      else (let f = \<lfloor>x\<rfloor>; r = x - of_int f
            in word_of_int (if r < 1/2 then f
                            else if 1/2 < r then f + 1
                            else if even f then f else f + 1)))"

definition store :: "jsnum \<Rightarrow> u8" where
  "store v = (case v of None \<Rightarrow> 0 | Some x \<Rightarrow> u8_clamped x)"

text \<open>\<open>Math.round\<close>: nearest integer, halves rounded towards \<open>+\<infinity>\<close>.\<close>

definition js_round :: "real \<Rightarrow> int" where
  "js_round x = \<lfloor>x + 1/2\<rfloor>"

text \<open>Binary arithmetic on Numbers: NaN in, NaN out.\<close>

definition nan2 :: "(real \<Rightarrow> real \<Rightarrow> real) \<Rightarrow> jsnum \<Rightarrow> jsnum \<Rightarrow> jsnum" where
  "nan2 f a b = (case (a, b) of (Some x, Some y) \<Rightarrow> Some (f x y) | _ \<Rightarrow> None)"

text \<open>Reading an array element: \<open>undefined\<close> (here \<open>None\<close>) past the end.\<close>

definition nth_opt :: "'a list \<Rightarrow> nat \<Rightarrow> 'a option" where
  "nth_opt xs i = (if i < length xs then Some (xs ! i) else None)"

text \<open>A sample read as a Number.\<close>

definition rd :: "u8 list \<Rightarrow> nat \<Rightarrow> real" where
  "rd d i = real (unat (d ! i))"

text \<open>\<open>src[i]\<close> for a Number index \<open>i\<close>: \<open>undefined\<close>, that is NaN in arithmetic,
  outside \<open>0 .. length - 1\<close>.\<close>

definition js_get :: "u8 list \<Rightarrow> int \<Rightarrow> jsnum" where
  "js_get d i = (if 0 \<le> i \<and> nat i < length d then Some (rd d (nat i)) else None)"

subsection \<open>Loop shapes\<close>

text \<open>\<open>for (let i = start; i < n; i += 4) s = body(i, s)\<close>.\<close>

function step4_loop :: "(nat \<Rightarrow> 's \<Rightarrow> 's) \<Rightarrow> nat \<Rightarrow> nat \<Rightarrow> 's \<Rightarrow> 's" where
  "step4_loop body n i s = (if i < n then step4_loop body n (i + 4) (body i s) else s)"
  by pat_completeness auto
termination
  by (relation "measure (\<lambda>(_, n, i, _). n - i)") auto

declare step4_loop.simps [simp del]

text \<open>\<open>for (y = 0; y < h; y++) for (x = 0; x < w; x++) s = body(x, y, s)\<close>.\<close>

definition for_grid :: "nat \<Rightarrow> nat \<Rightarrow> (nat \<Rightarrow> nat \<Rightarrow> 's \<Rightarrow> 's) \<Rightarrow> 's \<Rightarrow> 's" where
  "for_grid h w body s = fold (\<lambda>y. fold (\<lambda>x. body x y) [0..<w]) [0..<h] s"

definition grid :: "nat \<Rightarrow> nat \<Rightarrow> (nat \<times> nat) list" where
  "grid h w = concat (map (\<lambda>y. map (\<lambda>x. (x, y)) [0..<w]) [0..<h])"

text \<open>A loop whose body may throw: the first exception (\<open>Inl\<close>) ends it and
  propagates; the state reached so far is discarded with it.\<close>

fun fold_err :: "('a \<Rightarrow> 's \<Rightarrow> 'e + 's) \<Rightarrow> 'a list \<Rightarrow> 's \<Rightarrow> 'e + 's" where
  "fold_err f [] s = Inr s"
| "fold_err f (x # xs) s = (case f x s of Inl e \<Rightarrow> Inl e | Inr s' \<Rightarrow> fold_err f xs s')"

definition for_grid_err :: "nat \<Rightarrow> nat \<Rightarrow> (nat \<Rightarrow> nat \<Rightarrow> 's \<Rightarrow> 'e + 's) \<Rightarrow> 's \<Rightarrow> 'e + 's" where
  "for_grid_err h w body s = fold_err (\<lambda>y. fold_err (\<lambda>x. body x y) [0..<w]) [0..<h] s"

subsection \<open>Pixels in a flat RGBA byte list\<close>

text \<open>
  Pixel \<open>k\<close> occupies the bytes \<open>4k .. 4k+3\<close>.  The four assignments
  \<open>dst[i] = r; dst[i+1] = g; dst[i+2] = b; dst[i+3] = a\<close> of the geometric and
  convolution loops, with \<open>i = 4k\<close>:
\<close>

definition write_px :: "nat \<Rightarrow> u8 \<times> u8 \<times> u8 \<times> u8 \<Rightarrow> u8 list \<Rightarrow> u8 list" where
  "write_px k v d =
     (case v of (r, g, b, a) \<Rightarrow> d[4 * k := r, 4 * k + 1 := g, 4 * k + 2 := b, 4 * k + 3 := a])"

fun comp4 :: "u8 \<times> u8 \<times> u8 \<times> u8 \<Rightarrow> nat \<Rightarrow> u8" where
  "comp4 (r, g, b, a) c = (if c = 0 then r else if c = 1 then g else if c = 2 then b else a)"

subsection \<open>Lemmas: number semantics\<close>

lemma u8_clamped_of_int:
  assumes "0 \<le> k" and "k \<le> 255"
  shows "u8_clamped (of_int k) = word_of_int k"
proof (cases "k = 0 \<or> k = 255")
  case True
  then show ?thesis by (auto simp: u8_clamped_def)
next
  case False
  with assms have "0 < k" "k < 255" by auto
  then show ?thesis by (simp add: u8_clamped_def Let_def)
qed

lemma u8_clamped_0 [simp]: "u8_clamped 0 = 0"
  and u8_clamped_255 [simp]: "u8_clamped 255 = 255"
  by (simp_all add: u8_clamped_def)

lemma u8_clamped_of_nat [pixel_simps]:
  "n \<le> 255 \<Longrightarrow> u8_clamped (real n) = of_nat n"
  using u8_clamped_of_int [of "int n"] by simp

lemma unat_le_255: "unat (v :: u8) \<le> 255"
proof -
  have "unat v < 2 ^ LENGTH(8)" by (rule unsigned_less)
  then show ?thesis by simp
qed

lemma unat_less_256 [simp]: "unat (v :: u8) < 256"
  using unat_le_255 [of v] by simp

lemma u8_clamped_unat [simp]: "u8_clamped (unsigned v) = (v :: u8)"
proof -
  have "u8_clamped (real (unat v)) = of_nat (unat v)"
    by (rule u8_clamped_of_nat [OF unat_le_255])
  then show ?thesis by simp
qed

lemma store_rd [simp]: "store (Some (rd d i)) = d ! i"
  by (simp add: store_def rd_def)

lemma js_get_nat [simp]: "i < length d \<Longrightarrow> js_get d (int i) = Some (rd d i)"
  by (simp add: js_get_def)

lemma mod4_offset: "(c::nat) < 4 \<Longrightarrow> (4 * k + c) mod 4 = c"
  and div4_offset: "(c::nat) < 4 \<Longrightarrow> (4 * k + c) div 4 = k"
  by simp_all

lemma pix_index_inj:
  fixes a b x y n :: nat
  assumes "a < n" and "b < n" and "x * n + a = y * n + b"
  shows "x = y \<and> a = b"
proof -
  have "(x * n + a) div n = x" and "(y * n + b) div n = y" using assms(1,2) by simp_all
  moreover have "(x * n + a) mod n = a" and "(y * n + b) mod n = b" using assms(1,2) by simp_all
  ultimately show ?thesis using assms(3) by metis
qed

lemma store_Some [simp]: "store (Some x) = u8_clamped x"
  and store_None [simp]: "store None = 0"
  by (simp_all add: store_def)

lemma nan2_simps [simp]:
  "nan2 f (Some x) (Some y) = Some (f x y)"
  "nan2 f None b = None"
  "nan2 f a None = None"
  by (simp_all add: nan2_def split: option.splits)

lemma nth_opt_Some [simp]: "i < length xs \<Longrightarrow> nth_opt xs i = Some (xs ! i)"
  by (simp add: nth_opt_def)

lemma nth_opt_None [simp]: "length xs \<le> i \<Longrightarrow> nth_opt xs i = None"
  by (simp add: nth_opt_def)

lemma fold_concat: "fold f (concat xss) s = fold (fold f) xss s"
  by (induction xss arbitrary: s) simp_all

lemma fold_err_Inr:
  "(\<And>x s. x \<in> set xs \<Longrightarrow> f x s = Inr (g x s)) \<Longrightarrow> fold_err f xs s = Inr (fold g xs s)"
  by (induction xs arbitrary: s) simp_all

text \<open>A loop each of whose steps either succeeds or throws \<open>e\<close>, one of which
  always throws \<open>e\<close>, throws \<open>e\<close>.\<close>

lemma fold_err_Inl:
  assumes "\<And>x s. x \<in> set xs \<Longrightarrow> f x s = Inl e \<or> (\<exists>s'. f x s = Inr s')"
    and "z \<in> set xs" and "\<And>s. f z s = Inl e"
  shows "fold_err f xs s = Inl e"
  using assms
proof (induction xs arbitrary: s)
  case (Cons a xs)
  show ?case
  proof (cases "f a s")
    case (Inr s')
    then have "z \<noteq> a" using Cons.prems(3) [of s] by auto
    with Cons.prems(2) have "z \<in> set xs" by simp
    with Cons.prems(1,3) Inr show ?thesis by (simp add: Cons.IH)
  qed (use Cons.prems(1) [of a s] in auto)
qed simp

lemma fold_err_cases:
  "(\<And>x s. x \<in> set xs \<Longrightarrow> f x s = Inl e \<or> (\<exists>s'. f x s = Inr s')) \<Longrightarrow>
   fold_err f xs s = Inl e \<or> (\<exists>s'. fold_err f xs s = Inr s')"
proof (induction xs arbitrary: s)
  case (Cons a xs)
  have ih: "\<And>s. fold_err f xs s = Inl e \<or> (\<exists>s'. fold_err f xs s = Inr s')"
    using Cons.IH Cons.prems by simp
  have "f a s = Inl e \<or> (\<exists>s'. f a s = Inr s')" using Cons.prems by simp
  then show ?case
  proof
    assume "f a s = Inl e"
    then show ?thesis by simp
  next
    assume "\<exists>s'. f a s = Inr s'"
    then obtain s' where "f a s = Inr s'" ..
    then show ?thesis using ih [of s'] by simp
  qed
qed simp

lemma for_grid_err_Inr:
  "(\<And>x y d. x < w \<Longrightarrow> y < h \<Longrightarrow> body x y d = Inr (g x y d)) \<Longrightarrow>
   for_grid_err h w body d = Inr (for_grid h w g d)"
  unfolding for_grid_err_def for_grid_def by (intro fold_err_Inr) simp

lemma for_grid_err_Inl:
  assumes "0 < w" and "0 < h" and "\<And>d. body 0 0 d = Inl e"
  shows "for_grid_err h w body d = Inl e"
proof -
  have "[0..<w] = 0 # [1..<w]" "[0..<h] = 0 # [1..<h]" using assms(1,2) by (simp_all add: upt_conv_Cons)
  then show ?thesis by (simp add: for_grid_err_def assms(3))
qed

lemma sum_list_concat: "sum_list (concat xss) = sum_list (map sum_list xss)"
  by (induction xss) simp_all

lemma for_grid_fold: "for_grid h w body s = fold (\<lambda>(x, y). body x y) (grid h w) s"
  by (simp add: for_grid_def grid_def fold_concat fold_map comp_def)

lemma set_grid [simp]: "set (grid h w) = {(x, y). x < w \<and> y < h}"
  by (auto simp: grid_def)

lemma grid_Suc: "grid (Suc h) w = grid h w @ map (\<lambda>x. (x, h)) [0..<w]"
  by (simp add: grid_def)

lemma distinct_grid: "distinct (grid h w)"
  by (induction h) (auto simp: grid_Suc distinct_map inj_on_def grid_def)

lemma length_write_px [simp]: "length (write_px k v d) = length d"
  by (simp add: write_px_def split: prod.splits)

lemma write_px_nth_other:
  "n div 4 \<noteq> k \<Longrightarrow> write_px k v d ! n = d ! n"
  by (auto simp: write_px_def nth_list_update split: prod.splits)

lemma write_px_nth_own:
  assumes "4 * k + 3 < length d" and "c < 4"
  shows "write_px k v d ! (4 * k + c) = comp4 v c"
proof -
  obtain r g b a where v: "v = (r, g, b, a)" by (cases v) auto
  from assms(2) have "c = 0 \<or> c = 1 \<or> c = 2 \<or> c = 3" by auto
  with assms(1) show ?thesis by (auto simp: write_px_def v nth_list_update)
qed

lemma fold_write_px_other:
  "(\<forall>p \<in> set ps. f p \<noteq> n div 4) \<Longrightarrow>
   fold (\<lambda>p. write_px (f p) (v p)) ps d ! n = d ! n"
  by (induction ps arbitrary: d) (simp_all add: write_px_nth_other)

lemma length_fold_write_px [simp]:
  "length (fold (\<lambda>p. write_px (f p) (v p)) ps d) = length d"
  by (induction ps arbitrary: d) simp_all

lemma fold_write_px_own:
  assumes "distinct (map f ps)" and "p \<in> set ps"
    and "4 * f p + 3 < length d" and "c < 4"
  shows "fold (\<lambda>p. write_px (f p) (v p)) ps d ! (4 * f p + c) = comp4 (v p) c"
  using assms
proof (induction ps arbitrary: d)
  case Nil
  then show ?case by simp
next
  case (Cons q ps)
  show ?case
  proof (cases "q = p")
    case True
    have "(4 * f p + c) div 4 = f p" using Cons.prems(4) by simp
    with True Cons.prems(1) have "\<forall>p' \<in> set ps. f p' \<noteq> (4 * f p + c) div 4"
      by (auto simp: image_iff)
    then have "fold (\<lambda>p. write_px (f p) (v p)) ps (write_px (f q) (v q) d) ! (4 * f p + c)
             = write_px (f q) (v q) d ! (4 * f p + c)"
      by (rule fold_write_px_other)
    with True Cons.prems(3,4) show ?thesis by (simp add: write_px_nth_own)
  next
    case False
    with Cons.prems(2) have "p \<in> set ps" by simp
    with Cons.prems(1,3,4) show ?thesis by (simp add: Cons.IH)
  qed
qed

lemma for_grid_eq_fold_write:
  assumes "\<And>x y d. x < w \<Longrightarrow> y < h \<Longrightarrow> body x y d = write_px (f x y) (v x y) d"
  shows "for_grid h w body d
         = fold (\<lambda>p. write_px ((\<lambda>(x, y). f x y) p) ((\<lambda>(x, y). v x y) p)) (grid h w) d"
  unfolding for_grid_fold using assms by (intro fold_cong) auto

lemma for_grid_scatter:
  assumes body: "\<And>x y d. x < w \<Longrightarrow> y < h \<Longrightarrow> body x y d = write_px (f x y) (v x y) d"
    and inj: "inj_on (\<lambda>(x, y). f x y) {(x, y). x < w \<and> y < h}"
    and bound: "\<And>x y. x < w \<Longrightarrow> y < h \<Longrightarrow> 4 * f x y + 3 < length d"
    and "x < w" and "y < h" and "c < 4"
  shows "for_grid h w body d ! (4 * f x y + c) = comp4 (v x y) c"
proof -
  let ?F = "\<lambda>(x, y). f x y" and ?V = "\<lambda>(x, y). v x y"
  have eq: "for_grid h w body d = fold (\<lambda>p. write_px (?F p) (?V p)) (grid h w) d"
    using body by (rule for_grid_eq_fold_write)
  have "distinct (map ?F (grid h w))"
    using inj distinct_grid by (simp add: distinct_map)
  moreover have "(x, y) \<in> set (grid h w)" using assms(4,5) by simp
  moreover have "4 * ?F (x, y) + 3 < length d" using bound assms(4,5) by simp
  ultimately have "fold (\<lambda>p. write_px (?F p) (?V p)) (grid h w) d ! (4 * ?F (x, y) + c)
                   = comp4 (?V (x, y)) c"
    using assms(6) by (rule fold_write_px_own)
  then show ?thesis by (simp add: eq)
qed

lemma length_for_grid_write:
  assumes "\<And>x y d. x < w \<Longrightarrow> y < h \<Longrightarrow> body x y d = write_px (f x y) (v x y) d"
  shows "length (for_grid h w body d) = length d"
  using for_grid_eq_fold_write [OF assms] by simp

lemma row_major_inj: "inj_on (\<lambda>(x, y). y * W + x) {(x, y). x < W \<and> y < (H::nat)}"
  by (rule inj_onI) (auto dest: pix_index_inj)

lemma comp4_fun:
  assumes "c < 4"
  shows "comp4 (f 0, f 1, f 2, a) c = (if c = 3 then a else f c)"
proof -
  from assms consider "c = 0" | "c = 1" | "c = 2" | "c = 3" by arith
  then show ?thesis by cases simp_all
qed

lemma comp4_src:
  assumes "c < 4"
  shows "comp4 (d ! (4 * k), d ! (4 * k + 1), d ! (4 * k + 2), a) c
         = (if c = 3 then a else d ! (4 * k + c))"
proof -
  from assms consider "c = 0" | "c = 1" | "c = 2" | "c = 3" by arith
  then show ?thesis by cases simp_all
qed

lemma write_px_rev: "d[k * 4 + 2 := b, k * 4 + 1 := g, k * 4 := r, k * 4 + 3 := a] = write_px k (r, g, b, a) d"
  unfolding write_px_def by (simp add: list_update_swap mult.commute)

lemma map_upto_shift: "map (\<lambda>i. nat (i - a)) [a..a + int n - 1] = [0..<n]"
proof (induction n)
  case (Suc n)
  have "[a..a + int (Suc n) - 1] = [a..a + int n - 1] @ [a + int n]"
    using upto_rec2 [of a "a + int n"] by simp
  then show ?case using Suc.IH by simp
qed simp

lemma step4_loop_fold: "step4_loop body n i s = fold (\<lambda>k. body (i + 4 * k)) [0..<(n + 3 - i) div 4] s"
proof (induction body n i s rule: step4_loop.induct)
  case (1 body n i s)
  show ?case
  proof (cases "i < n")
    case True
    let ?m = "(n + 3 - (i + 4)) div 4"
    have "n + 3 - i = (n + 3 - (i + 4)) + 4" using True by arith
    then have m: "(n + 3 - i) div 4 = Suc ?m" by simp
    have "step4_loop body n i s = fold (\<lambda>k. body (i + 4 + 4 * k)) [0..<?m] (body i s)"
      using True "1.IH" [OF True] by (simp add: step4_loop.simps [of body n i s])
    also have "\<dots> = fold (\<lambda>k. body (i + 4 * k)) (0 # map Suc [0..<?m]) s"
      by (simp add: fold_map comp_def algebra_simps)
    also have "0 # map Suc [0..<?m] = [0..<(n + 3 - i) div 4]"
      by (simp only: m map_Suc_upt upt_conv_Cons [OF zero_less_Suc])
    finally show ?thesis .
  next
    case False
    then have "(n + 3 - i) div 4 = 0" by simp
    with False show ?thesis by (simp add: step4_loop.simps [of body n i s])
  qed
qed

lemma fold_count:
  assumes "\<And>k. k \<in> set ks \<Longrightarrow> f k < length h"
  shows "fold (\<lambda>k h. h[f k := h ! f k + 1]) ks h = map (\<lambda>v. h ! v + count_list (map f ks) v) [0..<length h]"
  using assms
proof (induction ks arbitrary: h)
  case Nil
  then show ?case by (simp add: map_nth)
next
  case (Cons k ks)
  let ?h = "h[f k := h ! f k + 1]"
  have "fold (\<lambda>k h. h[f k := h ! f k + 1]) ks ?h = map (\<lambda>v. ?h ! v + count_list (map f ks) v) [0..<length ?h]"
    using Cons.prems by (intro Cons.IH) simp
  also have "\<dots> = map (\<lambda>v. h ! v + count_list (map f (k # ks)) v) [0..<length h]"
    using Cons.prems by (intro map_cong) (auto simp: nth_list_update)
  finally show ?case by simp
qed

lemma length_step4_loop:
  "(\<And>i d. length (body i d) = length d) \<Longrightarrow> length (step4_loop body n i d) = length d"
  by (induction body n i d rule: step4_loop.induct) (simp add: step4_loop.simps)

lemma length_fold_upd:
  "(\<And>x d. length (f x d) = length d) \<Longrightarrow> length (fold f xs d) = length d"
  by (induction xs arbitrary: d) simp_all

lemma length_for_grid:
  "(\<And>x y d. length (body x y d) = length d) \<Longrightarrow> length (for_grid h w body d) = length d"
  unfolding for_grid_def by (intro length_fold_upd) simp

lemma u8_clamped_near:
  assumes "0 \<le> x" and "x \<le> 255"
  shows "\<bar>real (unat (u8_clamped x)) - x\<bar> \<le> 1 / 2"
proof (cases "x \<le> 0 \<or> 255 \<le> x")
  case True
  then show ?thesis using assms by (auto simp: u8_clamped_def)
next
  case False
  let ?f = "\<lfloor>x\<rfloor>"
  let ?n = "if x - of_int ?f < 1/2 then ?f else if 1/2 < x - of_int ?f then ?f + 1
            else if even ?f then ?f else ?f + 1"
  have f: "of_int ?f \<le> x" "x < of_int ?f + 1" by linarith+
  have n: "0 \<le> ?n" "?n \<le> 255" using False f by auto
  have "u8_clamped x = word_of_int ?n" using False by (simp add: u8_clamped_def Let_def)
  then have "real (unat (u8_clamped x)) = of_int ?n"
    using n by (simp add: unat_eq_nat_uint uint_word_of_int_eq take_bit_int_eq_self)
  moreover have "\<bar>of_int ?n - x\<bar> \<le> 1 / 2" using f by auto
  ultimately show ?thesis by simp
qed

end
