(* ===== verification/Buffer.thy ===== *)
theory Buffer
  imports Prelude
begin

text \<open>
  The sample buffer: an \<open>ImageData\<close> object of the canvas API, that is a width,
  a height and a flat \<open>Uint8ClampedArray\<close> of RGBA samples, row-major from the
  top-left corner.  Also the two clamping helpers of \<open>src/script.js\<close>
  (\<open>clamp\<close>, \<open>clampIndex\<close>, lines 62-68) that every engine shares, and the
  observation functions the theorems use: the byte of a pixel channel and the
  image with every alpha byte forced to 255.
\<close>

record image =
  width :: nat
  height :: nat
  data :: "u8 list"

text \<open>The exceptions the canvas API and the engine can raise.\<close>

datatype js_error = IndexSizeError | TypeError

text \<open>The invariant every \<open>ImageData\<close> satisfies.\<close>

definition wf_image :: "image \<Rightarrow> bool" where
  "wf_image img \<longleftrightarrow> length (data img) = 4 * width img * height img"

text \<open>\<open>ctx.createImageData(w, h)\<close>: transparent black (all samples 0).\<close>

definition createImageData :: "nat \<Rightarrow> nat \<Rightarrow> image" where
  "createImageData w h = \<lparr>width = w, height = h, data = replicate (4 * w * h) 0\<rparr>"

text \<open>\<open>clamp(value)\<close> and \<open>clampIndex(val, min, max)\<close>.\<close>

definition clamp :: "real \<Rightarrow> real" where
  "clamp v = max 0 (min 255 v)"

definition clampIndex :: "int \<Rightarrow> int \<Rightarrow> int \<Rightarrow> int" where
  "clampIndex v lo hi = max lo (min hi v)"

text \<open>Channel \<open>c\<close> (0 = R, 1 = G, 2 = B, 3 = A) of pixel \<open>(x, y)\<close>.\<close>

definition px :: "image \<Rightarrow> nat \<Rightarrow> nat \<Rightarrow> nat \<Rightarrow> u8" where
  "px img x y c = data img ! (4 * (y * width img + x) + c)"

text \<open>The image with every alpha sample set to 255: what the geometric and
  convolution engines return for an unchanged picture.\<close>

definition opaque_data :: "u8 list \<Rightarrow> u8 list" where
  "opaque_data d = map (\<lambda>i. if i mod 4 = 3 then 255 else d ! i) [0..<length d]"

definition opaque :: "image \<Rightarrow> image" where
  "opaque img = img\<lparr>data := opaque_data (data img)\<rparr>"

text \<open>A uniform image: every pixel has the colour \<open>(r, g, b)\<close>.\<close>

definition uniform :: "image \<Rightarrow> u8 \<Rightarrow> u8 \<Rightarrow> u8 \<Rightarrow> bool" where
  "uniform img r g b \<longleftrightarrow>
     (\<forall>i < length (data img). i mod 4 < 3 \<longrightarrow> data img ! i = [r, g, b] ! (i mod 4))"

subsection \<open>Lemmas\<close>

lemma wf_image_mod4: "wf_image img \<Longrightarrow> length (data img) mod 4 = 0"
  by (simp add: wf_image_def)

lemma wf_createImageData [simp]: "wf_image (createImageData w h)"
  by (simp add: wf_image_def createImageData_def)

lemma createImageData_sel [simp]:
  "width (createImageData w h) = w"
  "height (createImageData w h) = h"
  "length (data (createImageData w h)) = 4 * w * h"
  by (simp_all add: createImageData_def)

lemma clamp_range: "0 \<le> clamp v" "clamp v \<le> 255"
  by (simp_all add: clamp_def)

lemma clamp_id [simp]: "0 \<le> v \<Longrightarrow> v \<le> 255 \<Longrightarrow> clamp v = v"
  by (simp add: clamp_def)

lemma clamp_unsigned [simp]: "clamp (unsigned (v :: u8)) = (unsigned v :: real)"
proof -
  have "real (unat v) \<le> 255" using unat_le_255 [of v] by (metis of_nat_le_iff of_nat_numeral)
  then have "clamp (real (unat v)) = real (unat v)" by (rule clamp_id [OF of_nat_0_le_iff])
  then show ?thesis by simp
qed

lemma clampIndex_range: "lo \<le> hi \<Longrightarrow> lo \<le> clampIndex v lo hi \<and> clampIndex v lo hi \<le> hi"
  by (simp add: clampIndex_def)

lemma clampIndex_id [simp]: "lo \<le> v \<Longrightarrow> v \<le> hi \<Longrightarrow> clampIndex v lo hi = v"
  by (simp add: clampIndex_def)

lemma length_opaque_data [simp]: "length (opaque_data d) = length d"
  by (simp add: opaque_data_def)

lemma nth_opaque_data:
  "i < length d \<Longrightarrow> opaque_data d ! i = (if i mod 4 = 3 then 255 else d ! i)"
  by (simp add: opaque_data_def)

lemma opaque_sel [simp]:
  "width (opaque img) = width img"
  "height (opaque img) = height img"
  "length (data (opaque img)) = length (data img)"
  by (simp_all add: opaque_def)

lemma wf_opaque [simp]: "wf_image (opaque img) = wf_image img"
  by (simp add: wf_image_def)

text \<open>
  Pixel addressing: in a well-formed image the byte \<open>4 * (y * w + x) + c\<close>
  of an in-range pixel and channel exists, and every byte index has this form.
\<close>

lemma px_index_bound:
  fixes x y c w h :: nat
  assumes "x < w" and "y < h" and "c < 4"
  shows "4 * (y * w + x) + c < 4 * w * h"
proof -
  have "y * w + x < h * w"
  proof -
    have "y * w + x < y * w + w" using assms(1) by simp
    also have "\<dots> = Suc y * w" by simp
    also have "\<dots> \<le> h * w" using assms(2) by (intro mult_right_mono) simp_all
    finally show ?thesis .
  qed
  then have "y * w + x + 1 \<le> h * w" by simp
  then have "4 * (y * w + x) + 4 \<le> 4 * (h * w)" by simp
  with assms(3) show ?thesis by (simp add: mult.commute mult.left_commute)
qed

lemma row_major_bound: "x < W \<Longrightarrow> y < H \<Longrightarrow> 4 * (y * W + x) + 3 < length (replicate (4 * W * H) (0::u8))"
  using px_index_bound [of x W y H 3] by simp

lemma byte_index_split:
  fixes i w h :: nat
  assumes "i < 4 * w * h" and "0 < w"
  obtains x y c where "x < w" "y < h" "c < 4" "i = 4 * (y * w + x) + c"
proof
  let ?k = "i div 4"
  have k: "?k < w * h" using assms(1) by (simp add: less_mult_imp_div_less mult.assoc)
  show "?k mod w < w" using assms(2) by simp
  show "?k div w < h" using k by (simp add: less_mult_imp_div_less mult.commute)
  show "i mod 4 < 4" by simp
  show "i = 4 * (?k div w * w + ?k mod w) + i mod 4" by simp
qed

text \<open>Reading sample \<open>c\<close> of an in-range pixel \<open>(b, a)\<close> with a Number index.\<close>

lemma js_get_px:
  assumes "length src = 4 * w * h" and "0 \<le> a" and "a < int h" and "0 \<le> b" and "b < int w"
    and "c < 4"
  shows "js_get src ((a * int w + b) * 4 + int c) = Some (rd src (4 * (nat a * w + nat b) + c))"
proof -
  have "4 * (nat a * w + nat b) + c < length src"
    using assms px_index_bound [of "nat b" w "nat a" h c] by simp
  moreover have "(a * int w + b) * 4 + int c = int (4 * (nat a * w + nat b) + c)"
    using assms(2,4) by simp
  ultimately show ?thesis by (simp only: js_get_nat)
qed

text \<open>The image whose sample \<open>i\<close> is computed from the pixel and channel of
  \<open>i\<close>: the shape of the reference semantics.\<close>

lemma px_map_data:
  assumes "wf_image img" and "x < width img" and "y < height img" and "c < 4"
  shows "px (img\<lparr>data := map (\<lambda>i. F (i div 4 mod width img) (i div 4 div width img) (i mod 4))
                                [0..<length (data img)]\<rparr>) x y c = F x y c"
proof -
  have "4 * (y * width img + x) + c < length (data img)"
    using assms px_index_bound [of x "width img" y "height img" c] by (simp add: wf_image_def)
  moreover have "(4 * (y * width img + x) + c) div 4 = y * width img + x" using assms(4) by simp
  moreover have "(4 * (y * width img + x) + c) mod 4 = c" using assms(4) by (rule mod4_offset)
  ultimately show ?thesis using assms(2) by (simp only: px_def length_map nth_map nth_upt) simp
qed

text \<open>Two well-formed images of the same size are equal when every channel of every
  pixel is.\<close>

lemma image_eqI_px:
  assumes "wf_image a" and "wf_image b"
    and "width a = width b" and "height a = height b"
    and px: "\<And>x y c. x < width a \<Longrightarrow> y < height a \<Longrightarrow> c < 4 \<Longrightarrow> px a x y c = px b x y c"
  shows "a = b"
proof -
  have len: "length (data a) = length (data b)" using assms(1-4) by (simp add: wf_image_def)
  have "data a = data b"
  proof (rule nth_equalityI [OF len])
    fix i assume i: "i < length (data a)"
    have "i < 4 * width a * height a" using i assms(1) by (simp add: wf_image_def)
    moreover have "0 < width a" using i assms(1) by (cases "width a") (auto simp: wf_image_def)
    ultimately obtain x y c where "x < width a" "y < height a" "c < 4"
        and "i = 4 * (y * width a + x) + c"
      by (rule byte_index_split)
    then show "data a ! i = data b ! i" using px [of x y c] assms(3) by (simp add: px_def)
  qed
  then show ?thesis using assms(3,4) by simp
qed

lemma px_opaque:
  assumes "wf_image img" and "x < width img" and "y < height img" and "c < 4"
  shows "px (opaque img) x y c = (if c = 3 then 255 else px img x y c)"
proof -
  define k where "k = y * width img + x"
  have "4 * k + c < length (data img)"
    using assms px_index_bound [of x "width img" y "height img" c] by (simp add: wf_image_def k_def)
  then have "opaque_data (data img) ! (4 * k + c) = (if c = 3 then 255 else data img ! (4 * k + c))"
    using assms(4) by (simp add: nth_opaque_data mod4_offset)
  then show ?thesis by (simp add: px_def opaque_def k_def)
qed

lemma uniform_nth:
  assumes "uniform img r g b" and "4 * k + c < length (data img)" and "c < 3"
  shows "data img ! (4 * k + c) = [r, g, b] ! c"
proof -
  have "(4 * k + c) mod 4 = c" using assms(3) by (intro mod4_offset) simp
  with assms show ?thesis unfolding uniform_def by metis
qed

lemma px_uniform:
  assumes "wf_image img" and "uniform img r g b" and "x < width img" and "y < height img" and "c < 3"
  shows "px img x y c = [r, g, b] ! c"
proof -
  have "4 * (y * width img + x) + c < length (data img)"
    using assms(1,3-5) px_index_bound [of x "width img" y "height img" c] by (simp add: wf_image_def)
  moreover have "(4 * (y * width img + x) + c) mod 4 = c" using assms(5) by (intro mod4_offset) simp
  ultimately show ?thesis using assms(2,5) by (simp add: px_def uniform_def)
qed

lemma nth_concat_replicate4:
  "i < 4 * n \<Longrightarrow> concat (replicate n [r, g, b, a]) ! i = [r, g, b, a] ! (i mod 4)"
proof (induction n arbitrary: i)
  case (Suc n)
  show ?case
  proof (cases "i < 4")
    case False
    then have "(i - 4) mod 4 = i mod 4" by (simp add: mod_if)
    moreover have "i - Suc (Suc (Suc (Suc 0))) = i - 4" by simp
    ultimately show ?thesis using False Suc by (simp add: nth_append)
  next
    case True
    then consider "i = 0" | "i = 1" | "i = 2" | "i = 3" by arith
    then show ?thesis by cases simp_all
  qed
qed simp

lemma uniform_concat_replicate [simp]:
  "uniform \<lparr>width = w, height = h, data = concat (replicate n [r, g, b, a])\<rparr> r g b"
  unfolding uniform_def
proof (intro allI impI)
  fix i assume "i < length (data \<lparr>width = w, height = h, data = concat (replicate n [r, g, b, a])\<rparr>)" "i mod 4 < 3"
  then show "data \<lparr>width = w, height = h, data = concat (replicate n [r, g, b, a])\<rparr> ! i = [r, g, b] ! (i mod 4)"
    by (auto simp: nth_concat_replicate4 length_concat sum_list_replicate less_Suc_eq numeral_3_eq_3 nth_Cons')
qed

text \<open>A row-major loop that writes pixel \<open>(x, y)\<close> once, with colour samples
  \<open>v x y c\<close> and alpha 255, computes the image of samples \<open>v\<close>.\<close>

lemma for_grid_row_major:
  assumes "wf_image img"
    and body: "\<And>x y d. x < width img \<Longrightarrow> y < height img \<Longrightarrow>
        body x y d = write_px (y * width img + x) (v x y 0, v x y 1, v x y 2, 255) d"
  shows "for_grid (height img) (width img) body (replicate (4 * width img * height img) 0)
         = map (\<lambda>i. if i mod 4 = 3 then 255 else v (i div 4 mod width img) (i div 4 div width img) (i mod 4))
               [0..<length (data img)]"
proof -
  let ?w = "width img" and ?h = "height img" and ?d0 = "replicate (4 * width img * height img) (0::u8)"
  let ?F = "\<lambda>x y c. if c = 3 then 255 else v x y c"
  let ?G = "map (\<lambda>i. ?F (i div 4 mod ?w) (i div 4 div ?w) (i mod 4)) [0..<length (data img)]"
  have "img\<lparr>data := for_grid ?h ?w body ?d0\<rparr> = img\<lparr>data := ?G\<rparr>"
  proof (rule image_eqI_px)
    show "wf_image (img\<lparr>data := for_grid ?h ?w body ?d0\<rparr>)"
      using length_for_grid_write [of ?w ?h body, OF body] by (simp add: wf_image_def)
    fix x y c :: nat
    assume b: "x < width (img\<lparr>data := for_grid ?h ?w body ?d0\<rparr>)"
      "y < height (img\<lparr>data := for_grid ?h ?w body ?d0\<rparr>)" "c < 4"
    then have "for_grid ?h ?w body ?d0 ! (4 * (y * ?w + x) + c) = comp4 (v x y 0, v x y 1, v x y 2, 255) c"
      using body row_major_inj row_major_bound by (intro for_grid_scatter [where f = "\<lambda>x y. y * ?w + x"]) simp_all
    also have "\<dots> = ?F x y c" using comp4_fun [OF b(3), of "v x y"] by simp
    finally show "px (img\<lparr>data := for_grid ?h ?w body ?d0\<rparr>) x y c = px (img\<lparr>data := ?G\<rparr>) x y c"
      using b assms(1) px_map_data [OF assms(1), of x y c ?F] by (simp add: px_def)
  qed (use assms(1) in \<open>simp_all add: wf_image_def\<close>)
  from arg_cong [OF this, of data] show ?thesis by simp
qed

end
