(* ===== verification/Point.thy ===== *)
theory Point
  imports Buffer
begin

text \<open>
  The point transform engine, \<open>src/script.js\<close> lines 70-150: \<open>toGray\<close>,
  \<open>toBlackAndWhite\<close>, \<open>changeBrightness\<close>, \<open>changeContrast\<close>,
  \<open>adjustRGB\<close> and \<open>negative\<close>.  Each is the loop
  \<open>for (i = 0; i < d.length; i += 4)\<close> over the samples of the current image
  (\<^const>\<open>step4_loop\<close>) with the source's loop body, which reads and writes the
  samples \<open>d[i]\<close>, \<open>d[i+1]\<close>, \<open>d[i+2]\<close> in the order the code does, each
  write going through the \<open>Uint8ClampedArray\<close> store \<^const>\<open>u8_clamped\<close>.

  The reference semantics is \<open>map_pixels\<close>: a function on one pixel's
  \<open>(R, G, B)\<close> applied to every pixel, alpha untouched.  The lemma
  \<open>step4_loop_map_pixels\<close> shows that a loop whose body only rewrites the
  three colour samples of pixel \<open>i\<close> from their old values computes it; the
  \<open>*_body_upd3\<close> lemmas show that each of the six bodies has that shape.
\<close>

definition upd3 :: "nat \<Rightarrow> u8 \<times> u8 \<times> u8 \<Rightarrow> u8 list \<Rightarrow> u8 list" where
  "upd3 i v d = (case v of (r, g, b) \<Rightarrow> d[i := r, i + 1 := g, i + 2 := b])"

text \<open>The colour of pixel \<open>k\<close> of a sample list.\<close>

definition pix3 :: "u8 list \<Rightarrow> nat \<Rightarrow> u8 \<times> u8 \<times> u8" where
  "pix3 d k = (d ! (4 * k), d ! (4 * k + 1), d ! (4 * k + 2))"

fun comp3 :: "u8 \<times> u8 \<times> u8 \<Rightarrow> nat \<Rightarrow> u8" where
  "comp3 (r, g, b) c = (if c = 0 then r else if c = 1 then g else b)"

fun map_pixels :: "(u8 \<times> u8 \<times> u8 \<Rightarrow> u8 \<times> u8 \<times> u8) \<Rightarrow> u8 list \<Rightarrow> u8 list" where
  "map_pixels f (r # g # b # a # rest) =
     (case f (r, g, b) of (r', g', b') \<Rightarrow> r' # g' # b' # a # map_pixels f rest)"
| "map_pixels f xs = xs"

subsection \<open>The six loop bodies and operations\<close>

text \<open>\<open>toGray\<close> (lines 73-87).\<close>

definition gray_body :: "nat \<Rightarrow> u8 list \<Rightarrow> u8 list" where
  "gray_body i d =
     (let r = rd d i; g = rd d (i + 1); b = rd d (i + 2);
          gray = 0.299 * r + 0.587 * g + 0.114 * b
      in d[i := u8_clamped gray, i + 1 := u8_clamped gray, i + 2 := u8_clamped gray])"

definition toGray :: "image \<Rightarrow> image" where
  "toGray img = img\<lparr>data := step4_loop gray_body (length (data img)) 0 (data img)\<rparr>"

text \<open>\<open>toBlackAndWhite(threshold)\<close> (lines 90-101).\<close>

definition bw_body :: "real \<Rightarrow> nat \<Rightarrow> u8 list \<Rightarrow> u8 list" where
  "bw_body threshold i d =
     (let avg = (rd d i + rd d (i + 1) + rd d (i + 2)) / 3;
          val = (if threshold \<le> avg then 255 else 0)
      in d[i := u8_clamped val, i + 1 := u8_clamped val, i + 2 := u8_clamped val])"

definition toBlackAndWhite :: "real \<Rightarrow> image \<Rightarrow> image" where
  "toBlackAndWhite threshold img =
     img\<lparr>data := step4_loop (bw_body threshold) (length (data img)) 0 (data img)\<rparr>"

text \<open>\<open>changeBrightness(offset)\<close> (lines 104-113).\<close>

definition brightness_body :: "real \<Rightarrow> nat \<Rightarrow> u8 list \<Rightarrow> u8 list" where
  "brightness_body offset i d =
     (let d1 = d[i := u8_clamped (clamp (rd d i + offset))];
          d2 = d1[i + 1 := u8_clamped (clamp (rd d1 (i + 1) + offset))]
      in d2[i + 2 := u8_clamped (clamp (rd d2 (i + 2) + offset))])"

definition changeBrightness :: "real \<Rightarrow> image \<Rightarrow> image" where
  "changeBrightness offset img =
     img\<lparr>data := step4_loop (brightness_body offset) (length (data img)) 0 (data img)\<rparr>"

text \<open>\<open>changeContrast(factor)\<close> (lines 116-126).\<close>

definition contrast_body :: "real \<Rightarrow> nat \<Rightarrow> u8 list \<Rightarrow> u8 list" where
  "contrast_body factor i d =
     (let d1 = d[i := u8_clamped (clamp (128 + factor * (rd d i - 128)))];
          d2 = d1[i + 1 := u8_clamped (clamp (128 + factor * (rd d1 (i + 1) - 128)))]
      in d2[i + 2 := u8_clamped (clamp (128 + factor * (rd d2 (i + 2) - 128)))])"

definition changeContrast :: "real \<Rightarrow> image \<Rightarrow> image" where
  "changeContrast factor img =
     img\<lparr>data := step4_loop (contrast_body factor) (length (data img)) 0 (data img)\<rparr>"

text \<open>\<open>adjustRGB(rOffset, gOffset, bOffset)\<close> (lines 129-138).\<close>

definition adjust_body :: "real \<Rightarrow> real \<Rightarrow> real \<Rightarrow> nat \<Rightarrow> u8 list \<Rightarrow> u8 list" where
  "adjust_body rOffset gOffset bOffset i d =
     (let d1 = d[i := u8_clamped (clamp (rd d i + rOffset))];
          d2 = d1[i + 1 := u8_clamped (clamp (rd d1 (i + 1) + gOffset))]
      in d2[i + 2 := u8_clamped (clamp (rd d2 (i + 2) + bOffset))])"

definition adjustRGB :: "real \<Rightarrow> real \<Rightarrow> real \<Rightarrow> image \<Rightarrow> image" where
  "adjustRGB rOffset gOffset bOffset img =
     img\<lparr>data := step4_loop (adjust_body rOffset gOffset bOffset) (length (data img)) 0 (data img)\<rparr>"

text \<open>\<open>negative()\<close> (lines 141-150).\<close>

definition negative_body :: "nat \<Rightarrow> u8 list \<Rightarrow> u8 list" where
  "negative_body i d =
     (let d1 = d[i := u8_clamped (255 - rd d i)];
          d2 = d1[i + 1 := u8_clamped (255 - rd d1 (i + 1))]
      in d2[i + 2 := u8_clamped (255 - rd d2 (i + 2))])"

definition negative :: "image \<Rightarrow> image" where
  "negative img = img\<lparr>data := step4_loop negative_body (length (data img)) 0 (data img)\<rparr>"

subsection \<open>Per-pixel reference functions\<close>

text \<open>The formulas of the spec (section 4.1), on one pixel's colour, with the store into the
  byte array made explicit.\<close>

definition chan :: "u8 \<Rightarrow> real" where
  "chan v = real (unat v)"

definition gray_px :: "u8 \<times> u8 \<times> u8 \<Rightarrow> u8 \<times> u8 \<times> u8" where
  "gray_px p = (case p of (r, g, b) \<Rightarrow>
     (let v = u8_clamped (0.299 * chan r + 0.587 * chan g + 0.114 * chan b) in (v, v, v)))"

definition bw_px :: "real \<Rightarrow> u8 \<times> u8 \<times> u8 \<Rightarrow> u8 \<times> u8 \<times> u8" where
  "bw_px threshold p = (case p of (r, g, b) \<Rightarrow>
     (let v = (if threshold \<le> (chan r + chan g + chan b) / 3 then 255 else 0) in (v, v, v)))"

definition offset_px :: "real \<Rightarrow> real \<Rightarrow> real \<Rightarrow> u8 \<times> u8 \<times> u8 \<Rightarrow> u8 \<times> u8 \<times> u8" where
  "offset_px ro go bo p = (case p of (r, g, b) \<Rightarrow>
     (u8_clamped (clamp (chan r + ro)), u8_clamped (clamp (chan g + go)),
      u8_clamped (clamp (chan b + bo))))"

definition contrast_chan :: "real \<Rightarrow> u8 \<Rightarrow> u8" where
  "contrast_chan factor v = u8_clamped (clamp (128 + factor * (chan v - 128)))"

definition contrast_px :: "real \<Rightarrow> u8 \<times> u8 \<times> u8 \<Rightarrow> u8 \<times> u8 \<times> u8" where
  "contrast_px factor p = (case p of (r, g, b) \<Rightarrow>
     (contrast_chan factor r, contrast_chan factor g, contrast_chan factor b))"

definition negative_px :: "u8 \<times> u8 \<times> u8 \<Rightarrow> u8 \<times> u8 \<times> u8" where
  "negative_px p = (case p of (r, g, b) \<Rightarrow>
     (u8_clamped (255 - chan r), u8_clamped (255 - chan g), u8_clamped (255 - chan b)))"

subsection \<open>Refinement of the sample loop\<close>

lemma rd_chan [pixel_simps]: "rd d i = chan (d ! i)"
  by (simp add: rd_def chan_def)

lemma length_map_pixels [simp]: "length (map_pixels f d) = length d"
  by (induction f d rule: map_pixels.induct) (simp_all split: prod.splits)

lemma map_pixels_comp: "map_pixels f (map_pixels g d) = map_pixels (f \<circ> g) d"
  by (induction g d rule: map_pixels.induct) (simp_all split: prod.splits)

lemma map_pixels_ident:
  "(\<And>p. f p = p) \<Longrightarrow> map_pixels f d = d"
  by (induction f d rule: map_pixels.induct) (simp_all split: prod.splits)

lemma step4_loop_append:
  "(\<And>i d. body i d = upd3 i (f (d ! i, d ! (i + 1), d ! (i + 2))) d) \<Longrightarrow>
   length ys mod 4 = 0 \<Longrightarrow>
   step4_loop body (length xs + length ys) (length xs) (xs @ ys) = xs @ map_pixels f ys"
proof (induction f ys arbitrary: xs rule: map_pixels.induct)
  case (1 f r g b a rest)
  obtain r' g' b' where f: "f (r, g, b) = (r', g', b')" by (cases "f (r, g, b)") auto
  have step: "body (length xs) (xs @ r # g # b # a # rest) = (xs @ [r', g', b', a]) @ rest"
    using "1.prems"(1) f by (simp add: upd3_def nth_append list_update_append)
  have "step4_loop body (length (xs @ [r', g', b', a]) + length rest)
          (length (xs @ [r', g', b', a])) ((xs @ [r', g', b', a]) @ rest)
        = (xs @ [r', g', b', a]) @ map_pixels f rest"
    using "1.prems" by (intro "1.IH" [OF f [symmetric]]) simp_all
  then show ?case
    by (subst step4_loop.simps) (simp add: step f eval_nat_numeral)
qed (simp_all add: step4_loop.simps)

lemma step4_loop_map_pixels:
  assumes "\<And>i d. body i d = upd3 i (f (d ! i, d ! (i + 1), d ! (i + 2))) d"
    and "length d mod 4 = 0"
  shows "step4_loop body (length d) 0 d = map_pixels f d"
  using step4_loop_append [of body f d "[]"] assms by simp

lemma gray_body_upd3: "gray_body i d = upd3 i (gray_px (d ! i, d ! (i + 1), d ! (i + 2))) d"
  by (simp add: gray_body_def gray_px_def upd3_def Let_def rd_chan)

lemma bw_body_upd3: "bw_body t i d = upd3 i (bw_px t (d ! i, d ! (i + 1), d ! (i + 2))) d"
  by (simp add: bw_body_def bw_px_def upd3_def Let_def rd_chan)

lemma brightness_body_upd3:
  "brightness_body off i d = upd3 i (offset_px off off off (d ! i, d ! (i + 1), d ! (i + 2))) d"
  by (simp add: brightness_body_def offset_px_def upd3_def Let_def rd_chan)

lemma adjust_body_upd3:
  "adjust_body ro go bo i d = upd3 i (offset_px ro go bo (d ! i, d ! (i + 1), d ! (i + 2))) d"
  by (simp add: adjust_body_def offset_px_def upd3_def Let_def rd_chan)

lemma contrast_body_upd3:
  "contrast_body k i d = upd3 i (contrast_px k (d ! i, d ! (i + 1), d ! (i + 2))) d"
  by (simp add: contrast_body_def contrast_px_def contrast_chan_def upd3_def Let_def rd_chan)

lemma negative_body_upd3: "negative_body i d = upd3 i (negative_px (d ! i, d ! (i + 1), d ! (i + 2))) d"
  by (simp add: negative_body_def negative_px_def upd3_def Let_def rd_chan)



lemma map_pixels_pix3:
  "length d mod 4 = 0 \<Longrightarrow> k < length d div 4 \<Longrightarrow> pix3 (map_pixels f d) k = f (pix3 d k)"
proof (induction f d arbitrary: k rule: map_pixels.induct)
  case (1 f r g b a rest)
  show ?case
  proof (cases k)
    case 0
    then show ?thesis by (simp add: pix3_def split: prod.splits)
  next
    case (Suc k')
    obtain r' g' b' where f: "f (r, g, b) = (r', g', b')" by (cases "f (r, g, b)") auto
    from "1.prems" Suc have "pix3 (map_pixels f rest) k' = f (pix3 rest k')"
      by (intro "1.IH" [OF f [symmetric]]) auto
    with Suc show ?thesis by (simp add: pix3_def split: prod.splits)
  qed
qed simp_all

lemma map_pixels_alpha:
  "length d mod 4 = 0 \<Longrightarrow> k < length d div 4 \<Longrightarrow> map_pixels f d ! (4 * k + 3) = d ! (4 * k + 3)"
proof (induction f d arbitrary: k rule: map_pixels.induct)
  case (1 f r g b a rest)
  show ?case
  proof (cases k)
    case 0
    then show ?thesis by (simp split: prod.splits)
  next
    case (Suc k')
    obtain r' g' b' where f: "f (r, g, b) = (r', g', b')" by (cases "f (r, g, b)") auto
    from "1.prems" Suc have "map_pixels f rest ! (4 * k' + 3) = rest ! (4 * k' + 3)"
      by (intro "1.IH" [OF f [symmetric]]) auto
    with Suc f show ?thesis by (simp add: add.commute)
  qed
qed simp_all

lemma toGray_map_pixels:
  "length (data img) mod 4 = 0 \<Longrightarrow> toGray img = img\<lparr>data := map_pixels gray_px (data img)\<rparr>"
  by (simp add: toGray_def step4_loop_map_pixels [OF gray_body_upd3])

lemma negative_map_pixels:
  "length (data img) mod 4 = 0 \<Longrightarrow> negative img = img\<lparr>data := map_pixels negative_px (data img)\<rparr>"
  by (simp add: negative_def step4_loop_map_pixels [OF negative_body_upd3])

lemma chan_u8_clamped_eq: "u8_clamped (chan v) = v"
  by (simp add: chan_def)

lemma gray_px_idem: "gray_px (gray_px p) = gray_px p"
proof -
  obtain r g b where p: "p = (r, g, b)" by (cases p) auto
  let ?v = "u8_clamped (0.299 * chan r + 0.587 * chan g + 0.114 * chan b)"
  have "0.299 * chan ?v + 0.587 * chan ?v + 0.114 * chan ?v = chan ?v" by simp
  then show ?thesis by (simp add: gray_px_def p Let_def chan_u8_clamped_eq)
qed

lemma negative_chan: "u8_clamped (255 - chan v) = 255 - v"
proof -
  have le: "unat v \<le> 255" by (rule unat_le_255)
  then have "255 - chan v = real (255 - unat v)" by (simp add: chan_def of_nat_diff)
  then have "u8_clamped (255 - chan v) = of_nat (255 - unat v)" by (simp add: u8_clamped_of_nat)
  also have "\<dots> = 255 - v" using le by (simp add: of_nat_diff)
  finally show ?thesis .
qed

lemma negative_px_invol: "negative_px (negative_px p) = p"
  by (cases p) (simp add: negative_px_def negative_chan)


lemma nth_pix3: "c < 3 \<Longrightarrow> comp3 (pix3 d k) c = d ! (4 * k + c)"
proof -
  assume "c < 3"
  then have "c = 0 \<or> c = 1 \<or> c = 2" by arith
  then show ?thesis by (auto simp: pix3_def)
qed

lemma map_pixels_nth:
  assumes "length d mod 4 = 0" and "k < length d div 4" and "c < 3"
  shows "map_pixels f d ! (4 * k + c) = comp3 (f (pix3 d k)) c"
proof -
  have "map_pixels f d ! (4 * k + c) = comp3 (pix3 (map_pixels f d) k) c"
    using assms(3) by (simp add: nth_pix3)
  also have "\<dots> = comp3 (f (pix3 d k)) c"
    using assms(1,2) by (simp add: map_pixels_pix3)
  finally show ?thesis .
qed

lemma uint_u8_clamped_int:
  "uint (u8_clamped (clamp (of_int z))) = max 0 (min 255 z)"
proof -
  have "clamp (of_int z) = of_int (max 0 (min 255 z))" by (simp add: clamp_def)
  then have "u8_clamped (clamp (of_int z)) = word_of_int (max 0 (min 255 z))"
    by (simp add: u8_clamped_of_int)
  then show ?thesis by (simp add: uint_word_of_int_eq take_bit_int_eq_self)
qed


lemma wf_pixel_count: "wf_image img \<Longrightarrow> length (data img) div 4 = width img * height img"
  by (simp add: wf_image_def)

lemma changeBrightness_map_pixels:
  "length (data img) mod 4 = 0 \<Longrightarrow>
   changeBrightness off img = img\<lparr>data := map_pixels (offset_px off off off) (data img)\<rparr>"
  by (simp add: changeBrightness_def step4_loop_map_pixels [OF brightness_body_upd3 [of off]])

lemma toBlackAndWhite_map_pixels:
  "length (data img) mod 4 = 0 \<Longrightarrow>
   toBlackAndWhite t img = img\<lparr>data := map_pixels (bw_px t) (data img)\<rparr>"
  by (simp add: toBlackAndWhite_def step4_loop_map_pixels [OF bw_body_upd3 [of t]])

lemma changeContrast_map_pixels:
  "length (data img) mod 4 = 0 \<Longrightarrow>
   changeContrast k img = img\<lparr>data := map_pixels (contrast_px k) (data img)\<rparr>"
  by (simp add: changeContrast_def step4_loop_map_pixels [OF contrast_body_upd3 [of k]])

lemma comp3_offset_px:
  "c < 3 \<Longrightarrow> comp3 (offset_px a a a p) c = u8_clamped (clamp (chan (comp3 p c) + a))"
  by (cases p) (auto simp: offset_px_def)

lemma chan_uint: "chan v = of_int (uint v)"
  by (simp add: chan_def)

lemma wf_toGray: "wf_image img \<Longrightarrow> wf_image (toGray img)"
  by (simp add: toGray_map_pixels wf_image_mod4 wf_image_def)

subsection \<open>Properties of the point transforms\<close>

lemma gray_weights_le:
  "(a::real) \<le> 255 \<Longrightarrow> b \<le> 255 \<Longrightarrow> c \<le> 255 \<Longrightarrow> 0.299 * a + 0.587 * b + 0.114 * c \<le> 255"
  by simp

text \<open>C1: Grayscale is idempotent: converting an already gray image again changes
  nothing (spec section 8).  The weights sum to 1, so a gray pixel \<open>(v, v, v)\<close>
  maps to \<open>v\<close> exactly, and the store of an integer-valued Number is exact.\<close>

theorem toGray_idem: "wf_image img \<Longrightarrow> toGray (toGray img) = toGray img"
  by (simp add: toGray_map_pixels wf_image_mod4 map_pixels_comp comp_def gray_px_idem)

theorem toGray_idem_witness:
  "wf_image \<lparr>width = 1, height = 1, data = [200, 100, 50, 255]\<rparr> \<and> toGray (toGray \<lparr>width = 1, height = 1, data = [200, 100, 50, 255]\<rparr>) = toGray \<lparr>width = 1, height = 1, data = [200, 100, 50, 255]\<rparr>"
  using toGray_idem [of "\<lparr>width = 1, height = 1, data = [200, 100, 50, 255]\<rparr>"] by (simp add: wf_image_def)

text \<open>C2: Negative is an involution: applying it twice gives back the image,
  alpha included (spec section 8).\<close>

theorem negative_invol: "wf_image img \<Longrightarrow> negative (negative img) = img"
  by (simp add: negative_map_pixels wf_image_mod4 map_pixels_comp comp_def negative_px_invol
      map_pixels_ident)

theorem negative_invol_witness:
  "wf_image \<lparr>width = 1, height = 1, data = [200, 100, 50, 255]\<rparr> \<and> negative (negative \<lparr>width = 1, height = 1, data = [200, 100, 50, 255]\<rparr>) = \<lparr>width = 1, height = 1, data = [200, 100, 50, 255]\<rparr>"
  using negative_invol [of "\<lparr>width = 1, height = 1, data = [200, 100, 50, 255]\<rparr>"] by (simp add: wf_image_def)

text \<open>C15: toGray computes, for every pixel, the weighted sum
  \<open>0.299 R + 0.587 G + 0.114 B\<close> stored into all three colour samples, and leaves
  the alpha sample unchanged.\<close>

theorem toGray_pixel:
  assumes "wf_image img" and "k < width img * height img"
  shows "pix3 (data (toGray img)) k = gray_px (pix3 (data img) k)
         \<and> data (toGray img) ! (4 * k + 3) = data img ! (4 * k + 3)"
  using assms by (simp add: toGray_map_pixels wf_image_mod4 wf_pixel_count map_pixels_pix3
      map_pixels_alpha)

text \<open>C18: changeBrightness with an integer offset (what \<open>parseInt\<close> hands it)
  sets each colour sample to \<open>clamp(v + offset, 0, 255)\<close> exactly: the store
  of the clamped integer is exact.\<close>

theorem changeBrightness_int:
  assumes "wf_image img" and "k < width img * height img" and "c < 3"
  shows "uint (data (changeBrightness (of_int off) img) ! (4 * k + c))
         = max 0 (min 255 (uint (data img ! (4 * k + c)) + off))"
proof -
  have eq: "data (changeBrightness (of_int off) img) ! (4 * k + c)
        = u8_clamped (clamp (of_int (uint (data img ! (4 * k + c)) + off)))"
    using assms by (simp add: changeBrightness_map_pixels wf_image_mod4 wf_pixel_count
        map_pixels_nth comp3_offset_px nth_pix3 chan_uint)
  show ?thesis by (simp only: eq uint_u8_clamped_int)
qed

theorem toGray_pixel_witness:
  "wf_image \<lparr>width = 1, height = 1, data = [200, 100, 50, 255]\<rparr> \<and> 0 < width \<lparr>width = 1, height = 1, data = [200, 100, 50, 255]\<rparr> * height \<lparr>width = 1, height = 1, data = [200, 100, 50, 255]\<rparr>
   \<and> pix3 (data (toGray \<lparr>width = 1, height = 1, data = [200, 100, 50, 255]\<rparr>)) 0 = gray_px (pix3 (data \<lparr>width = 1, height = 1, data = [200, 100, 50, 255]\<rparr>) 0)
   \<and> data (toGray \<lparr>width = 1, height = 1, data = [200, 100, 50, 255]\<rparr>) ! 3 = data \<lparr>width = 1, height = 1, data = [200, 100, 50, 255]\<rparr> ! 3"
  using toGray_pixel [of "\<lparr>width = 1, height = 1, data = [200, 100, 50, 255]\<rparr>" 0] by (simp add: wf_image_def)

theorem changeBrightness_int_witness:
  "wf_image \<lparr>width = 1, height = 1, data = [200, 100, 50, 255]\<rparr> \<and> 0 < width \<lparr>width = 1, height = 1, data = [200, 100, 50, 255]\<rparr> * height \<lparr>width = 1, height = 1, data = [200, 100, 50, 255]\<rparr> \<and> (2::nat) < 3
   \<and> uint (data (changeBrightness (of_int (-60)) \<lparr>width = 1, height = 1, data = [200, 100, 50, 255]\<rparr>) ! 2)
     = max 0 (min 255 (uint (data \<lparr>width = 1, height = 1, data = [200, 100, 50, 255]\<rparr> ! 2) + (-60)))"
  using changeBrightness_int [of "\<lparr>width = 1, height = 1, data = [200, 100, 50, 255]\<rparr>" 0 2 "-60"]
  by (simp add: wf_image_def numeral_2_eq_2)

text \<open>C28: toBlackAndWhite sets each colour sample of a pixel to 255 when the average
  (R + G + B) / 3 of its samples reaches the threshold and to 0 otherwise, and leaves
  alpha unchanged.\<close>

theorem toBlackAndWhite_pixel:
  assumes "wf_image img" and "k < width img * height img" and "c < 3"
  shows "data (toBlackAndWhite t img) ! (4 * k + c) =
           (if t \<le> (real (unat (data img ! (4 * k))) + real (unat (data img ! (4 * k + 1)))
                    + real (unat (data img ! (4 * k + 2)))) / 3 then 255 else 0)
         \<and> data (toBlackAndWhite t img) ! (4 * k + 3) = data img ! (4 * k + 3)"
  using assms by (auto simp: toBlackAndWhite_map_pixels wf_image_mod4 wf_pixel_count map_pixels_nth
      map_pixels_alpha bw_px_def pix3_def chan_def Let_def)

theorem toBlackAndWhite_pixel_witness:
  "wf_image \<lparr>width = 1, height = 1, data = [200, 100, 50, 255]\<rparr> \<and> 0 < width \<lparr>width = 1, height = 1, data = [200, 100, 50, 255]\<rparr> * height \<lparr>width = 1, height = 1, data = [200, 100, 50, 255]\<rparr> \<and> (0::nat) < 3
   \<and> data (toBlackAndWhite 100 \<lparr>width = 1, height = 1, data = [200, 100, 50, 255]\<rparr>) ! (4 * 0 + 0) =
       (if 100 \<le> (real (unat (data \<lparr>width = 1, height = 1, data = [200, 100, 50, 255]\<rparr> ! (4 * 0))) + real (unat (data \<lparr>width = 1, height = 1, data = [200, 100, 50, 255]\<rparr> ! (4 * 0 + 1)))
                 + real (unat (data \<lparr>width = 1, height = 1, data = [200, 100, 50, 255]\<rparr> ! (4 * 0 + 2)))) / 3 then 255 else 0)
   \<and> data (toBlackAndWhite 100 \<lparr>width = 1, height = 1, data = [200, 100, 50, 255]\<rparr>) ! (4 * 0 + 3) = data \<lparr>width = 1, height = 1, data = [200, 100, 50, 255]\<rparr> ! (4 * 0 + 3)"
proof -
  have h: "wf_image \<lparr>width = 1, height = 1, data = [200, 100, 50, 255]\<rparr>" "0 < width \<lparr>width = 1, height = 1, data = [200, 100, 50, 255]\<rparr> * height \<lparr>width = 1, height = 1, data = [200, 100, 50, 255]\<rparr>" "(0::nat) < 3" by (simp_all add: wf_image_def)
  show ?thesis by (rule conjI [OF h(1) conjI [OF h(2) conjI [OF h(3) toBlackAndWhite_pixel [OF h]]]])
qed

text \<open>C29: The gray value toGray stores is the weighted sum 0.299 R + 0.587 G + 0.114 B
  rounded to nearest: it is at most 1/2 away (the Uint8ClampedArray store rounds; a
  truncation, as the spec describes, can be almost 1 away).\<close>

theorem toGray_nearest:
  assumes "wf_image img" and "k < width img * height img" and "c < 3"
  shows "\<bar>real (unat (data (toGray img) ! (4 * k + c)))
          - (0.299 * real (unat (data img ! (4 * k))) + 0.587 * real (unat (data img ! (4 * k + 1)))
             + 0.114 * real (unat (data img ! (4 * k + 2))))\<bar> \<le> 1 / 2"
proof -
  let ?x = "0.299 * real (unat (data img ! (4 * k))) + 0.587 * real (unat (data img ! (4 * k + 1)))
             + 0.114 * real (unat (data img ! (4 * k + 2)))"
  have e: "data (toGray img) ! (4 * k + c) = u8_clamped ?x"
    using assms by (auto simp: toGray_map_pixels wf_image_mod4 wf_pixel_count map_pixels_nth
      gray_px_def pix3_def chan_def Let_def)
  have b: "real (unat v) \<le> 255" for v :: u8
  proof -
    have "unat v \<le> 255" by (rule unat_le_255)
    then have "real (unat v) \<le> real (255::nat)" by (rule of_nat_mono)
    then show ?thesis by (simp only: of_nat_numeral)
  qed
  have "0 \<le> ?x" by (intro add_nonneg_nonneg mult_nonneg_nonneg of_nat_0_le_iff) simp_all
  moreover have "?x \<le> 255"
    by (rule gray_weights_le [OF b b b])
  ultimately
  show ?thesis unfolding e by (rule u8_clamped_near)
qed

theorem toGray_nearest_witness:
  "wf_image \<lparr>width = 1, height = 1, data = [200, 100, 50, 255]\<rparr> \<and> 0 < width \<lparr>width = 1, height = 1, data = [200, 100, 50, 255]\<rparr> * height \<lparr>width = 1, height = 1, data = [200, 100, 50, 255]\<rparr> \<and> (0::nat) < 3
   \<and> \<bar>real (unat (data (toGray \<lparr>width = 1, height = 1, data = [200, 100, 50, 255]\<rparr>) ! (4 * 0 + 0)))
        - (0.299 * real (unat (data \<lparr>width = 1, height = 1, data = [200, 100, 50, 255]\<rparr> ! (4 * 0))) + 0.587 * real (unat (data \<lparr>width = 1, height = 1, data = [200, 100, 50, 255]\<rparr> ! (4 * 0 + 1)))
           + 0.114 * real (unat (data \<lparr>width = 1, height = 1, data = [200, 100, 50, 255]\<rparr> ! (4 * 0 + 2))))\<bar> \<le> 1 / 2"
proof -
  have h: "wf_image \<lparr>width = 1, height = 1, data = [200, 100, 50, 255]\<rparr>" "0 < width \<lparr>width = 1, height = 1, data = [200, 100, 50, 255]\<rparr> * height \<lparr>width = 1, height = 1, data = [200, 100, 50, 255]\<rparr>" "(0::nat) < 3" by (simp_all add: wf_image_def)
  show ?thesis by (rule conjI [OF h(1) conjI [OF h(2) conjI [OF h(3) toGray_nearest [OF h]]]])
qed

end
