(* ===== verification/Geometric.thy ===== *)
theory Geometric
  imports Buffer
begin

text \<open>
  The geometric engine, \<open>src/script.js\<close> lines 152-291: \<open>rotate90\<close>,
  \<open>flip\<close>, \<open>scaleNearest\<close>, \<open>scaleBilinear\<close> and \<open>scaleAny\<close>.  Each
  allocates a fresh \<open>ImageData\<close> with \<open>createImageData\<close> (all samples 0) and
  fills it in the nested loop \<open>for y, for x\<close> (\<^const>\<open>for_grid\<close>) with the
  source's loop body: the index arithmetic of the code, three colour samples copied
  or interpolated and the alpha sample set to 255.  Scaling sizes the destination
  with \<open>Math.round\<close> and raises \<open>IndexSizeError\<close> (from \<open>createImageData\<close>)
  when a dimension rounds to 0; reads outside the source array are \<open>undefined\<close>
  and store 0.

  The lemmas give each destination pixel as a function of a source pixel
  (\<open>rotate90_px\<close>, \<open>flip_px\<close>), from which the algebraic properties follow:
  four quarter turns, or two flips, give back the image with opaque alpha.
\<close>

subsection \<open>Rotation and flip\<close>

text \<open>Loop body of \<open>rotate90(isCW)\<close> (lines 164-176).\<close>

definition rotate_body ::
  "bool \<Rightarrow> u8 list \<Rightarrow> nat \<Rightarrow> nat \<Rightarrow> nat \<Rightarrow> nat \<Rightarrow> u8 list \<Rightarrow> u8 list" where
  "rotate_body isCW src sw sh x y dst =
     (let srcIndex = (y * sw + x) * 4;
          dx = (if isCW then sh - 1 - y else y);
          dy = (if isCW then x else sw - 1 - x);
          dstIndex = (dy * sh + dx) * 4
      in dst[dstIndex := src ! srcIndex, dstIndex + 1 := src ! (srcIndex + 1),
             dstIndex + 2 := src ! (srcIndex + 2), dstIndex + 3 := 255])"

text \<open>\<open>rotate90(isCW)\<close> (lines 155-182): the destination has the dimensions swapped.\<close>

definition rotate90 :: "bool \<Rightarrow> image \<Rightarrow> image" where
  "rotate90 isCW srcData =
     (let sw = width srcData; sh = height srcData;
          dstImageData = createImageData sh sw
      in dstImageData\<lparr>data := for_grid sh sw (rotate_body isCW (data srcData) sw sh)
                                        (data dstImageData)\<rparr>)"

text \<open>Loop body of \<open>flip(horizontal)\<close> (lines 193-203).\<close>

definition flip_body ::
  "bool \<Rightarrow> u8 list \<Rightarrow> nat \<Rightarrow> nat \<Rightarrow> nat \<Rightarrow> nat \<Rightarrow> u8 list \<Rightarrow> u8 list" where
  "flip_body horizontal src w h x y dst =
     (let srcIndex = (y * w + x) * 4;
          newX = (if horizontal then w - 1 - x else x);
          newY = (if horizontal then y else h - 1 - y);
          dstIndex = (newY * w + newX) * 4
      in dst[dstIndex := src ! srcIndex, dstIndex + 1 := src ! (srcIndex + 1),
             dstIndex + 2 := src ! (srcIndex + 2), dstIndex + 3 := 255])"

text \<open>\<open>flip(horizontal)\<close> (lines 185-207).\<close>

definition flip :: "bool \<Rightarrow> image \<Rightarrow> image" where
  "flip horizontal srcData =
     (let w = width srcData; h = height srcData;
          dstImageData = createImageData w h
      in dstImageData\<lparr>data := for_grid h w (flip_body horizontal (data srcData) w h)
                                        (data dstImageData)\<rparr>)"

subsection \<open>Scaling\<close>

text \<open>Loop body of \<open>scaleNearest(factor)\<close> (lines 223-234).  \<open>src[srcIndex]\<close> is
  read with \<^const>\<open>js_get\<close> (undefined past the end) and stored with
  \<^const>\<open>store\<close>.\<close>

definition nearest_body ::
  "real \<Rightarrow> u8 list \<Rightarrow> nat \<Rightarrow> nat \<Rightarrow> nat \<Rightarrow> nat \<Rightarrow> u8 list \<Rightarrow> u8 list" where
  "nearest_body factor src w dstW x y dst =
     (let srcX = \<lfloor>real x / factor\<rfloor>; srcY = \<lfloor>real y / factor\<rfloor>;
          srcIndex = (srcY * int w + srcX) * 4;
          dstIndex = (y * dstW + x) * 4
      in dst[dstIndex := store (js_get src srcIndex),
             dstIndex + 1 := store (js_get src (srcIndex + 1)),
             dstIndex + 2 := store (js_get src (srcIndex + 2)), dstIndex + 3 := 255])"

text \<open>\<open>scaleNearest(factor)\<close> (lines 212-239).  \<open>createImageData\<close> raises
  \<open>IndexSizeError\<close> for a zero dimension and otherwise allocates the absolute
  magnitudes; a negative dimension makes the loops run zero times.\<close>

definition scaleNearest :: "real \<Rightarrow> image \<Rightarrow> js_error + image" where
  "scaleNearest factor srcData =
     (let w = width srcData; h = height srcData;
          dstW = js_round (real w * factor); dstH = js_round (real h * factor)
      in if dstW = 0 \<or> dstH = 0 then Inl IndexSizeError
         else let dstImageData = createImageData (nat \<bar>dstW\<bar>) (nat \<bar>dstH\<bar>)
              in Inr (dstImageData\<lparr>data := for_grid (nat dstH) (nat dstW)
                        (nearest_body factor (data srcData) w (nat dstW)) (data dstImageData)\<rparr>))"

text \<open>The per-channel interpolation of \<open>scaleBilinear\<close> (lines 273-278), before the
  clamp: NaN when a corner is read past the end of the source.\<close>

definition bilinear_chan ::
  "u8 list \<Rightarrow> int \<Rightarrow> int \<Rightarrow> int \<Rightarrow> int \<Rightarrow> real \<Rightarrow> real \<Rightarrow> int \<Rightarrow> jsnum" where
  "bilinear_chan src i1 i2 i3 i4 fracX fracY c =
     (let c1 = nan2 (+) (nan2 (*) (js_get src (i1 + c)) (Some (1 - fracX)))
                        (nan2 (*) (js_get src (i2 + c)) (Some fracX));
          c2 = nan2 (+) (nan2 (*) (js_get src (i3 + c)) (Some (1 - fracX)))
                        (nan2 (*) (js_get src (i4 + c)) (Some fracX))
      in nan2 (+) (nan2 (*) c1 (Some (1 - fracY))) (nan2 (*) c2 (Some fracY)))"

text \<open>Loop body of \<open>scaleBilinear(factor)\<close> (lines 254-280).\<close>

definition bilinear_body ::
  "real \<Rightarrow> u8 list \<Rightarrow> nat \<Rightarrow> nat \<Rightarrow> nat \<Rightarrow> nat \<Rightarrow> nat \<Rightarrow> u8 list \<Rightarrow> u8 list" where
  "bilinear_body factor src w h dstW x y dst =
     (let gx = real x / factor; gy = real y / factor;
          x1 = \<lfloor>gx\<rfloor>; y1 = \<lfloor>gy\<rfloor>;
          x2 = (if int w \<le> x1 + 1 then int w - 1 else x1 + 1);
          y2 = (if int h \<le> y1 + 1 then int h - 1 else y1 + 1);
          fracX = gx - of_int x1; fracY = gy - of_int y1;
          i1 = (y1 * int w + x1) * 4; i2 = (y1 * int w + x2) * 4;
          i3 = (y2 * int w + x1) * 4; i4 = (y2 * int w + x2) * 4;
          di = (y * dstW + x) * 4
      in (fold (\<lambda>c d. d[di + c := store (map_option clamp
                (bilinear_chan src i1 i2 i3 i4 fracX fracY (int c)))]) [0..<3] dst)[di + 3 := 255])"

text \<open>\<open>scaleBilinear(factor)\<close> (lines 242-286), sized as \<open>scaleNearest\<close>.\<close>

definition scaleBilinear :: "real \<Rightarrow> image \<Rightarrow> js_error + image" where
  "scaleBilinear factor srcData =
     (let w = width srcData; h = height srcData;
          dstW = js_round (real w * factor); dstH = js_round (real h * factor)
      in if dstW = 0 \<or> dstH = 0 then Inl IndexSizeError
         else let dstImageData = createImageData (nat \<bar>dstW\<bar>) (nat \<bar>dstH\<bar>)
              in Inr (dstImageData\<lparr>data := for_grid (nat dstH) (nat dstW)
                        (bilinear_body factor (data srcData) w h (nat dstW)) (data dstImageData)\<rparr>))"

text \<open>\<open>scaleAny(factor)\<close> (lines 289-291).\<close>

definition scaleAny :: "real \<Rightarrow> image \<Rightarrow> js_error + image" where
  "scaleAny factor img = scaleBilinear factor img"

subsection \<open>Lemmas: rotation and flip\<close>

text \<open>The copied pixel of a source pixel.\<close>

lemma rotate_body_write:
  "rotate_body isCW src sw sh x y dst =
     write_px (if isCW then x * sh + (sh - 1 - y) else (sw - 1 - x) * sh + y)
       (src ! (4 * (y * sw + x)), src ! (4 * (y * sw + x) + 1), src ! (4 * (y * sw + x) + 2), 255) dst"
  by (simp add: rotate_body_def write_px_def Let_def algebra_simps)

lemma flip_body_write:
  "flip_body horizontal src w h x y dst =
     write_px (if horizontal then y * w + (w - 1 - x) else (h - 1 - y) * w + x)
       (src ! (4 * (y * w + x)), src ! (4 * (y * w + x) + 1), src ! (4 * (y * w + x) + 2), 255) dst"
  by (simp add: flip_body_def write_px_def Let_def algebra_simps)

lemma rotate_inj:
  "inj_on (\<lambda>(x, y). if isCW then x * sh + (sh - 1 - y) else (sw - 1 - x) * sh + y)
          {(x, y). x < sw \<and> y < (sh::nat)}"
proof (rule inj_onI)
  fix p q
  assume p: "p \<in> {(x, y). x < sw \<and> y < sh}" and q: "q \<in> {(x, y). x < sw \<and> y < sh}"
    and eq: "(\<lambda>(x, y). if isCW then x * sh + (sh - 1 - y) else (sw - 1 - x) * sh + y) p
           = (\<lambda>(x, y). if isCW then x * sh + (sh - 1 - y) else (sw - 1 - x) * sh + y) q"
  obtain x y x' y' where pq: "p = (x, y)" "q = (x', y')" by (cases p, cases q) auto
  from p q pq have b: "x < sw" "y < sh" "x' < sw" "y' < sh" by auto
  show "p = q"
  proof (cases isCW)
    case True
    with eq pq have "x * sh + (sh - 1 - y) = x' * sh + (sh - 1 - y')" by simp
    with b have "x = x' \<and> sh - 1 - y = sh - 1 - y'" by (intro pix_index_inj) auto
    with b pq show ?thesis by auto
  next
    case False
    with eq pq have "(sw - 1 - x) * sh + y = (sw - 1 - x') * sh + y'" by simp
    with b have "sw - 1 - x = sw - 1 - x' \<and> y = y'" by (intro pix_index_inj) auto
    with b pq show ?thesis by auto
  qed
qed

lemma flip_inj:
  "inj_on (\<lambda>(x, y). if horizontal then y * w + (w - 1 - x) else (h - 1 - y) * w + x)
          {(x, y). x < w \<and> y < (h::nat)}"
proof (rule inj_onI)
  fix p q
  assume p: "p \<in> {(x, y). x < w \<and> y < h}" and q: "q \<in> {(x, y). x < w \<and> y < h}"
    and eq: "(\<lambda>(x, y). if horizontal then y * w + (w - 1 - x) else (h - 1 - y) * w + x) p
           = (\<lambda>(x, y). if horizontal then y * w + (w - 1 - x) else (h - 1 - y) * w + x) q"
  obtain x y x' y' where pq: "p = (x, y)" "q = (x', y')" by (cases p, cases q) auto
  from p q pq have b: "x < w" "y < h" "x' < w" "y' < h" by auto
  show "p = q"
  proof (cases horizontal)
    case True
    with eq pq have "y * w + (w - 1 - x) = y' * w + (w - 1 - x')" by simp
    with b have "y = y' \<and> w - 1 - x = w - 1 - x'" by (intro pix_index_inj) auto
    with b pq show ?thesis by auto
  next
    case False
    with eq pq have "(h - 1 - y) * w + x = (h - 1 - y') * w + x'" by simp
    with b have "h - 1 - y = h - 1 - y' \<and> x = x'" by (intro pix_index_inj) auto
    with b pq show ?thesis by auto
  qed
qed

text \<open>The shape shared by both copy loops: pixel \<open>(x, y)\<close> of the source is copied
  to destination pixel \<open>f x y\<close> with alpha 255.  When \<open>f\<close> is injective on the
  grid, the destination pixel \<open>f x y\<close> holds the source pixel.\<close>

lemma for_grid_copy:
  assumes body: "\<And>x y d. x < w \<Longrightarrow> y < h \<Longrightarrow> body x y d = write_px (f x y)
      (src ! (4 * (y * w + x)), src ! (4 * (y * w + x) + 1), src ! (4 * (y * w + x) + 2), 255) d"
    and inj: "inj_on (\<lambda>(x, y). f x y) {(x, y). x < w \<and> y < h}"
    and bound: "\<And>x y. x < w \<Longrightarrow> y < h \<Longrightarrow> 4 * f x y + 3 < length d"
    and "x < w" and "y < h" and "c < 4"
  shows "for_grid h w body d ! (4 * f x y + c)
         = (if c = 3 then 255 else src ! (4 * (y * w + x) + c))"
proof -
  have "for_grid h w body d ! (4 * f x y + c)
        = comp4 (src ! (4 * (y * w + x)), src ! (4 * (y * w + x) + 1),
                 src ! (4 * (y * w + x) + 2), 255) c"
    using body inj bound assms(4-6) by (rule for_grid_scatter)
  then show ?thesis by (simp only: comp4_src [OF assms(6)])
qed

lemma rotate_bound:
  fixes x y sw sh :: nat
  assumes "x < sw" and "y < sh"
  shows "4 * (if isCW then x * sh + (sh - 1 - y) else (sw - 1 - x) * sh + y) + 3 < 4 * sh * sw"
proof (cases isCW)
  case True
  have "sh - 1 - y < sh" using assms(2) by arith
  from px_index_bound [OF this assms(1), of 3] True show ?thesis by simp
next
  case False
  have "sw - 1 - x < sw" using assms(1) by arith
  from px_index_bound [OF assms(2) this, of 3] False show ?thesis by simp
qed

lemma flip_bound:
  fixes x y w h :: nat
  assumes "x < w" and "y < h"
  shows "4 * (if horizontal then y * w + (w - 1 - x) else (h - 1 - y) * w + x) + 3 < 4 * w * h"
proof (cases horizontal)
  case True
  have "w - 1 - x < w" using assms(1) by arith
  from px_index_bound [OF this assms(2), of 3] True show ?thesis by simp
next
  case False
  have "h - 1 - y < h" using assms(2) by arith
  from px_index_bound [OF assms(1) this, of 3] False show ?thesis by simp
qed

lemma rotate90_sel [simp]:
  "width (rotate90 isCW img) = height img"
  "height (rotate90 isCW img) = width img"
  by (simp_all add: rotate90_def Let_def)

lemma wf_rotate90 [simp]: "wf_image (rotate90 isCW img)"
  by (simp add: rotate90_def Let_def wf_image_def length_for_grid_write [OF rotate_body_write]
      mult.commute)

lemma flip_sel [simp]:
  "width (flip horizontal img) = width img"
  "height (flip horizontal img) = height img"
  by (simp_all add: flip_def Let_def)

lemma wf_flip [simp]: "wf_image (flip horizontal img)"
  by (simp add: flip_def Let_def wf_image_def length_for_grid_write [OF flip_body_write])

text \<open>Each destination pixel of a quarter turn, as a source pixel: clockwise
  \<open>dst(X, Y) = src(Y, sh-1-X)\<close>, counter-clockwise \<open>dst(X, Y) = src(sw-1-Y, X)\<close>.\<close>

lemma rotate90_px:
  assumes "X < height img" and "Y < width img" and "c < 4"
  shows "px (rotate90 isCW img) X Y c =
         (if c = 3 then 255
          else if isCW then px img Y (height img - 1 - X) c
          else px img (width img - 1 - Y) X c)"
proof -
  let ?sw = "width img" and ?sh = "height img"
  let ?f = "\<lambda>x y. if isCW then x * ?sh + (?sh - 1 - y) else (?sw - 1 - x) * ?sh + y"
  let ?d = "data (createImageData ?sh ?sw)"
  have copy: "\<And>x y. x < ?sw \<Longrightarrow> y < ?sh \<Longrightarrow>
      for_grid ?sh ?sw (rotate_body isCW (data img) ?sw ?sh) ?d ! (4 * ?f x y + c)
      = (if c = 3 then 255 else data img ! (4 * (y * ?sw + x) + c))"
    using rotate_inj rotate_bound assms(3)
    by (intro for_grid_copy [where f = ?f]) (simp_all add: rotate_body_write)
  show ?thesis
  proof (cases isCW)
    case True
    have "?f Y (?sh - 1 - X) = Y * ?sh + X" using True assms(1) by simp
    with copy [of Y "?sh - 1 - X"] True assms show ?thesis
      by (simp add: px_def rotate90_def Let_def)
  next
    case False
    have "?f (?sw - 1 - Y) X = Y * ?sh + X" using False assms(2) by simp
    with copy [of "?sw - 1 - Y" X] False assms show ?thesis
      by (simp add: px_def rotate90_def Let_def)
  qed
qed

text \<open>Each destination pixel of a flip: horizontally \<open>dst(X, Y) = src(w-1-X, Y)\<close>,
  vertically \<open>dst(X, Y) = src(X, h-1-Y)\<close>.\<close>

lemma flip_px:
  assumes "X < width img" and "Y < height img" and "c < 4"
  shows "px (flip horizontal img) X Y c =
         (if c = 3 then 255
          else if horizontal then px img (width img - 1 - X) Y c
          else px img X (height img - 1 - Y) c)"
proof -
  let ?w = "width img" and ?h = "height img"
  let ?f = "\<lambda>x y. if horizontal then y * ?w + (?w - 1 - x) else (?h - 1 - y) * ?w + x"
  let ?d = "data (createImageData ?w ?h)"
  have copy: "\<And>x y. x < ?w \<Longrightarrow> y < ?h \<Longrightarrow>
      for_grid ?h ?w (flip_body horizontal (data img) ?w ?h) ?d ! (4 * ?f x y + c)
      = (if c = 3 then 255 else data img ! (4 * (y * ?w + x) + c))"
    using flip_inj flip_bound assms(3)
    by (intro for_grid_copy [where f = ?f]) (simp_all add: flip_body_write)
  show ?thesis
  proof (cases horizontal)
    case True
    have "?f (?w - 1 - X) Y = Y * ?w + X" using True assms(1) by simp
    with copy [of "?w - 1 - X" Y] True assms show ?thesis
      by (simp add: px_def flip_def Let_def)
  next
    case False
    have "?f X (?h - 1 - Y) = Y * ?w + X" using False assms(2) by simp
    with copy [of X "?h - 1 - Y"] False assms show ?thesis
      by (simp add: px_def flip_def Let_def)
  qed
qed

subsection \<open>Lemmas: scaling\<close>



lemma js_round_nat [simp]: "js_round (real n) = int n"
  by (simp add: js_round_def floor_eq_iff)

lemma floor_div_nonneg: "0 < f \<Longrightarrow> 0 \<le> \<lfloor>real x / f\<rfloor>"
  by simp

lemma nearest_src_lt:
  assumes "0 < f" and "int x < js_round (real w * f)"
  shows "\<lfloor>real x / f\<rfloor> < int w"
proof -
  have "int x + 1 \<le> \<lfloor>real w * f + 1/2\<rfloor>" using assms(2) by (simp add: js_round_def)
  then have "real x + 1 \<le> real w * f + 1/2" by (simp add: le_floor_iff)
  then have "real x < real w * f" by simp
  then have "real x / f < real w" using assms(1) by (simp add: divide_less_eq)
  then show ?thesis by (simp add: floor_less_iff)
qed

lemma fold_write3:
  "(fold (\<lambda>c d. d[4 * k + c := g c]) [0..<3] d)[4 * k + 3 := a] = write_px k (g 0, g 1, g 2, a) d"
  by (simp add: write_px_def upt_rec numeral_2_eq_2)


lemma js_round_nonneg: "0 \<le> x \<Longrightarrow> 0 \<le> js_round x"
  by (simp add: js_round_def)

lemma js_round_nonpos: "x \<le> 0 \<Longrightarrow> js_round x \<le> 0"
  by (simp add: js_round_def floor_le_iff)

lemma scaleNearest_Inr:
  assumes "0 < factor" and "scaleNearest factor img = Inr dst"
  shows "0 < js_round (real (width img) * factor) \<and> 0 < js_round (real (height img) * factor)
         \<and> width dst = nat (js_round (real (width img) * factor))
         \<and> height dst = nat (js_round (real (height img) * factor))
         \<and> data dst = for_grid (height dst) (width dst)
               (nearest_body factor (data img) (width img) (width dst))
               (replicate (4 * width dst * height dst) 0)"
proof -
  have "0 \<le> js_round (real (width img) * factor)" "0 \<le> js_round (real (height img) * factor)"
    using assms(1) by (simp_all add: js_round_nonneg)
  with assms show ?thesis
    by (auto simp: scaleNearest_def Let_def createImageData_def split: if_splits)
qed

lemma nearest_body_write:
  assumes "0 < factor" and "length src = 4 * w * h"
    and "int x < js_round (real w * factor)" and "int y < js_round (real h * factor)"
  shows "nearest_body factor src w dW x y d =
         write_px (y * dW + x)
           (src ! (4 * (nat \<lfloor>real y / factor\<rfloor> * w + nat \<lfloor>real x / factor\<rfloor>)),
            src ! (4 * (nat \<lfloor>real y / factor\<rfloor> * w + nat \<lfloor>real x / factor\<rfloor>) + 1),
            src ! (4 * (nat \<lfloor>real y / factor\<rfloor> * w + nat \<lfloor>real x / factor\<rfloor>) + 2), 255) d"
proof -
  let ?a = "\<lfloor>real y / factor\<rfloor>" and ?b = "\<lfloor>real x / factor\<rfloor>"
  have ab: "0 \<le> ?a" "?a < int h" "0 \<le> ?b" "?b < int w"
    using assms nearest_src_lt [of factor y h] nearest_src_lt [of factor x w] by simp_all
  have g: "\<And>c. c < 4 \<Longrightarrow> js_get src ((?a * int w + ?b) * 4 + int c)
                           = Some (rd src (4 * (nat ?a * w + nat ?b) + c))"
    using assms(2) ab by (intro js_get_px) simp_all
  have g0: "js_get src ((?a * int w + ?b) * 4) = Some (rd src (4 * (nat ?a * w + nat ?b)))"
    and g1: "js_get src ((?a * int w + ?b) * 4 + 1) = Some (rd src (4 * (nat ?a * w + nat ?b) + 1))"
    and g2: "js_get src ((?a * int w + ?b) * 4 + 2) = Some (rd src (4 * (nat ?a * w + nat ?b) + 2))"
    using g [of 0] g [of 1] g [of 2] by simp_all
  show ?thesis
    unfolding nearest_body_def Let_def g0 g1 g2 store_rd
    by (simp add: write_px_def mult.commute)
qed

lemma nearest_px:
  assumes "wf_image img" and "0 < factor" and "scaleNearest factor img = Inr dst"
    and "x < width dst" and "y < height dst" and "c < 4"
  shows "px dst x y c = (if c = 3 then 255
           else px img (nat \<lfloor>real x / factor\<rfloor>) (nat \<lfloor>real y / factor\<rfloor>) c)"
proof -
  note D = scaleNearest_Inr [OF assms(2,3)]
  let ?W = "width dst" and ?H = "height dst" and ?w = "width img"
  let ?s = "\<lambda>x y. 4 * (nat \<lfloor>real y / factor\<rfloor> * ?w + nat \<lfloor>real x / factor\<rfloor>)"
  have body: "\<And>x y d. x < ?W \<Longrightarrow> y < ?H \<Longrightarrow>
      nearest_body factor (data img) ?w ?W x y d
      = write_px (y * ?W + x) (data img ! ?s x y, data img ! (?s x y + 1), data img ! (?s x y + 2), 255) d"
    using D assms(1,2) by (intro nearest_body_write [where h = "height img"]) (simp_all add: wf_image_def)
  have "for_grid ?H ?W (nearest_body factor (data img) ?w ?W) (replicate (4 * ?W * ?H) 0) ! (4 * (y * ?W + x) + c)
        = comp4 (data img ! ?s x y, data img ! (?s x y + 1), data img ! (?s x y + 2), 255) c"
    using body row_major_inj row_major_bound assms(4-6) by (rule for_grid_scatter)
  also have "\<dots> = (if c = 3 then 255 else data img ! (?s x y + c))"
    by (simp only: comp4_src [OF assms(6)])
  finally show ?thesis using D by (simp add: px_def)
qed


lemma clamp_rd [simp]: "clamp (rd d i) = rd d i"
proof -
  have "real (unat (d ! i)) \<le> 255"
    using unat_le_255 [of "d ! i"] by (metis of_nat_le_iff of_nat_numeral)
  moreover have "0 \<le> real (unat (d ! i))" by (rule of_nat_0_le_iff)
  ultimately show ?thesis unfolding rd_def by (rule clamp_id [rotated])
qed

lemma store_clamp_rd [simp]: "store (map_option clamp (Some (rd d i))) = d ! i"
  unfolding option.map clamp_rd by (rule store_rd)

lemma bilinear_chan_exact:
  "js_get src (i1 + c) = Some v \<Longrightarrow> js_get src (i2 + c) = Some v2 \<Longrightarrow>
   js_get src (i3 + c) = Some v3 \<Longrightarrow> js_get src (i4 + c) = Some v4 \<Longrightarrow>
   bilinear_chan src i1 i2 i3 i4 0 0 c = Some v"
  by (simp add: bilinear_chan_def Let_def)

lemma bilinear_body_one:
  assumes "length src = 4 * w * h" and "x < w" and "y < h"
  shows "bilinear_body 1 src w h W x y d =
         write_px (y * W + x) (src ! (4 * (y * w + x)), src ! (4 * (y * w + x) + 1),
                               src ! (4 * (y * w + x) + 2), 255) d"
proof -
  define x2 where "x2 = (if int w \<le> int x + 1 then int w - 1 else int x + 1)"
  define y2 where "y2 = (if int h \<le> int y + 1 then int h - 1 else int y + 1)"
  have r: "0 \<le> x2" "x2 < int w" "0 \<le> y2" "y2 < int h" using assms(2,3) by (auto simp: x2_def y2_def)
  have G: "\<And>a b c. 0 \<le> a \<Longrightarrow> a < int h \<Longrightarrow> 0 \<le> b \<Longrightarrow> b < int w \<Longrightarrow> c < 4 \<Longrightarrow>
      js_get src ((a * int w + b) * 4 + int c) = Some (rd src (4 * (nat a * w + nat b) + c))"
    using assms(1) by (rule js_get_px)
  have chan: "\<And>c. c < 3 \<Longrightarrow>
      bilinear_chan src ((int y * int w + int x) * 4) ((int y * int w + x2) * 4)
        ((y2 * int w + int x) * 4) ((y2 * int w + x2) * 4) 0 0 (int c)
      = Some (rd src (4 * (y * w + x) + c))"
  proof -
    fix c :: nat assume "c < 3"
    then have c: "c < 4" by simp
    show "?thesis c"
      by (rule bilinear_chan_exact) (use G [OF _ _ _ _ c] r assms(2,3) in auto)
  qed
  have fl: "\<lfloor>real x / 1\<rfloor> = int x" "\<lfloor>real y / 1\<rfloor> = int y" by simp_all
  have fr: "real x / 1 - real_of_int (int x) = 0" "real y / 1 - real_of_int (int y) = 0" by simp_all
  have k: "(y * W + x) * 4 = 4 * (y * W + x)" by simp
  show ?thesis
    unfolding bilinear_body_def Let_def fl fr x2_def [symmetric] y2_def [symmetric] k fold_write3
    using chan [of 0] chan [of 1] chan [of 2] by (simp del: store_Some)
qed


lemma scaleBilinear_Inr:
  assumes "0 < factor" and "scaleBilinear factor img = Inr dst"
  shows "0 < js_round (real (width img) * factor) \<and> 0 < js_round (real (height img) * factor)
         \<and> width dst = nat (js_round (real (width img) * factor))
         \<and> height dst = nat (js_round (real (height img) * factor))
         \<and> data dst = for_grid (height dst) (width dst)
               (bilinear_body factor (data img) (width img) (height img) (width dst))
               (replicate (4 * width dst * height dst) 0)"
proof -
  have "0 \<le> js_round (real (width img) * factor)" "0 \<le> js_round (real (height img) * factor)"
    using assms(1) by (simp_all add: js_round_nonneg)
  with assms show ?thesis
    by (auto simp: scaleBilinear_def Let_def createImageData_def split: if_splits)
qed

lemma wf_scaleNearest:
  assumes "wf_image img" and "0 < factor" and "scaleNearest factor img = Inr dst"
  shows "wf_image dst"
proof -
  note D = scaleNearest_Inr [OF assms(2,3)]
  have "length (data dst) = length (replicate (4 * width dst * height dst) (0::u8))"
    using D assms(1,2) unfolding wf_image_def
    by (simp only: D) (rule length_for_grid_write, rule nearest_body_write [where h = "height img"], simp_all)
  then show ?thesis by (simp add: wf_image_def)
qed

subsection \<open>Properties of rotation and flip\<close>

text \<open>C9: Four quarter turns in the same direction give back the image, except
  that every alpha sample is now 255 (spec section 8).\<close>

theorem rotate90_four:
  assumes "wf_image img"
  shows "rotate90 isCW (rotate90 isCW (rotate90 isCW (rotate90 isCW img))) = opaque img"
proof (rule image_eqI_px)
  fix x y c :: nat
  assume b: "x < width (rotate90 isCW (rotate90 isCW (rotate90 isCW (rotate90 isCW img))))"
    "y < height (rotate90 isCW (rotate90 isCW (rotate90 isCW (rotate90 isCW img))))" "c < 4"
  then have "x < width img" "y < height img" by simp_all
  with b(3) assms show "px (rotate90 isCW (rotate90 isCW (rotate90 isCW (rotate90 isCW img)))) x y c
        = px (opaque img) x y c"
    by (cases isCW) (simp_all add: rotate90_px px_opaque)
qed (use assms in simp_all)

theorem rotate90_four_witness:
  "wf_image \<lparr>width = 2, height = 1, data = [10, 20, 30, 40, 50, 60, 70, 80]\<rparr> \<and>
   rotate90 True (rotate90 True (rotate90 True (rotate90 True \<lparr>width = 2, height = 1, data = [10, 20, 30, 40, 50, 60, 70, 80]\<rparr>))) = opaque \<lparr>width = 2, height = 1, data = [10, 20, 30, 40, 50, 60, 70, 80]\<rparr>"
  using rotate90_four [of "\<lparr>width = 2, height = 1, data = [10, 20, 30, 40, 50, 60, 70, 80]\<rparr>" True] by (simp add: wf_image_def)

text \<open>C19: A clockwise quarter turn followed by a counter-clockwise one gives back the
  image with opaque alpha.\<close>

theorem rotate90_cw_ccw:
  assumes "wf_image img"
  shows "rotate90 False (rotate90 True img) = opaque img"
proof (rule image_eqI_px)
  fix x y c :: nat
  assume b: "x < width (rotate90 False (rotate90 True img))"
    "y < height (rotate90 False (rotate90 True img))" "c < 4"
  then have "x < width img" "y < height img" by simp_all
  with b(3) assms show "px (rotate90 False (rotate90 True img)) x y c = px (opaque img) x y c"
    by (simp add: rotate90_px px_opaque)
qed (use assms in simp_all)

theorem rotate90_cw_ccw_witness:
  "wf_image \<lparr>width = 2, height = 1, data = [10, 20, 30, 40, 50, 60, 70, 80]\<rparr> \<and> rotate90 False (rotate90 True \<lparr>width = 2, height = 1, data = [10, 20, 30, 40, 50, 60, 70, 80]\<rparr>) = opaque \<lparr>width = 2, height = 1, data = [10, 20, 30, 40, 50, 60, 70, 80]\<rparr>"
  using rotate90_cw_ccw [of "\<lparr>width = 2, height = 1, data = [10, 20, 30, 40, 50, 60, 70, 80]\<rparr>"] by (simp add: wf_image_def)

text \<open>C10: Flipping twice along the same axis gives back the image with opaque alpha
  (spec section 8).\<close>

theorem flip_flip:
  assumes "wf_image img"
  shows "flip horizontal (flip horizontal img) = opaque img"
proof (rule image_eqI_px)
  fix x y c :: nat
  assume b: "x < width (flip horizontal (flip horizontal img))"
    "y < height (flip horizontal (flip horizontal img))" "c < 4"
  then have "x < width img" "y < height img" by simp_all
  with b(3) assms show "px (flip horizontal (flip horizontal img)) x y c = px (opaque img) x y c"
    by (cases horizontal) (simp_all add: flip_px px_opaque)
qed (use assms in simp_all)

theorem flip_flip_witness:
  "wf_image \<lparr>width = 2, height = 1, data = [10, 20, 30, 40, 50, 60, 70, 80]\<rparr> \<and> flip True (flip True \<lparr>width = 2, height = 1, data = [10, 20, 30, 40, 50, 60, 70, 80]\<rparr>) = opaque \<lparr>width = 2, height = 1, data = [10, 20, 30, 40, 50, 60, 70, 80]\<rparr>"
  using flip_flip [of "\<lparr>width = 2, height = 1, data = [10, 20, 30, 40, 50, 60, 70, 80]\<rparr>" True] by (simp add: wf_image_def)

text \<open>C16: A quarter turn swaps the dimensions, and sends the source pixel
  \<open>(x, y)\<close> to \<open>(sh-1-y, x)\<close> clockwise and to \<open>(y, sw-1-x)\<close>
  counter-clockwise, alpha 255 (spec section 4.2).\<close>

theorem rotate90_maps:
  assumes "x < width img" and "y < height img" and "c < 3"
  shows "width (rotate90 isCW img) = height img \<and> height (rotate90 isCW img) = width img
         \<and> px (rotate90 isCW img) (if isCW then height img - 1 - y else y)
               (if isCW then x else width img - 1 - x) c = px img x y c
         \<and> px (rotate90 isCW img) (if isCW then height img - 1 - y else y)
               (if isCW then x else width img - 1 - x) 3 = 255"
  using assms by (cases isCW) (simp_all add: rotate90_px)

theorem rotate90_maps_witness:
  "(1::nat) < width \<lparr>width = 2, height = 1, data = [10, 20, 30, 40, 50, 60, 70, 80]\<rparr> \<and> (0::nat) < height \<lparr>width = 2, height = 1, data = [10, 20, 30, 40, 50, 60, 70, 80]\<rparr> \<and> (2::nat) < 3
   \<and> width (rotate90 False \<lparr>width = 2, height = 1, data = [10, 20, 30, 40, 50, 60, 70, 80]\<rparr>) = height \<lparr>width = 2, height = 1, data = [10, 20, 30, 40, 50, 60, 70, 80]\<rparr> \<and> height (rotate90 False \<lparr>width = 2, height = 1, data = [10, 20, 30, 40, 50, 60, 70, 80]\<rparr>) = width \<lparr>width = 2, height = 1, data = [10, 20, 30, 40, 50, 60, 70, 80]\<rparr>
   \<and> px (rotate90 False \<lparr>width = 2, height = 1, data = [10, 20, 30, 40, 50, 60, 70, 80]\<rparr>) (if False then height \<lparr>width = 2, height = 1, data = [10, 20, 30, 40, 50, 60, 70, 80]\<rparr> - 1 - 0 else 0)
         (if False then 1 else width \<lparr>width = 2, height = 1, data = [10, 20, 30, 40, 50, 60, 70, 80]\<rparr> - 1 - 1) 2 = px \<lparr>width = 2, height = 1, data = [10, 20, 30, 40, 50, 60, 70, 80]\<rparr> 1 0 2
   \<and> px (rotate90 False \<lparr>width = 2, height = 1, data = [10, 20, 30, 40, 50, 60, 70, 80]\<rparr>) (if False then height \<lparr>width = 2, height = 1, data = [10, 20, 30, 40, 50, 60, 70, 80]\<rparr> - 1 - 0 else 0)
         (if False then 1 else width \<lparr>width = 2, height = 1, data = [10, 20, 30, 40, 50, 60, 70, 80]\<rparr> - 1 - 1) 3 = 255"
  using rotate90_maps [of 1 "\<lparr>width = 2, height = 1, data = [10, 20, 30, 40, 50, 60, 70, 80]\<rparr>" 0 2 False] by simp

subsection \<open>Properties of scaling\<close>

text \<open>C14: Nearest-neighbour scaling by a positive factor reads only pixels of the
  source (no sample index past the buffer end, the spec's open question, without
  the defensive clamp), and destination pixel \<open>(x, y)\<close> is the source pixel
  \<open>(floor(x/factor), floor(y/factor))\<close> with alpha 255 (spec section 4.2).\<close>

theorem scaleNearest_px:
  assumes "wf_image img" and "0 < factor" and "scaleNearest factor img = Inr dst"
    and "x < width dst" and "y < height dst" and "c < 4"
  shows "nat \<lfloor>real x / factor\<rfloor> < width img \<and> nat \<lfloor>real y / factor\<rfloor> < height img \<and>
         px dst x y c = (if c = 3 then 255
           else px img (nat \<lfloor>real x / factor\<rfloor>) (nat \<lfloor>real y / factor\<rfloor>) c)"
proof -
  note D = scaleNearest_Inr [OF assms(2,3)]
  have "\<lfloor>real x / factor\<rfloor> < int (width img)" "\<lfloor>real y / factor\<rfloor> < int (height img)"
    using D assms(2,4,5) by (auto intro: nearest_src_lt)
  then show ?thesis using nearest_px [OF assms] floor_div_nonneg [OF assms(2)] by (simp add: nat_less_iff)
qed

theorem scaleNearest_px_witness:
  "wf_image \<lparr>width = 2, height = 1, data = [10, 20, 30, 40, 50, 60, 70, 80]\<rparr> \<and> (0::real) < 2 \<and> scaleNearest 2 \<lparr>width = 2, height = 1, data = [10, 20, 30, 40, 50, 60, 70, 80]\<rparr> = Inr (projr (scaleNearest 2 \<lparr>width = 2, height = 1, data = [10, 20, 30, 40, 50, 60, 70, 80]\<rparr>))
   \<and> 3 < width (projr (scaleNearest 2 \<lparr>width = 2, height = 1, data = [10, 20, 30, 40, 50, 60, 70, 80]\<rparr>)) \<and> 1 < height (projr (scaleNearest 2 \<lparr>width = 2, height = 1, data = [10, 20, 30, 40, 50, 60, 70, 80]\<rparr>)) \<and> (0::nat) < 4
   \<and> nat \<lfloor>real (3::nat) / 2\<rfloor> < width \<lparr>width = 2, height = 1, data = [10, 20, 30, 40, 50, 60, 70, 80]\<rparr> \<and> nat \<lfloor>real (1::nat) / 2\<rfloor> < height \<lparr>width = 2, height = 1, data = [10, 20, 30, 40, 50, 60, 70, 80]\<rparr>
   \<and> px (projr (scaleNearest 2 \<lparr>width = 2, height = 1, data = [10, 20, 30, 40, 50, 60, 70, 80]\<rparr>)) 3 1 0 = (if (0::nat) = 3 then 255
        else px \<lparr>width = 2, height = 1, data = [10, 20, 30, 40, 50, 60, 70, 80]\<rparr> (nat \<lfloor>real (3::nat) / 2\<rfloor>) (nat \<lfloor>real (1::nat) / 2\<rfloor>) 0)"
  using scaleNearest_px [of "\<lparr>width = 2, height = 1, data = [10, 20, 30, 40, 50, 60, 70, 80]\<rparr>" 2 "projr (scaleNearest 2 \<lparr>width = 2, height = 1, data = [10, 20, 30, 40, 50, 60, 70, 80]\<rparr>)" 3 1 0]
  by (simp add: wf_image_def scaleNearest_def Let_def js_round_def)

text \<open>C11: Nearest-neighbour scaling by factor 1 returns the image with its colour
  channels unchanged and alpha 255 (spec section 8).\<close>

theorem scaleNearest_one:
  assumes "wf_image img" and "0 < width img" and "0 < height img"
  shows "scaleNearest 1 img = Inr (opaque img)"
proof -
  obtain dst where S: "scaleNearest 1 img = Inr dst"
    using assms(2,3) by (simp add: scaleNearest_def Let_def)
  note D = scaleNearest_Inr [OF _ S]
  have "dst = opaque img"
  proof (rule image_eqI_px)
    show "wf_image dst" using wf_scaleNearest [OF assms(1) _ S] by simp
    fix x y c :: nat assume b: "x < width dst" "y < height dst" "c < 4"
    then show "px dst x y c = px (opaque img) x y c"
      using nearest_px [OF assms(1) _ S b] D assms(1) by (simp add: px_opaque)
  qed (use D assms(1) in simp_all)
  with S show ?thesis by simp
qed

theorem scaleNearest_one_witness:
  "wf_image \<lparr>width = 2, height = 1, data = [10, 20, 30, 40, 50, 60, 70, 80]\<rparr> \<and> 0 < width \<lparr>width = 2, height = 1, data = [10, 20, 30, 40, 50, 60, 70, 80]\<rparr> \<and> 0 < height \<lparr>width = 2, height = 1, data = [10, 20, 30, 40, 50, 60, 70, 80]\<rparr> \<and> scaleNearest 1 \<lparr>width = 2, height = 1, data = [10, 20, 30, 40, 50, 60, 70, 80]\<rparr> = Inr (opaque \<lparr>width = 2, height = 1, data = [10, 20, 30, 40, 50, 60, 70, 80]\<rparr>)"
  using scaleNearest_one [of "\<lparr>width = 2, height = 1, data = [10, 20, 30, 40, 50, 60, 70, 80]\<rparr>"] by (simp add: wf_image_def)

text \<open>C12: Bilinear scaling by factor 1 returns the image with its colour channels
  unchanged and alpha 255: every interpolation weight is 0 or 1 and every corner
  read is in range (spec section 8).\<close>

theorem scaleBilinear_one:
  assumes "wf_image img" and "0 < width img" and "0 < height img"
  shows "scaleBilinear 1 img = Inr (opaque img)"
proof -
  let ?w = "width img" and ?h = "height img"
  let ?g = "for_grid ?h ?w (bilinear_body 1 (data img) ?w ?h ?w) (replicate (4 * ?w * ?h) 0)"
  have S: "scaleBilinear 1 img = Inr ((createImageData ?w ?h)\<lparr>data := ?g\<rparr>)"
    using assms(2,3) by (simp add: scaleBilinear_def Let_def createImageData_def)
  have body: "\<And>x y d. x < ?w \<Longrightarrow> y < ?h \<Longrightarrow> bilinear_body 1 (data img) ?w ?h ?w x y d
      = write_px (y * ?w + x) (data img ! (4 * (y * ?w + x)), data img ! (4 * (y * ?w + x) + 1),
                               data img ! (4 * (y * ?w + x) + 2), 255) d"
    using assms(1) by (intro bilinear_body_one) (simp_all add: wf_image_def)
  have "(createImageData ?w ?h)\<lparr>data := ?g\<rparr> = opaque img"
  proof (rule image_eqI_px)
    show "wf_image ((createImageData ?w ?h)\<lparr>data := ?g\<rparr>)"
      using length_for_grid_write [OF body] by (simp add: wf_image_def)
    fix x y c :: nat assume b: "x < width ((createImageData ?w ?h)\<lparr>data := ?g\<rparr>)"
      "y < height ((createImageData ?w ?h)\<lparr>data := ?g\<rparr>)" "c < 4"
    then have "?g ! (4 * (y * ?w + x) + c) = (if c = 3 then 255 else data img ! (4 * (y * ?w + x) + c))"
      using body row_major_inj row_major_bound by (intro for_grid_copy) simp_all
    then have "px ((createImageData ?w ?h)\<lparr>data := ?g\<rparr>) x y c = (if c = 3 then 255 else px img x y c)"
      by (simp add: px_def)
    with b assms(1) show "px ((createImageData ?w ?h)\<lparr>data := ?g\<rparr>) x y c = px (opaque img) x y c"
      by (simp add: px_opaque)
  qed (use assms(1) in simp_all)
  with S show ?thesis by simp
qed

theorem scaleBilinear_one_witness:
  "wf_image \<lparr>width = 2, height = 1, data = [10, 20, 30, 40, 50, 60, 70, 80]\<rparr> \<and> 0 < width \<lparr>width = 2, height = 1, data = [10, 20, 30, 40, 50, 60, 70, 80]\<rparr> \<and> 0 < height \<lparr>width = 2, height = 1, data = [10, 20, 30, 40, 50, 60, 70, 80]\<rparr> \<and> scaleBilinear 1 \<lparr>width = 2, height = 1, data = [10, 20, 30, 40, 50, 60, 70, 80]\<rparr> = Inr (opaque \<lparr>width = 2, height = 1, data = [10, 20, 30, 40, 50, 60, 70, 80]\<rparr>)"
  using scaleBilinear_one [of "\<lparr>width = 2, height = 1, data = [10, 20, 30, 40, 50, 60, 70, 80]\<rparr>"] by (simp add: wf_image_def)

text \<open>C20: A negative factor is not rejected: when its rounded dimensions are not 0,
  both scalers return a fully transparent blank image of the absolute dimensions, since
  the loops \<open>y < dstH\<close>, \<open>x < dstW\<close> never run.\<close>

theorem scale_negative:
  assumes "factor < 0" and "js_round (real (width img) * factor) \<noteq> 0"
    and "js_round (real (height img) * factor) \<noteq> 0"
  shows "scaleNearest factor img = Inr (createImageData (nat \<bar>js_round (real (width img) * factor)\<bar>)
                                                      (nat \<bar>js_round (real (height img) * factor)\<bar>))
       \<and> scaleAny factor img = Inr (createImageData (nat \<bar>js_round (real (width img) * factor)\<bar>)
                                                  (nat \<bar>js_round (real (height img) * factor)\<bar>))"
proof -
  have "js_round (real (height img) * factor) \<le> 0"
    using assms(1) js_round_nonpos [of "real (height img) * factor"] by (simp add: mult_nonneg_nonpos)
  then have "nat (js_round (real (height img) * factor)) = 0" by simp
  with assms(2,3) show ?thesis
    by (simp add: scaleNearest_def scaleAny_def scaleBilinear_def Let_def for_grid_def)
qed

theorem scale_negative_witness:
  "(-1::real) < 0 \<and> js_round (real (width \<lparr>width = 2, height = 1, data = [10, 20, 30, 40, 50, 60, 70, 80]\<rparr>) * -1) \<noteq> 0 \<and> js_round (real (height \<lparr>width = 2, height = 1, data = [10, 20, 30, 40, 50, 60, 70, 80]\<rparr>) * -1) \<noteq> 0
   \<and> scaleNearest (-1) \<lparr>width = 2, height = 1, data = [10, 20, 30, 40, 50, 60, 70, 80]\<rparr> = Inr (createImageData 2 1) \<and> scaleAny (-1) \<lparr>width = 2, height = 1, data = [10, 20, 30, 40, 50, 60, 70, 80]\<rparr> = Inr (createImageData 2 1)"
  using scale_negative [of "-1" "\<lparr>width = 2, height = 1, data = [10, 20, 30, 40, 50, 60, 70, 80]\<rparr>"] by (simp add: js_round_def)

text \<open>C27: A counter-clockwise quarter turn is the same image as three clockwise
  quarter turns (both set alpha to 255).\<close>

theorem rotate90_ccw_three: "rotate90 False img = rotate90 True (rotate90 True (rotate90 True img))"
proof (rule image_eqI_px)
  fix x y c :: nat
  assume b: "x < width (rotate90 False img)" "y < height (rotate90 False img)" "c < 4"
  then have "x < height img" "y < width img" by simp_all
  with b(3) show "px (rotate90 False img) x y c = px (rotate90 True (rotate90 True (rotate90 True img))) x y c"
    by (simp add: rotate90_px)
qed simp_all

end
