(* ===== verification/Convolution.thy ===== *)
theory Convolution
  imports Point
begin

text \<open>
  The convolution engine of \<open>src/script.js\<close> (lines 293-395): the kernel
  presets \<open>gauss3\<close>, \<open>gauss5\<close>, the generic \<open>applyConvolutionMatrix\<close> with
  edge-clamped sampling, and \<open>applySobel\<close>.  The generic loop is modelled in the
  exception monad \<open>js_error + _\<close>: reading a row \<open>matrix[k]\<close> that does not exist
  and indexing it throws \<open>TypeError\<close>, a missing weight \<open>matrix[k][j]\<close> is
  \<open>undefined\<close>, a NaN that propagates into the sum and stores 0.  Beside the
  loops sit the spec's formulas (\<open>conv_sum\<close>, \<open>kernel_apply\<close>,
  \<open>sobel_grad\<close>, \<open>sobel_ref\<close>) and the refinement lemmas connecting them.
\<close>

type_synonym kernel = "real list list"
type_synonym rgb_sums = "jsnum \<times> jsnum \<times> jsnum"

text \<open>\<open>gauss3\<close> and \<open>gauss5\<close> (lines 296-307).\<close>

definition gauss3 :: kernel where
  "gauss3 = [[1 / 16, 2 / 16, 1 / 16], [2 / 16, 4 / 16, 2 / 16], [1 / 16, 2 / 16, 1 / 16]]"

definition gauss5 :: kernel where
  "gauss5 = [[1 / 273, 4 / 273, 7 / 273, 4 / 273, 1 / 273],
             [4 / 273, 16 / 273, 26 / 273, 16 / 273, 4 / 273],
             [7 / 273, 26 / 273, 41 / 273, 26 / 273, 7 / 273],
             [4 / 273, 16 / 273, 26 / 273, 16 / 273, 4 / 273],
             [1 / 273, 4 / 273, 7 / 273, 4 / 273, 1 / 273]]"

text \<open>The offsets \<open>-half .. half\<close> of the kernel loops.\<close>

definition window :: "nat \<Rightarrow> int list" where
  "window half = [- int half..int half]"

text \<open>\<open>sumR += src[index] * weight; sumG += ...; sumB += ...\<close> (lines 332-334).\<close>

definition acc3 :: "u8 list \<Rightarrow> int \<Rightarrow> jsnum \<Rightarrow> rgb_sums \<Rightarrow> rgb_sums" where
  "acc3 src index weight s =
     (case s of (sumR, sumG, sumB) \<Rightarrow>
        (nan2 (+) sumR (nan2 (*) (js_get src index) weight),
         nan2 (+) sumG (nan2 (*) (js_get src (index + 1)) weight),
         nan2 (+) sumB (nan2 (*) (js_get src (index + 2)) weight)))"

text \<open>One pass of the inner kernel loop (lines 328-334): the clamped neighbour,
  the row \<open>matrix[cy + half]\<close> (a \<open>TypeError\<close> when indexed if it is
  missing) and the weight.\<close>

definition conv_cell ::
  "kernel \<Rightarrow> nat \<Rightarrow> u8 list \<Rightarrow> nat \<Rightarrow> nat \<Rightarrow> nat \<Rightarrow> nat \<Rightarrow> int \<Rightarrow> int \<Rightarrow> rgb_sums \<Rightarrow> js_error + rgb_sums" where
  "conv_cell matrix half src w h x y cy cx s =
     (let iy = clampIndex (int y + cy) 0 (int h - 1);
          ix = clampIndex (int x + cx) 0 (int w - 1)
      in case nth_opt matrix (nat (cy + int half)) of
           None \<Rightarrow> Inl TypeError
         | Some row \<Rightarrow>
             (let weight = nth_opt row (nat (cx + int half));
                  index = (iy * int w + ix) * 4
              in Inr (acc3 src index weight s)))"

text \<open>Loop body for destination pixel \<open>(x, y)\<close> (lines 322-341).\<close>

definition conv_body ::
  "kernel \<Rightarrow> nat \<Rightarrow> u8 list \<Rightarrow> nat \<Rightarrow> nat \<Rightarrow> nat \<Rightarrow> nat \<Rightarrow> u8 list \<Rightarrow> js_error + u8 list" where
  "conv_body matrix half src w h x y dst =
     (case fold_err (\<lambda>cy. fold_err (\<lambda>cx. conv_cell matrix half src w h x y cy cx) (window half))
             (window half) (Some 0, Some 0, Some 0) of
        Inl e \<Rightarrow> Inl e
      | Inr (sumR, sumG, sumB) \<Rightarrow>
          (let dstIndex = (y * w + x) * 4
           in Inr (dst[dstIndex := store (map_option clamp sumR),
                       dstIndex + 1 := store (map_option clamp sumG),
                       dstIndex + 2 := store (map_option clamp sumB),
                       dstIndex + 3 := 255])))"

text \<open>\<open>applyConvolutionMatrix(matrix)\<close> (lines 309-346).\<close>

definition applyConvolutionMatrix :: "kernel \<Rightarrow> image \<Rightarrow> js_error + image" where
  "applyConvolutionMatrix matrix srcData =
     (let size = length matrix; half = size div 2;
          w = width srcData; h = height srcData;
          dstImageData = createImageData w h
      in case for_grid_err h w (conv_body matrix half (data srcData) w h) (data dstImageData) of
           Inl e \<Rightarrow> Inl e
         | Inr dst \<Rightarrow> Inr (dstImageData\<lparr>data := dst\<rparr>))"

text \<open>\<open>sobelX\<close>, \<open>sobelY\<close> (lines 349-358).\<close>

definition sobelX :: "int list list" where
  "sobelX = [[-1, 0, 1], [-2, 0, 2], [-1, 0, 1]]"

definition sobelY :: "int list list" where
  "sobelY = [[-1, -2, -1], [0, 0, 0], [1, 2, 1]]"

text \<open>One pass of the inner Sobel loop (lines 377-383): the gray value of the
  clamped neighbour weighted into both gradients.  The kernel indices
  \<open>cy + 1\<close>, \<open>cx + 1\<close> are always 0, 1 or 2.\<close>

definition sobel_cell ::
  "u8 list \<Rightarrow> nat \<Rightarrow> nat \<Rightarrow> nat \<Rightarrow> nat \<Rightarrow> int \<Rightarrow> int \<Rightarrow> jsnum \<times> jsnum \<Rightarrow> jsnum \<times> jsnum" where
  "sobel_cell src w h x y cy cx g =
     (let half = 1;
          iy = clampIndex (int y + cy) 0 (int h - 1);
          ix = clampIndex (int x + cx) 0 (int w - 1);
          index = (iy * int w + ix) * 4;
          grayVal = js_get src index
      in case g of (gx, gy) \<Rightarrow>
           (nan2 (+) gx (nan2 (*) grayVal (Some (of_int (sobelX ! nat (cy + half) ! nat (cx + half))))),
            nan2 (+) gy (nan2 (*) grayVal (Some (of_int (sobelY ! nat (cy + half) ! nat (cx + half)))))))"

text \<open>Loop body of \<open>applySobel\<close> for pixel \<open>(x, y)\<close> (lines 373-390).  The
  chained assignment \<open>dst[i] = dst[i + 1] = dst[i + 2] = clamp(mag)\<close> stores the
  same Number three times, rightmost first.\<close>

definition sobel_body :: "u8 list \<Rightarrow> nat \<Rightarrow> nat \<Rightarrow> nat \<Rightarrow> nat \<Rightarrow> u8 list \<Rightarrow> u8 list" where
  "sobel_body src w h x y dst =
     (case fold (\<lambda>cy. fold (\<lambda>cx. sobel_cell src w h x y cy cx) (window 1)) (window 1) (Some 0, Some 0) of
        (gx, gy) \<Rightarrow>
          (let mag = map_option sqrt (nan2 (+) (nan2 (*) gx gx) (nan2 (*) gy gy));
               dstIndex = (y * w + x) * 4;
               v = store (map_option clamp mag)
           in dst[dstIndex + 2 := v, dstIndex + 1 := v, dstIndex := v, dstIndex + 3 := 255]))"

text \<open>The gradient pass of \<open>applySobel\<close> on the image it reads back after
  \<open>toGray()\<close> (lines 366-394).\<close>

definition sobel_pass :: "image \<Rightarrow> image" where
  "sobel_pass srcData =
     (let w = width srcData; h = height srcData;
          dstImageData = createImageData w h
      in dstImageData\<lparr>data := for_grid h w (sobel_body (data srcData) w h) (data dstImageData)\<rparr>)"

text \<open>\<open>applySobel()\<close> (lines 360-395): \<open>toGray()\<close> puts the gray image on the
  canvas, then the gradient pass reads it back.\<close>

definition applySobel :: "image \<Rightarrow> image" where
  "applySobel img = sobel_pass (toGray img)"

subsection \<open>Reference semantics\<close>

text \<open>The kernel loops visit the cells \<open>(cy, cx)\<close> row by row.\<close>

definition cells :: "nat \<Rightarrow> (int \<times> int) list" where
  "cells half = concat (map (\<lambda>cy. map (\<lambda>cx. (cy, cx)) (window half)) (window half))"

text \<open>A kernel the engine handles as the spec describes: square of odd size.\<close>

definition square_odd :: "kernel \<Rightarrow> bool" where
  "square_odd matrix \<longleftrightarrow> odd (length matrix) \<and> (\<forall>row \<in> set matrix. length row = length matrix)"

text \<open>The byte of channel \<open>c\<close> of the edge-clamped neighbour \<open>(x + cx, y + cy)\<close>.\<close>

definition nb :: "image \<Rightarrow> nat \<Rightarrow> nat \<Rightarrow> int \<Rightarrow> int \<Rightarrow> nat \<Rightarrow> real" where
  "nb img x y cy cx c =
     rd (data img) (4 * (nat (clampIndex (int y + cy) 0 (int (height img) - 1)) * width img
                         + nat (clampIndex (int x + cx) 0 (int (width img) - 1))) + c)"

text \<open>The spec's ApplyKernel sum for channel \<open>c\<close> of pixel \<open>(x, y)\<close>
  (spec section 4.3).\<close>

definition conv_sum :: "kernel \<Rightarrow> image \<Rightarrow> nat \<Rightarrow> nat \<Rightarrow> nat \<Rightarrow> real" where
  "conv_sum matrix img x y c =
     (let half = length matrix div 2
      in sum_list (map (\<lambda>(cy, cx). nb img x y cy cx c * matrix ! nat (cy + int half) ! nat (cx + int half))
                       (cells half)))"

text \<open>The spec's ApplyKernel: every colour sample the stored, clamped sum, alpha 255.\<close>

definition kernel_apply :: "kernel \<Rightarrow> image \<Rightarrow> image" where
  "kernel_apply matrix img =
     img\<lparr>data := map (\<lambda>i. if i mod 4 = 3 then 255
                          else u8_clamped (clamp (conv_sum matrix img (i div 4 mod width img)
                                                    (i div 4 div width img) (i mod 4))))
                     [0..<length (data img)]\<rparr>"

text \<open>The spec's Sobel gradient for a kernel, and the Sobel image.\<close>

definition sobel_grad :: "int list list \<Rightarrow> image \<Rightarrow> nat \<Rightarrow> nat \<Rightarrow> real" where
  "sobel_grad k img x y =
     sum_list (map (\<lambda>(cy, cx). nb img x y cy cx 0 * of_int (k ! nat (cy + 1) ! nat (cx + 1))) (cells 1))"

definition sobel_ref :: "image \<Rightarrow> image" where
  "sobel_ref img =
     img\<lparr>data := map (\<lambda>i. if i mod 4 = 3 then 255
                          else u8_clamped (clamp (sqrt ((sobel_grad sobelX img (i div 4 mod width img) (i div 4 div width img))\<^sup>2
                                                     + (sobel_grad sobelY img (i div 4 mod width img) (i div 4 div width img))\<^sup>2))))
                     [0..<length (data img)]\<rparr>"

subsection \<open>Lemmas\<close>

lemma set_window [simp]: "set (window half) = {- int half..int half}"
  by (simp add: window_def)

lemma cells_fold: "fold (\<lambda>cy. fold (\<lambda>cx. g cy cx) (window half)) (window half) s
                   = fold (\<lambda>(cy, cx). g cy cx) (cells half) s"
  by (simp add: cells_def fold_concat fold_map comp_def)

lemma set_cells [simp]: "set (cells half) = {- int half..int half} \<times> {- int half..int half}"
  by (auto simp: cells_def)

lemma js_get_nb:
  assumes "wf_image img" and "x < width img" and "y < height img" and "c < 4"
  shows "js_get (data img) ((clampIndex (int y + cy) 0 (int (height img) - 1) * int (width img)
            + clampIndex (int x + cx) 0 (int (width img) - 1)) * 4 + int c) = Some (nb img x y cy cx c)"
proof -
  let ?iy = "clampIndex (int y + cy) 0 (int (height img) - 1)"
  let ?ix = "clampIndex (int x + cx) 0 (int (width img) - 1)"
  have "0 \<le> ?iy" "?iy < int (height img)" "0 \<le> ?ix" "?ix < int (width img)"
    using assms(2,3) clampIndex_range [of 0 "int (height img) - 1" "int y + cy"]
      clampIndex_range [of 0 "int (width img) - 1" "int x + cx"] by auto
  then show ?thesis
    using js_get_px [of "data img" "width img" "height img" ?iy ?ix c] assms(1,4)
    by (simp add: nb_def wf_image_def)
qed

text \<open>Under a square odd kernel, every pass of the inner loop succeeds and reads
  the weight of its cell.\<close>

lemma conv_cell_Inr:
  assumes "square_odd matrix" and "cy \<in> {- int (length matrix div 2)..int (length matrix div 2)}"
    and "cx \<in> {- int (length matrix div 2)..int (length matrix div 2)}"
  shows "conv_cell matrix (length matrix div 2) src w h x y cy cx s
         = Inr (acc3 src ((clampIndex (int y + cy) 0 (int h - 1) * int w + clampIndex (int x + cx) 0 (int w - 1)) * 4)
                (Some (matrix ! nat (cy + int (length matrix div 2)) ! nat (cx + int (length matrix div 2)))) s)"
proof -
  let ?n = "length matrix"
  let ?i = "nat (cy + int (?n div 2))" and ?j = "nat (cx + int (?n div 2))"
  have odd: "2 * (?n div 2) + 1 = ?n" and rows: "\<And>row. row \<in> set matrix \<Longrightarrow> length row = ?n"
    using assms(1) by (simp_all add: square_odd_def)
  have i: "?i < ?n" using assms(2) odd by auto
  have j: "?j < length (matrix ! ?i)" using assms(3) odd rows [OF nth_mem [OF i]] by auto
  have "nth_opt matrix ?i = Some (matrix ! ?i)" using i by (rule nth_opt_Some)
  moreover have "nth_opt (matrix ! ?i) ?j = Some (matrix ! ?i ! ?j)" using j by (rule nth_opt_Some)
  ultimately show ?thesis by (simp only: conv_cell_def Let_def option.case)
qed

lemma acc3_step:
  assumes "wf_image img" and "x < width img" and "y < height img"
  shows "acc3 (data img) ((clampIndex (int y + cy) 0 (int (height img) - 1) * int (width img)
            + clampIndex (int x + cx) 0 (int (width img) - 1)) * 4) (Some v) (Some a, Some b, Some c)
         = (Some (a + nb img x y cy cx 0 * v), Some (b + nb img x y cy cx 1 * v), Some (c + nb img x y cy cx 2 * v))"
  using js_get_nb [OF assms, of 0 cy cx] js_get_nb [OF assms, of 1 cy cx] js_get_nb [OF assms, of 2 cy cx]
  by (simp add: acc3_def)

lemma fold_acc3:
  assumes "wf_image img" and "x < width img" and "y < height img"
  shows "fold (\<lambda>(cy, cx). acc3 (data img) ((clampIndex (int y + cy) 0 (int (height img) - 1) * int (width img)
            + clampIndex (int x + cx) 0 (int (width img) - 1)) * 4) (Some (W cy cx))) ps (Some a, Some b, Some c)
         = (Some (a + sum_list (map (\<lambda>(cy, cx). nb img x y cy cx 0 * W cy cx) ps)),
            Some (b + sum_list (map (\<lambda>(cy, cx). nb img x y cy cx 1 * W cy cx) ps)),
            Some (c + sum_list (map (\<lambda>(cy, cx). nb img x y cy cx 2 * W cy cx) ps)))"
proof (induction ps arbitrary: a b c)
  case (Cons p ps)
  obtain cy cx where p: "p = (cy, cx)" by (cases p)
  show ?case by (simp only: p fold_Cons comp_def prod.case acc3_step [OF assms] Cons.IH list.map sum_list.Cons add.assoc)
qed simp

lemma conv_body_write:
  assumes "square_odd matrix" and "wf_image img" and "x < width img" and "y < height img"
  shows "conv_body matrix (length matrix div 2) (data img) (width img) (height img) x y d
         = Inr (write_px (y * width img + x)
                 (u8_clamped (clamp (conv_sum matrix img x y 0)), u8_clamped (clamp (conv_sum matrix img x y 1)),
                  u8_clamped (clamp (conv_sum matrix img x y 2)), 255) d)"
proof -
  let ?k = "length matrix div 2" and ?w = "width img" and ?h = "height img"
  let ?I = "\<lambda>cy cx. (clampIndex (int y + cy) 0 (int ?h - 1) * int ?w + clampIndex (int x + cx) 0 (int ?w - 1)) * 4"
  let ?W = "\<lambda>cy cx. matrix ! nat (cy + int ?k) ! nat (cx + int ?k)"
  let ?g = "\<lambda>cy cx. acc3 (data img) (?I cy cx) (Some (?W cy cx))"
  have inner: "\<And>cy s. cy \<in> set (window ?k) \<Longrightarrow>
      fold_err (\<lambda>cx. conv_cell matrix ?k (data img) ?w ?h x y cy cx) (window ?k) s
      = Inr (fold (\<lambda>cx. ?g cy cx) (window ?k) s)"
    by (rule fold_err_Inr) (use conv_cell_Inr [OF assms(1)] in simp)
  have "fold_err (\<lambda>cy. fold_err (\<lambda>cx. conv_cell matrix ?k (data img) ?w ?h x y cy cx) (window ?k)) (window ?k)
          (Some 0, Some 0, Some 0)
        = Inr (fold (\<lambda>cy. fold (\<lambda>cx. ?g cy cx) (window ?k)) (window ?k) (Some 0, Some 0, Some 0))"
    by (rule fold_err_Inr) (rule inner)
  also have "\<dots> = Inr (Some (conv_sum matrix img x y 0), Some (conv_sum matrix img x y 1), Some (conv_sum matrix img x y 2))"
    unfolding cells_fold fold_acc3 [OF assms(2-4)] by (simp add: conv_sum_def Let_def)
  finally show ?thesis by (simp add: conv_body_def write_px_def mult.commute Let_def)
qed

lemma wf_kernel_apply [simp]: "wf_image (kernel_apply matrix img) = wf_image img"
  by (simp add: kernel_apply_def wf_image_def)

lemma kernel_apply_sel [simp]:
  "width (kernel_apply matrix img) = width img" "height (kernel_apply matrix img) = height img"
  by (simp_all add: kernel_apply_def)

lemma conv_loop_ref:
  assumes "square_odd matrix" and "wf_image img"
  shows "for_grid_err (height img) (width img) (conv_body matrix (length matrix div 2) (data img) (width img) (height img))
           (replicate (4 * width img * height img) 0) = Inr (data (kernel_apply matrix img))"
proof -
  let ?v = "\<lambda>x y c. u8_clamped (clamp (conv_sum matrix img x y c))"
  let ?g = "\<lambda>x y. write_px (y * width img + x) (?v x y 0, ?v x y 1, ?v x y 2, 255)"
  have body: "\<And>x y d. x < width img \<Longrightarrow> y < height img \<Longrightarrow>
      conv_body matrix (length matrix div 2) (data img) (width img) (height img) x y d = Inr (?g x y d)"
    using assms by (rule conv_body_write)
  show ?thesis
    using for_grid_err_Inr [OF body] for_grid_row_major [OF assms(2), of ?g ?v]
    by (simp add: kernel_apply_def)
qed

lemma map_window: "map (\<lambda>i. nat (i + int k)) (window k) = [0..<2 * k + 1]"
proof -
  have "- int k + int (2 * k + 1) - 1 = int k" by simp
  then show ?thesis using map_upto_shift [of "- int k" "2 * k + 1"] by (simp add: window_def)
qed

lemma sum_window: "sum_list (map (\<lambda>i. f (nat (i + int k))) (window k)) = sum_list (map f [0..<2 * k + 1])"
proof -
  have "map (\<lambda>i. f (nat (i + int k))) (window k) = map f (map (\<lambda>i. nat (i + int k)) (window k))" by simp
  then show ?thesis by (simp only: map_window)
qed

lemma sum_cells:
  "sum_list (map (\<lambda>(cy, cx). f (nat (cy + int k)) (nat (cx + int k))) (cells k))
   = sum_list (map (\<lambda>i. sum_list (map (f i) [0..<2 * k + 1])) [0..<2 * k + 1])"
proof -
  have "sum_list (map (\<lambda>(cy, cx). f (nat (cy + int k)) (nat (cx + int k))) (cells k))
        = sum_list (map (\<lambda>cy. sum_list (map (\<lambda>cx. f (nat (cy + int k)) (nat (cx + int k))) (window k))) (window k))"
    by (simp add: cells_def sum_list_concat map_concat comp_def)
  also have "\<dots> = sum_list (map (\<lambda>cy. sum_list (map (f (nat (cy + int k))) [0..<2 * k + 1])) (window k))"
    by (simp only: sum_window)
  also have "\<dots> = sum_list (map (\<lambda>i. sum_list (map (f i) [0..<2 * k + 1])) [0..<2 * k + 1])"
    by (rule sum_window)
  finally show ?thesis .
qed

text \<open>The weights a square odd kernel applies add up to the sum of its entries.\<close>

lemma cells_weight_sum:
  assumes "square_odd matrix"
  shows "sum_list (map (\<lambda>(cy, cx). matrix ! nat (cy + int (length matrix div 2)) ! nat (cx + int (length matrix div 2)))
                       (cells (length matrix div 2)))
         = sum_list (map sum_list matrix)"
proof -
  let ?n = "length matrix"
  have n: "2 * (?n div 2) + 1 = ?n" using assms by (simp add: square_odd_def)
  have rows: "\<And>i. i \<in> set [0..<?n] \<Longrightarrow> sum_list (map ((!) (matrix ! i)) [0..<?n]) = sum_list (matrix ! i)"
  proof -
    fix i assume "i \<in> set [0..<?n]"
    then have "length (matrix ! i) = ?n" using assms by (simp add: square_odd_def)
    then show "sum_list (map ((!) (matrix ! i)) [0..<?n]) = sum_list (matrix ! i)"
      using map_nth [of "matrix ! i"] by simp
  qed
  have "sum_list (map (\<lambda>(cy, cx). matrix ! nat (cy + int (?n div 2)) ! nat (cx + int (?n div 2))) (cells (?n div 2)))
        = sum_list (map (\<lambda>i. sum_list (map ((!) (matrix ! i)) [0..<2 * (?n div 2) + 1])) [0..<2 * (?n div 2) + 1])"
    by (rule sum_cells [of "\<lambda>i j. matrix ! i ! j"])
  also have "\<dots> = sum_list (map (\<lambda>i. sum_list (map ((!) (matrix ! i)) [0..<?n])) [0..<?n])"
    by (simp only: n)
  also have "map (\<lambda>i. sum_list (map ((!) (matrix ! i)) [0..<?n])) [0..<?n] = map sum_list (map ((!) matrix) [0..<?n])"
    using rows by simp
  also have "map ((!) matrix) [0..<?n] = matrix" by (rule map_nth)
  finally show ?thesis .
qed

lemma nb_uniform:
  assumes "wf_image img" and "uniform img r g b" and "x < width img" and "y < height img" and "c < 3"
  shows "nb img x y cy cx c = real (unat ([r, g, b] ! c))"
proof -
  let ?iy = "nat (clampIndex (int y + cy) 0 (int (height img) - 1))"
  let ?ix = "nat (clampIndex (int x + cx) 0 (int (width img) - 1))"
  have "?iy < height img" "?ix < width img"
    using assms(3,4) clampIndex_range [of 0 "int (height img) - 1" "int y + cy"]
      clampIndex_range [of 0 "int (width img) - 1" "int x + cx"] by auto
  then have "4 * (?iy * width img + ?ix) + c < length (data img)"
    using assms(1,5) px_index_bound [of ?ix "width img" ?iy "height img" c] by (simp add: wf_image_def)
  from uniform_nth [OF assms(2) this assms(5)] show ?thesis by (simp add: nb_def rd_def)
qed

lemma sum_list_prod_mult:
  "sum_list (map (\<lambda>(a, b). v * f a b) xs) = (v :: real) * sum_list (map (\<lambda>(a, b). f a b) xs)"
  by (induction xs) (auto simp: algebra_simps)

lemma conv_sum_uniform:
  assumes "square_odd matrix" and "wf_image img" and "uniform img r g b"
    and "x < width img" and "y < height img" and "c < 3"
  shows "conv_sum matrix img x y c = real (unat ([r, g, b] ! c)) * sum_list (map sum_list matrix)"
  using nb_uniform [OF assms(2-6)] cells_weight_sum [OF assms(1)]
  by (simp add: conv_sum_def Let_def sum_list_prod_mult)

lemma sobel_cell_step:
  assumes "wf_image img" and "x < width img" and "y < height img"
  shows "sobel_cell (data img) (width img) (height img) x y cy cx (Some a, Some b)
         = (Some (a + nb img x y cy cx 0 * of_int (sobelX ! nat (cy + 1) ! nat (cx + 1))),
            Some (b + nb img x y cy cx 0 * of_int (sobelY ! nat (cy + 1) ! nat (cx + 1))))"
  using js_get_nb [OF assms, of 0 cy cx] by (simp add: sobel_cell_def Let_def)

lemma fold_sobel_cell:
  assumes "wf_image img" and "x < width img" and "y < height img"
  shows "fold (\<lambda>(cy, cx). sobel_cell (data img) (width img) (height img) x y cy cx) ps (Some a, Some b)
         = (Some (a + sum_list (map (\<lambda>(cy, cx). nb img x y cy cx 0 * of_int (sobelX ! nat (cy + 1) ! nat (cx + 1))) ps)),
            Some (b + sum_list (map (\<lambda>(cy, cx). nb img x y cy cx 0 * of_int (sobelY ! nat (cy + 1) ! nat (cx + 1))) ps)))"
proof (induction ps arbitrary: a b)
  case (Cons p ps)
  obtain cy cx where p: "p = (cy, cx)" by (cases p)
  show ?case by (simp only: p fold_Cons comp_def prod.case sobel_cell_step [OF assms] Cons.IH list.map sum_list.Cons add.assoc)
qed simp

lemma sobel_body_write:
  assumes "wf_image img" and "x < width img" and "y < height img"
  shows "sobel_body (data img) (width img) (height img) x y d
         = write_px (y * width img + x)
             (u8_clamped (clamp (sqrt ((sobel_grad sobelX img x y)\<^sup>2 + (sobel_grad sobelY img x y)\<^sup>2))),
              u8_clamped (clamp (sqrt ((sobel_grad sobelX img x y)\<^sup>2 + (sobel_grad sobelY img x y)\<^sup>2))),
              u8_clamped (clamp (sqrt ((sobel_grad sobelX img x y)\<^sup>2 + (sobel_grad sobelY img x y)\<^sup>2))), 255) d"
proof -
  have F: "fold (\<lambda>cy. fold (\<lambda>cx. sobel_cell (data img) (width img) (height img) x y cy cx) (window 1)) (window 1) (Some 0, Some 0)
        = (Some (sobel_grad sobelX img x y), Some (sobel_grad sobelY img x y))"
    unfolding cells_fold fold_sobel_cell [OF assms] by (simp add: sobel_grad_def)
  show ?thesis
    unfolding sobel_body_def F Let_def prod.case nan2_simps option.map store_Some power2_eq_square
    by (simp only: write_px_rev)
qed

lemma sobel_pass_ref:
  assumes "wf_image img"
  shows "sobel_pass img = sobel_ref img"
proof -
  let ?v = "\<lambda>x y c. u8_clamped (clamp (sqrt ((sobel_grad sobelX img x y)\<^sup>2 + (sobel_grad sobelY img x y)\<^sup>2)))"
  have "for_grid (height img) (width img) (sobel_body (data img) (width img) (height img))
          (replicate (4 * width img * height img) 0)
        = map (\<lambda>i. if i mod 4 = 3 then 255 else ?v (i div 4 mod width img) (i div 4 div width img) (i mod 4))
              [0..<length (data img)]"
    using assms by (rule for_grid_row_major) (simp add: sobel_body_write [OF assms])
  then show ?thesis by (simp add: sobel_pass_def sobel_ref_def Let_def createImageData_def)
qed

lemma gauss3_normalised: "square_odd gauss3" "sum_list (map sum_list gauss3) = 1"
  by (simp_all add: square_odd_def gauss3_def)

lemma gauss5_normalised: "square_odd gauss5" "sum_list (map sum_list gauss5) = 1"
  by (simp_all add: square_odd_def gauss5_def)

lemma conv_cell_cases:
  "conv_cell matrix half src w h x y cy cx s = Inl TypeError \<or> (\<exists>s'. conv_cell matrix half src w h x y cy cx s = Inr s')"
  by (cases "nth_opt matrix (nat (cy + int half))") (simp only: conv_cell_def Let_def option.case; blast)+

subsection \<open>Properties\<close>

lemma acc3_nan_stays: "fold (\<lambda>p. acc3 src (I p) (W p)) ps (None, None, None) = (None, None, None)"
  by (induction ps) (simp_all add: acc3_def nan2_def)

lemma acc3_nan:
  assumes "p \<in> set ps" and "W p = None"
  shows "fold (\<lambda>p. acc3 src (I p) (W p)) ps s = (None, None, None)"
  using assms
proof (induction ps arbitrary: s)
  case (Cons q ps)
  show ?case
  proof (cases "q = p")
    case True
    then have "acc3 src (I q) (W q) s = (None, None, None)"
      using Cons.prems(2) by (simp add: acc3_def nan2_def split: prod.split option.split)
    then show ?thesis by (simp add: acc3_nan_stays)
  next
    case False
    then show ?thesis using Cons by simp
  qed
qed simp

lemma conv_cell_rows:
  assumes "odd (length matrix)" and "cy \<in> {- int (length matrix div 2)..int (length matrix div 2)}"
  shows "conv_cell matrix (length matrix div 2) src w h x y cy cx s
         = Inr (acc3 src ((clampIndex (int y + cy) 0 (int h - 1) * int w + clampIndex (int x + cx) 0 (int w - 1)) * 4)
                (nth_opt (matrix ! nat (cy + int (length matrix div 2))) (nat (cx + int (length matrix div 2)))) s)"
proof -
  have o: "2 * (length matrix div 2) + 1 = length matrix" using assms(1) by simp
  have "nat (cy + int (length matrix div 2)) < length matrix"
    using assms(2) o by (simp add: nat_less_iff)
  then show ?thesis by (simp add: conv_cell_def Let_def)
qed

lemma conv_body_ragged:
  assumes "odd (length matrix)" and "row \<in> set matrix" and "length row < length matrix"
  shows "conv_body matrix (length matrix div 2) src w h x y d = Inr (write_px (y * w + x) (0, 0, 0, 255) d)"
proof -
  let ?n = "length matrix" let ?k = "?n div 2"
  let ?I = "\<lambda>(cy, cx). (clampIndex (int y + cy) 0 (int h - 1) * int w + clampIndex (int x + cx) 0 (int w - 1)) * 4"
  let ?W = "\<lambda>(cy, cx). nth_opt (matrix ! nat (cy + int ?k)) (nat (cx + int ?k))"
  have odd: "2 * ?k + 1 = ?n" using assms(1) by simp
  obtain i where i: "i < ?n" and r: "matrix ! i = row" using assms(2) by (auto simp: in_set_conv_nth)
  let ?p = "(int i - int ?k, int ?k)"
  have p: "?p \<in> set (cells ?k)" using i odd by auto
  have wp: "?W ?p = None" using i r odd assms(3) by simp
  have inner: "\<And>cy s. cy \<in> set (window ?k) \<Longrightarrow>
      fold_err (\<lambda>cx. conv_cell matrix ?k src w h x y cy cx) (window ?k) s
      = Inr (fold (\<lambda>cx. acc3 src (?I (cy, cx)) (?W (cy, cx))) (window ?k) s)"
    by (rule fold_err_Inr) (use conv_cell_rows [OF assms(1)] in simp)
  have "fold_err (\<lambda>cy. fold_err (\<lambda>cx. conv_cell matrix ?k src w h x y cy cx) (window ?k)) (window ?k)
          (Some 0, Some 0, Some 0)
        = Inr (fold (\<lambda>cy. fold (\<lambda>cx. acc3 src (?I (cy, cx)) (?W (cy, cx))) (window ?k)) (window ?k) (Some 0, Some 0, Some 0))"
    by (rule fold_err_Inr) (rule inner)
  also have "\<dots> = Inr (None, None, None)"
    unfolding cells_fold using acc3_nan [of ?p "cells ?k" ?W src ?I, OF p wp]
    by (simp add: case_prod_unfold)
  finally show ?thesis by (simp add: conv_body_def write_px_def mult.commute Let_def)
qed

text \<open>C3: For a square kernel of odd size the loop of \<open>applyConvolutionMatrix\<close>
  succeeds and computes the spec's ApplyKernel: each colour sample is the clamped,
  stored sum of the kernel weights times the edge-clamped neighbours, alpha 255.\<close>

theorem applyConvolutionMatrix_ref:
  assumes "square_odd matrix" and "wf_image img"
  shows "applyConvolutionMatrix matrix img = Inr (kernel_apply matrix img)"
  using conv_loop_ref [OF assms]
  by (simp add: applyConvolutionMatrix_def Let_def createImageData_def kernel_apply_def)

theorem applyConvolutionMatrix_ref_witness:
  "square_odd gauss3 \<and> wf_image \<lparr>width = 2, height = 1, data = [10, 20, 30, 40, 50, 60, 70, 80]\<rparr> \<and> applyConvolutionMatrix gauss3 \<lparr>width = 2, height = 1, data = [10, 20, 30, 40, 50, 60, 70, 80]\<rparr> = Inr (kernel_apply gauss3 \<lparr>width = 2, height = 1, data = [10, 20, 30, 40, 50, 60, 70, 80]\<rparr>)"
  using applyConvolutionMatrix_ref [of gauss3 "\<lparr>width = 2, height = 1, data = [10, 20, 30, 40, 50, 60, 70, 80]\<rparr>"] by (simp add: gauss3_normalised wf_image_def)

text \<open>C13: A uniform image is a fixed point, up to alpha 255, of every normalised
  square odd kernel (spec section 8, scenario 2; the witness is that scenario, a 4x4
  mid-gray image under \<open>gauss3\<close>).\<close>

theorem applyConvolutionMatrix_uniform:
  assumes "square_odd matrix" and "sum_list (map sum_list matrix) = 1"
    and "wf_image img" and "uniform img r g b"
  shows "applyConvolutionMatrix matrix img = Inr (opaque img)"
proof -
  have "kernel_apply matrix img = opaque img"
  proof (rule image_eqI_px)
    fix x y c :: nat
    assume b: "x < width (kernel_apply matrix img)" "y < height (kernel_apply matrix img)" "c < 4"
    then have b': "x < width img" "y < height img" by simp_all
    have "px (kernel_apply matrix img) x y c = (if c = 3 then 255 else u8_clamped (clamp (conv_sum matrix img x y c)))"
      unfolding kernel_apply_def
      using px_map_data [OF assms(3) b' b(3), of "\<lambda>x y c. if c = 3 then 255 else u8_clamped (clamp (conv_sum matrix img x y c))"]
      by simp
    also have "\<dots> = px (opaque img) x y c"
    proof (cases "c = 3")
      case False
      with b(3) have c: "c < 3" by simp
      have "real (unat ([r, g, b] ! c)) \<le> 255" using unat_le_255 [of "[r, g, b] ! c"] by linarith
      then show ?thesis using False c b' assms
        by (simp add: conv_sum_uniform px_opaque px_uniform)
    qed (use b' b(3) assms(3) in \<open>simp add: px_opaque\<close>)
    finally show "px (kernel_apply matrix img) x y c = px (opaque img) x y c" .
  qed (use assms(3) in simp_all)
  then show ?thesis using conv_loop_ref [OF assms(1,3)]
    by (simp add: applyConvolutionMatrix_def Let_def createImageData_def kernel_apply_def)
qed

theorem applyConvolutionMatrix_uniform_witness:
  "square_odd gauss3 \<and> sum_list (map sum_list gauss3) = 1
   \<and> wf_image \<lparr>width = 4, height = 4, data = concat (replicate 16 [128, 128, 128, 255])\<rparr> \<and> uniform \<lparr>width = 4, height = 4, data = concat (replicate 16 [128, 128, 128, 255])\<rparr> 128 128 128
   \<and> applyConvolutionMatrix gauss3 \<lparr>width = 4, height = 4, data = concat (replicate 16 [128, 128, 128, 255])\<rparr> = Inr (opaque \<lparr>width = 4, height = 4, data = concat (replicate 16 [128, 128, 128, 255])\<rparr>)"
  using applyConvolutionMatrix_uniform [of gauss3 "\<lparr>width = 4, height = 4, data = concat (replicate 16 [128, 128, 128, 255])\<rparr>" 128 128 128]
  by (simp add: gauss3_normalised wf_image_def length_concat sum_list_replicate)

text \<open>C17: A kernel of even size (the empty kernel included) is not rejected up
  front: on any non-empty image the loop indexes the missing row
  \<open>matrix[size]\<close> and throws \<open>TypeError\<close>.\<close>

theorem applyConvolutionMatrix_even:
  assumes "even (length matrix)" and "0 < width img" and "0 < height img"
  shows "applyConvolutionMatrix matrix img = Inl TypeError"
proof -
  let ?k = "length matrix div 2" and ?src = "data img" and ?w = "width img" and ?h = "height img"
  have "?k + ?k = length matrix" using assms(1) by (metis even_two_times_div_two mult_2)
  then have e: "nat (int ?k + int ?k) = length matrix" by (simp only: of_nat_add [symmetric] nat_int)
  have last: "\<And>x y cx s. conv_cell matrix ?k ?src ?w ?h x y (int ?k) cx s = Inl TypeError"
    by (simp only: conv_cell_def Let_def e nth_opt_None [OF order_refl] option.case)
  have k: "int ?k \<in> set (window ?k)" by simp
  have row: "\<And>x y cy s. fold_err (\<lambda>cx. conv_cell matrix ?k ?src ?w ?h x y cy cx) (window ?k) s = Inl TypeError
                  \<or> (\<exists>s'. fold_err (\<lambda>cx. conv_cell matrix ?k ?src ?w ?h x y cy cx) (window ?k) s = Inr s')"
    by (rule fold_err_cases) (rule conv_cell_cases)
  have inner: "\<And>x y s. fold_err (\<lambda>cx. conv_cell matrix ?k ?src ?w ?h x y (int ?k) cx) (window ?k) s = Inl TypeError"
    by (rule fold_err_Inl [where z = "int ?k"]) (rule conv_cell_cases, rule k, rule last)
  have "\<And>x y. fold_err (\<lambda>cy. fold_err (\<lambda>cx. conv_cell matrix ?k ?src ?w ?h x y cy cx) (window ?k)) (window ?k)
                 (Some 0, Some 0, Some 0) = Inl TypeError"
    by (rule fold_err_Inl [where z = "int ?k"]) (rule row, rule k, rule inner)
  then have "\<And>d. conv_body matrix ?k ?src ?w ?h 0 0 d = Inl TypeError" by (simp add: conv_body_def)
  then have "for_grid_err ?h ?w (conv_body matrix ?k ?src ?w ?h) (data (createImageData ?w ?h)) = Inl TypeError"
    using assms(2,3) by (intro for_grid_err_Inl)
  then show ?thesis by (simp add: applyConvolutionMatrix_def Let_def)
qed

theorem applyConvolutionMatrix_even_witness:
  "even (length [[1, 1], [1, 1 :: real]]) \<and> 0 < width \<lparr>width = 2, height = 1, data = [10, 20, 30, 40, 50, 60, 70, 80]\<rparr> \<and> 0 < height \<lparr>width = 2, height = 1, data = [10, 20, 30, 40, 50, 60, 70, 80]\<rparr>
   \<and> applyConvolutionMatrix [[1, 1], [1, 1]] \<lparr>width = 2, height = 1, data = [10, 20, 30, 40, 50, 60, 70, 80]\<rparr> = Inl TypeError"
  using applyConvolutionMatrix_even [of "[[1, 1], [1, 1]]" "\<lparr>width = 2, height = 1, data = [10, 20, 30, 40, 50, 60, 70, 80]\<rparr>"] by simp

text \<open>C4: \<open>applySobel\<close> computes the spec's Sobel operator on the grayscale
  image: each colour sample the clamped, stored gradient magnitude
  \<open>sqrt(Gx\<^sup>2 + Gy\<^sup>2)\<close> of the edge-clamped gray neighbourhood, the same value in
  R, G and B, alpha 255.\<close>

theorem applySobel_ref:
  assumes "wf_image img"
  shows "applySobel img = sobel_ref (toGray img)"
  using sobel_pass_ref [OF wf_toGray [OF assms]] by (simp add: applySobel_def)

theorem applySobel_ref_witness:
  "wf_image \<lparr>width = 2, height = 1, data = [10, 20, 30, 40, 50, 60, 70, 80]\<rparr> \<and> applySobel \<lparr>width = 2, height = 1, data = [10, 20, 30, 40, 50, 60, 70, 80]\<rparr> = sobel_ref (toGray \<lparr>width = 2, height = 1, data = [10, 20, 30, 40, 50, 60, 70, 80]\<rparr>)"
  using applySobel_ref [of "\<lparr>width = 2, height = 1, data = [10, 20, 30, 40, 50, 60, 70, 80]\<rparr>"] by (simp add: wf_image_def)

text \<open>C30: A kernel of odd height with a row shorter than the kernel (not square) is not
  rejected: every pixel reads an undefined weight, its sums are NaN, and the result is
  an image of the source's size with every colour sample 0 and alpha 255.\<close>

theorem applyConvolutionMatrix_ragged:
  assumes "odd (length matrix)" and "row \<in> set matrix" and "length row < length matrix"
    and "wf_image img"
  shows "applyConvolutionMatrix matrix img
         = Inr \<lparr>width = width img, height = height img,
                data = map (\<lambda>i. if i mod 4 = 3 then 255 else 0) [0..<4 * width img * height img]\<rparr>"
proof -
  have body: "\<And>x y d. x < width img \<Longrightarrow> y < height img \<Longrightarrow>
      conv_body matrix (length matrix div 2) (data img) (width img) (height img) x y d
      = Inr (write_px (y * width img + x) (0, 0, 0, 255) d)"
    using assms(1-3) by (rule conv_body_ragged)
  show ?thesis
    using for_grid_err_Inr [OF body] for_grid_row_major [OF assms(4), of "\<lambda>x y. write_px (y * width img + x) (0, 0, 0, 255)" "\<lambda>_ _ _. 0"] assms(4)
    by (simp add: applyConvolutionMatrix_def Let_def createImageData_def wf_image_def)
qed

theorem applyConvolutionMatrix_ragged_witness:
  "odd (length [[1], [1], [1 :: real]]) \<and> [1] \<in> set [[1], [1], [1 :: real]]
   \<and> length [1 :: real] < length [[1], [1], [1 :: real]] \<and> wf_image \<lparr>width = 2, height = 1, data = [10, 20, 30, 40, 50, 60, 70, 80]\<rparr>
   \<and> applyConvolutionMatrix [[1], [1], [1]] \<lparr>width = 2, height = 1, data = [10, 20, 30, 40, 50, 60, 70, 80]\<rparr>
     = Inr \<lparr>width = width \<lparr>width = 2, height = 1, data = [10, 20, 30, 40, 50, 60, 70, 80]\<rparr>, height = height \<lparr>width = 2, height = 1, data = [10, 20, 30, 40, 50, 60, 70, 80]\<rparr>,
            data = map (\<lambda>i. if i mod 4 = 3 then 255 else 0) [0..<4 * width \<lparr>width = 2, height = 1, data = [10, 20, 30, 40, 50, 60, 70, 80]\<rparr> * height \<lparr>width = 2, height = 1, data = [10, 20, 30, 40, 50, 60, 70, 80]\<rparr>]\<rparr>"
proof -
  have h: "odd (length [[1], [1], [1 :: real]])" "[1] \<in> set [[1], [1], [1 :: real]]"
    "length [1 :: real] < length [[1], [1], [1 :: real]]" "wf_image \<lparr>width = 2, height = 1, data = [10, 20, 30, 40, 50, 60, 70, 80]\<rparr>" by (simp_all add: wf_image_def)
  show ?thesis
    by (rule conjI [OF h(1) conjI [OF h(2) conjI [OF h(3) conjI [OF h(4) applyConvolutionMatrix_ragged [OF h]]]]])
qed

end
