(* ===== verification/Histogram.thy ===== *)
theory Histogram
  imports Buffer
begin

text \<open>
  The analytic part of \<open>drawHistogram()\<close> (\<open>src/script.js\<close> lines 398-490): the
  three 256-entry count arrays filled by one pass over the samples (lines 419-430), the
  joint maximum \<open>maxAll\<close> (lines 433-436) and the points of the three polylines
  the function strokes (lines 447-487).  The canvas drawing calls themselves
  (\<open>fillRect\<close>, \<open>moveTo\<close>, \<open>lineTo\<close>, \<open>stroke\<close>) are presentation and are
  represented only by the point lists they receive.
\<close>

type_synonym counts = "nat list"

text \<open>\<open>histR[data[i]]++; histG[data[i + 1]]++; histB[data[i + 2]]++\<close> (lines 427-429),
  with \<open>d\<close> for the sample array \<open>data\<close>.
  A sample is a byte, so the index is always one of the 256 cells.\<close>

definition hist_body :: "u8 list \<Rightarrow> nat \<Rightarrow> counts \<times> counts \<times> counts \<Rightarrow> counts \<times> counts \<times> counts" where
  "hist_body d i h =
     (case h of (histR, histG, histB) \<Rightarrow>
        (histR[unat (d ! i) := histR ! unat (d ! i) + 1],
         histG[unat (d ! (i + 1)) := histG ! unat (d ! (i + 1)) + 1],
         histB[unat (d ! (i + 2)) := histB ! unat (d ! (i + 2)) + 1]))"

text \<open>The counting pass, lines 420-430: three arrays of 256 zeros and the stride-4 loop.\<close>

definition hist_counts :: "image \<Rightarrow> counts \<times> counts \<times> counts" where
  "hist_counts imageData =
     (let d = data imageData
      in step4_loop (hist_body d) (length d) 0 (replicate 256 0, replicate 256 0, replicate 256 0))"

text \<open>\<open>Math.max(...xs)\<close> on a non-empty array of counts.\<close>

definition js_max :: "nat list \<Rightarrow> nat" where
  "js_max xs = fold max xs 0"

text \<open>\<open>maxAll = Math.max(maxR, maxG, maxB)\<close> (lines 433-436).\<close>

definition hist_max :: "counts \<times> counts \<times> counts \<Rightarrow> nat" where
  "hist_max h = (case h of (histR, histG, histB) \<Rightarrow> max (max (js_max histR) (js_max histG)) (js_max histB))"

text \<open>Division of Numbers: a zero divisor gives NaN (\<open>0 / 0\<close>) or an infinity, neither
  a finite coordinate; \<open>None\<close> stands for both.\<close>

definition js_div :: "real \<Rightarrow> real \<Rightarrow> jsnum" where
  "js_div a b = (if b = 0 then None else Some (a / b))"

text \<open>The points of one channel's polyline (lines 448-460): point \<open>i\<close> is
  \<open>(i * barWidth, histH - (hist[i] / maxAll) * histH)\<close>, \<open>barWidth = histW / 256\<close>.\<close>

definition hist_polyline :: "real \<Rightarrow> real \<Rightarrow> nat \<Rightarrow> counts \<Rightarrow> (real \<times> jsnum) list" where
  "hist_polyline histW histH maxAll hist =
     (let barWidth = histW / 256
      in map (\<lambda>i. let h = nan2 (*) (js_div (real (hist ! i)) (real maxAll)) (Some histH)
                   in (real i * barWidth, nan2 (-) (Some histH) h)) [0..<256])"

text \<open>\<open>drawHistogram()\<close> on the current image and a histogram canvas of size
  \<open>histW \<times> histH\<close>: the red, green and blue polylines it strokes.\<close>

definition drawHistogram :: "real \<Rightarrow> real \<Rightarrow> image \<Rightarrow> (real \<times> jsnum) list \<times> (real \<times> jsnum) list \<times> (real \<times> jsnum) list" where
  "drawHistogram histW histH imageData =
     (let hs = hist_counts imageData; maxAll = hist_max hs
      in case hs of (histR, histG, histB) \<Rightarrow>
           (hist_polyline histW histH maxAll histR, hist_polyline histW histH maxAll histG,
            hist_polyline histW histH maxAll histB))"

subsection \<open>Reference semantics\<close>

text \<open>The spec's histogram of channel \<open>c\<close>: entry \<open>v\<close> is the number of pixels whose
  channel \<open>c\<close> is \<open>v\<close>.\<close>

definition chan_values :: "nat \<Rightarrow> u8 list \<Rightarrow> nat list" where
  "chan_values c d = map (\<lambda>k. unat (d ! (4 * k + c))) [0..<length d div 4]"

definition hist_ref :: "nat \<Rightarrow> u8 list \<Rightarrow> counts" where
  "hist_ref c d = map (count_list (chan_values c d)) [0..<256]"

text \<open>The spec's joint scale: the largest count over the three channels, and the
  curve of channel \<open>c\<close>: point \<open>v\<close> at height \<open>histH - count / scale * histH\<close>.\<close>

definition hist_scale :: "u8 list \<Rightarrow> nat" where
  "hist_scale d = Max (set (hist_ref 0 d @ hist_ref 1 d @ hist_ref 2 d))"

definition polyline_ref :: "real \<Rightarrow> real \<Rightarrow> nat \<Rightarrow> u8 list \<Rightarrow> (real \<times> jsnum) list" where
  "polyline_ref histW histH c d =
     map (\<lambda>v. (real v * (histW / 256),
               Some (histH - real (count_list (chan_values c d) v) / real (hist_scale d) * histH))) [0..<256]"

subsection \<open>Lemmas\<close>

lemma fold_hist_body:
  "fold (\<lambda>k. hist_body d (4 * k)) ks (a, b, c)
   = (fold (\<lambda>k h. h[unat (d ! (4 * k)) := h ! unat (d ! (4 * k)) + 1]) ks a,
      fold (\<lambda>k h. h[unat (d ! (4 * k + 1)) := h ! unat (d ! (4 * k + 1)) + 1]) ks b,
      fold (\<lambda>k h. h[unat (d ! (4 * k + 2)) := h ! unat (d ! (4 * k + 2)) + 1]) ks c)"
  by (induction ks arbitrary: a b c) (simp_all add: hist_body_def)

lemma fold_count_zero:
  "fold (\<lambda>k h. h[unat (d ! (4 * k + c)) := h ! unat (d ! (4 * k + c)) + 1]) [0..<length d div 4] (replicate 256 0)
   = hist_ref c d"
proof -
  have "fold (\<lambda>k h. h[unat (d ! (4 * k + c)) := h ! unat (d ! (4 * k + c)) + 1]) [0..<length d div 4] (replicate 256 0)
        = map (\<lambda>v. replicate 256 0 ! v + count_list (map (\<lambda>k. unat (d ! (4 * k + c))) [0..<length d div 4]) v)
              [0..<length (replicate 256 (0::nat))]"
    by (rule fold_count) simp
  also have "\<dots> = hist_ref c d"
    unfolding hist_ref_def chan_values_def by (intro map_cong) simp_all
  finally show ?thesis .
qed

lemma hist_counts_loop:
  assumes "length (data img) mod 4 = 0"
  shows "hist_counts img = (hist_ref 0 (data img), hist_ref 1 (data img), hist_ref 2 (data img))"
proof -
  have n: "(length (data img) + 3) div 4 = length (data img) div 4" using assms by arith
  have z: "\<And>k::nat. 4 * k + 0 = 4 * k" by simp
  show ?thesis
    using fold_count_zero [of "data img" 0, unfolded z]
    by (simp only: hist_counts_def Let_def step4_loop_fold diff_zero n add_0 fold_hist_body fold_count_zero)
qed

lemma sum_hist_ref: "sum_list (hist_ref c d) = length d div 4"
proof -
  have "set (chan_values c d) \<subseteq> {0..<256::nat}"
    by (auto simp: chan_values_def)
  then have "sum (count_list (chan_values c d)) {0..<256} = length (chan_values c d)"
    by (rule sum_count_set) (rule finite_atLeastLessThan)
  then show ?thesis by (simp add: hist_ref_def sum_set_upt_conv_sum_list_nat [symmetric] chan_values_def)
qed


lemma fold_max_ge: "x \<in> set xs \<Longrightarrow> x \<le> fold max xs a" and fold_max_ge_start: "a \<le> fold max xs (a::nat)"
proof (induction xs arbitrary: a)
  case (Cons y ys)
  { case 1 then show ?case using Cons.IH(1) Cons.IH(2) [of "max y a"] by (auto simp: max_def) }
  { case 2 then show ?case using Cons.IH(2) [of "max y a"] by simp }
qed simp_all

lemma length_hist_ref [simp]: "length (hist_ref c d) = 256"
  by (simp add: hist_ref_def)

lemma sum_pos_member: "0 < sum_list (xs :: nat list) \<Longrightarrow> \<exists>x \<in> set xs. 0 < x"
  by (induction xs) auto

text \<open>Each point of a polyline scaled by a maximum that bounds every count lies between
  the top and the bottom of the histogram canvas.\<close>

lemma hist_polyline_bounds:
  assumes "0 < m" and "\<And>i. i < 256 \<Longrightarrow> hist ! i \<le> m" and "0 \<le> histH"
  shows "list_all (\<lambda>(x, y). \<exists>y'. y = Some y' \<and> 0 \<le> y' \<and> y' \<le> histH) (hist_polyline histW histH m hist)"
proof -
  have "\<And>i. i < 256 \<Longrightarrow> 0 \<le> histH - real (hist ! i) / real m * histH \<and> histH - real (hist ! i) / real m * histH \<le> histH"
  proof -
    fix i :: nat assume "i < 256"
    then have f: "0 \<le> real (hist ! i) / real m" "real (hist ! i) / real m \<le> 1"
      using assms(1,2) by simp_all
    have "real (hist ! i) / real m * histH \<le> histH" by (rule mult_left_le_one_le [OF assms(3) f])
    moreover have "0 \<le> real (hist ! i) / real m * histH" using f(1) assms(3) by simp
    ultimately show "0 \<le> histH - real (hist ! i) / real m * histH \<and> histH - real (hist ! i) / real m * histH \<le> histH"
      by simp
  qed
  then show ?thesis using assms(1) by (auto simp: hist_polyline_def list_all_iff js_div_def Let_def)
qed

lemma hist_max_bounds:
  assumes "length d div 4 > 0"
  shows "0 < hist_max (hist_ref 0 d, hist_ref 1 d, hist_ref 2 d)"
    and "\<And>c i. c < 3 \<Longrightarrow> i < 256 \<Longrightarrow> hist_ref c d ! i \<le> hist_max (hist_ref 0 d, hist_ref 1 d, hist_ref 2 d)"
proof -
  let ?m = "hist_max (hist_ref 0 d, hist_ref 1 d, hist_ref 2 d)"
  have ge: "\<And>c. c < 3 \<Longrightarrow> js_max (hist_ref c d) \<le> ?m"
  proof -
    fix c :: nat assume "c < 3"
    then consider "c = 0" | "c = 1" | "c = 2" by arith
    then show "js_max (hist_ref c d) \<le> ?m" by cases (simp_all add: hist_max_def)
  qed
  show "\<And>c i. c < 3 \<Longrightarrow> i < 256 \<Longrightarrow> hist_ref c d ! i \<le> ?m"
    using ge fold_max_ge by (metis js_max_def length_hist_ref nth_mem order_trans)
  obtain x where "x \<in> set (hist_ref 0 d)" "0 < x"
    using sum_pos_member [of "hist_ref 0 d"] assms by (auto simp: sum_hist_ref)
  then show "0 < ?m" using fold_max_ge [of x "hist_ref 0 d" 0] ge [of 0] by (simp add: js_max_def)
qed

subsection \<open>Properties\<close>

lemma js_max_Max:
  assumes "xs \<noteq> []"
  shows "js_max xs = Max (set xs)"
proof (cases xs)
  case (Cons a l)
  have "js_max xs = fold max l a" by (simp add: Cons js_max_def)
  then show ?thesis by (simp only: Cons Max.set_eq_fold)
qed (use assms in simp)

lemma hist_max_scale: "hist_max (hist_ref 0 d, hist_ref 1 d, hist_ref 2 d) = hist_scale d"
proof -
  have ne: "hist_ref c d \<noteq> []" for c using length_hist_ref [of c d] by (cases "hist_ref c d") simp_all
  show ?thesis
    by (simp add: hist_max_def hist_scale_def js_max_Max [OF ne] Max_Un ne)
qed

lemma hist_polyline_ref:
  assumes "0 < hist_scale d"
  shows "hist_polyline histW histH (hist_scale d) (hist_ref c d) = polyline_ref histW histH c d"
  using assms by (simp add: hist_polyline_def polyline_ref_def hist_ref_def js_div_def nan2_def Let_def)

text \<open>C5: The counting pass of \<open>drawHistogram\<close> computes the spec's histogram:
  entry \<open>v\<close> of the red (green, blue) array is the number of pixels whose red (green,
  blue) sample is \<open>v\<close>.\<close>

theorem hist_counts_ref:
  assumes "wf_image img"
  shows "hist_counts img = (hist_ref 0 (data img), hist_ref 1 (data img), hist_ref 2 (data img))"
  using wf_image_mod4 [OF assms] by (rule hist_counts_loop)

theorem hist_counts_ref_witness:
  "wf_image \<lparr>width = 2, height = 1, data = [10, 20, 30, 40, 50, 60, 70, 80]\<rparr> \<and> hist_counts \<lparr>width = 2, height = 1, data = [10, 20, 30, 40, 50, 60, 70, 80]\<rparr> = (hist_ref 0 (data \<lparr>width = 2, height = 1, data = [10, 20, 30, 40, 50, 60, 70, 80]\<rparr>), hist_ref 1 (data \<lparr>width = 2, height = 1, data = [10, 20, 30, 40, 50, 60, 70, 80]\<rparr>), hist_ref 2 (data \<lparr>width = 2, height = 1, data = [10, 20, 30, 40, 50, 60, 70, 80]\<rparr>))"
  using hist_counts_ref [of "\<lparr>width = 2, height = 1, data = [10, 20, 30, 40, 50, 60, 70, 80]\<rparr>"] by (simp add: wf_image_def)

text \<open>C21: Each of the three histograms counts every pixel once: its entries add up to
  \<open>width * height\<close> (spec section 8).\<close>

theorem hist_sum:
  assumes "wf_image img"
  shows "case hist_counts img of (histR, histG, histB) \<Rightarrow>
           sum_list histR = width img * height img \<and> sum_list histG = width img * height img
           \<and> sum_list histB = width img * height img"
  using hist_counts_loop [OF wf_image_mod4 [OF assms]] assms by (simp add: sum_hist_ref wf_image_def)

theorem hist_sum_witness:
  "wf_image \<lparr>width = 2, height = 1, data = [10, 20, 30, 40, 50, 60, 70, 80]\<rparr> \<and> (case hist_counts \<lparr>width = 2, height = 1, data = [10, 20, 30, 40, 50, 60, 70, 80]\<rparr> of (histR, histG, histB) \<Rightarrow>
           sum_list histR = width \<lparr>width = 2, height = 1, data = [10, 20, 30, 40, 50, 60, 70, 80]\<rparr> * height \<lparr>width = 2, height = 1, data = [10, 20, 30, 40, 50, 60, 70, 80]\<rparr> \<and> sum_list histG = width \<lparr>width = 2, height = 1, data = [10, 20, 30, 40, 50, 60, 70, 80]\<rparr> * height \<lparr>width = 2, height = 1, data = [10, 20, 30, 40, 50, 60, 70, 80]\<rparr>
           \<and> sum_list histB = width \<lparr>width = 2, height = 1, data = [10, 20, 30, 40, 50, 60, 70, 80]\<rparr> * height \<lparr>width = 2, height = 1, data = [10, 20, 30, 40, 50, 60, 70, 80]\<rparr>)"
  using hist_sum [of "\<lparr>width = 2, height = 1, data = [10, 20, 30, 40, 50, 60, 70, 80]\<rparr>"] by (simp add: wf_image_def)

text \<open>C22: On a non-empty image every point \<open>drawHistogram\<close> passes to \<open>moveTo\<close> and
  \<open>lineTo\<close> is a finite point inside the histogram canvas: its height lies between
  0 and \<open>histH\<close>, because every count is at most the joint maximum \<open>maxAll\<close>.\<close>

theorem drawHistogram_bounds:
  assumes "wf_image img" and "0 < width img * height img" and "0 \<le> histH"
  shows "case drawHistogram histW histH img of (pR, pG, pB) \<Rightarrow>
           list_all (\<lambda>(x, y). \<exists>y'. y = Some y' \<and> 0 \<le> y' \<and> y' \<le> histH) pR
           \<and> list_all (\<lambda>(x, y). \<exists>y'. y = Some y' \<and> 0 \<le> y' \<and> y' \<le> histH) pG
           \<and> list_all (\<lambda>(x, y). \<exists>y'. y = Some y' \<and> 0 \<le> y' \<and> y' \<le> histH) pB"
proof -
  let ?d = "data img"
  have n: "length ?d div 4 > 0" using assms(1,2) by (simp add: wf_image_def)
  note M = hist_max_bounds [OF n]
  have "\<And>c. c < 3 \<Longrightarrow> list_all (\<lambda>(x, y). \<exists>y'. y = Some y' \<and> 0 \<le> y' \<and> y' \<le> histH)
      (hist_polyline histW histH (hist_max (hist_ref 0 ?d, hist_ref 1 ?d, hist_ref 2 ?d)) (hist_ref c ?d))"
    using M assms(3) by (intro hist_polyline_bounds) simp_all
  from this [of 0] this [of 1] this [of 2] show ?thesis
    using hist_counts_loop [OF wf_image_mod4 [OF assms(1)]] by (simp add: drawHistogram_def Let_def)
qed


theorem drawHistogram_bounds_witness:
  "wf_image \<lparr>width = 2, height = 1, data = [10, 20, 30, 40, 50, 60, 70, 80]\<rparr> \<and> 0 < width \<lparr>width = 2, height = 1, data = [10, 20, 30, 40, 50, 60, 70, 80]\<rparr> * height \<lparr>width = 2, height = 1, data = [10, 20, 30, 40, 50, 60, 70, 80]\<rparr> \<and> (0::real) \<le> 100 \<and>
   (case drawHistogram 256 100 \<lparr>width = 2, height = 1, data = [10, 20, 30, 40, 50, 60, 70, 80]\<rparr> of (pR, pG, pB) \<Rightarrow>
           list_all (\<lambda>(x, y). \<exists>y'. y = Some y' \<and> 0 \<le> y' \<and> y' \<le> 100) pR
           \<and> list_all (\<lambda>(x, y). \<exists>y'. y = Some y' \<and> 0 \<le> y' \<and> y' \<le> 100) pG
           \<and> list_all (\<lambda>(x, y). \<exists>y'. y = Some y' \<and> 0 \<le> y' \<and> y' \<le> 100) pB)"
proof -
  have h: "wf_image \<lparr>width = 2, height = 1, data = [10, 20, 30, 40, 50, 60, 70, 80]\<rparr>" "0 < width \<lparr>width = 2, height = 1, data = [10, 20, 30, 40, 50, 60, 70, 80]\<rparr> * height \<lparr>width = 2, height = 1, data = [10, 20, 30, 40, 50, 60, 70, 80]\<rparr>" "(0::real) \<le> 100"
    by (simp_all add: wf_image_def)
  show ?thesis by (intro conjI h(1) h(2) h(3) drawHistogram_bounds [OF h])
qed

text \<open>C31: The three curves of drawHistogram share one scale, the largest count over all
  three channels (maxAll): point v of the curve of channel c is at height
  histH - count_c(v) / maxAll * histH, where count_c(v) is the number of pixels whose
  channel c is v.\<close>

theorem drawHistogram_joint:
  assumes "wf_image img" and "0 < width img * height img"
  shows "drawHistogram histW histH img
         = (polyline_ref histW histH 0 (data img), polyline_ref histW histH 1 (data img),
            polyline_ref histW histH 2 (data img))"
proof -
  let ?d = "data img"
  have n: "length ?d div 4 > 0" using assms by (simp add: wf_image_def)
  have m: "0 < hist_scale ?d" using hist_max_bounds (1) [OF n] by (simp only: hist_max_scale)
  let ?P = "\<lambda>c. hist_polyline histW histH (hist_max (hist_ref 0 ?d, hist_ref 1 ?d, hist_ref 2 ?d)) (hist_ref c ?d)"
  have D: "drawHistogram histW histH img = (?P 0, ?P 1, ?P 2)"
    using hist_counts_loop [OF wf_image_mod4 [OF assms(1)]] by (simp add: drawHistogram_def Let_def)
  show ?thesis unfolding D hist_max_scale hist_polyline_ref [OF m] ..
qed

theorem drawHistogram_joint_witness:
  "wf_image \<lparr>width = 2, height = 1, data = [10, 20, 30, 40, 50, 60, 70, 80]\<rparr> \<and> 0 < width \<lparr>width = 2, height = 1, data = [10, 20, 30, 40, 50, 60, 70, 80]\<rparr> * height \<lparr>width = 2, height = 1, data = [10, 20, 30, 40, 50, 60, 70, 80]\<rparr>
   \<and> drawHistogram 256 100 \<lparr>width = 2, height = 1, data = [10, 20, 30, 40, 50, 60, 70, 80]\<rparr>
     = (polyline_ref 256 100 0 (data \<lparr>width = 2, height = 1, data = [10, 20, 30, 40, 50, 60, 70, 80]\<rparr>), polyline_ref 256 100 1 (data \<lparr>width = 2, height = 1, data = [10, 20, 30, 40, 50, 60, 70, 80]\<rparr>), polyline_ref 256 100 2 (data \<lparr>width = 2, height = 1, data = [10, 20, 30, 40, 50, 60, 70, 80]\<rparr>))"
proof -
  have h: "wf_image \<lparr>width = 2, height = 1, data = [10, 20, 30, 40, 50, 60, 70, 80]\<rparr>" "0 < width \<lparr>width = 2, height = 1, data = [10, 20, 30, 40, 50, 60, 70, 80]\<rparr> * height \<lparr>width = 2, height = 1, data = [10, 20, 30, 40, 50, 60, 70, 80]\<rparr>" by (simp_all add: wf_image_def)
  show ?thesis by (rule conjI [OF h(1) conjI [OF h(2) drawHistogram_joint [OF h]]])
qed

end
