(* ===== verification/Session.thy ===== *)
theory Session
  imports Point Geometric Convolution Histogram
begin

text \<open>
  The session of \<open>src/script.js\<close>: the image canvas, the globals
  \<open>originalImageData\<close> and \<open>currentImageData\<close> (lines 16-19), the helpers
  \<open>getCurrentImageData\<close>/\<open>putCurrentImageData\<close> (lines 53-60), the load handler
  (lines 22-50), \<open>resetImage\<close> (lines 493-498) and the button wiring (lines
  509-582).  A handler runs in the exception-state monad \<open>'a act\<close>: it returns a
  value or the exception it throws, together with the state at that point (an
  exception is not caught anywhere, and what the handler changed before it stays
  changed).  Events are the button clicks and the load of a decoded image; \<open>step\<close>
  runs one handler, and \<open>reachable\<close> is the inductive set of states a session can
  reach from its start.
\<close>

record session =
  canvas :: image
  originalImageData :: "image option"
  currentImageData :: "image option"

type_synonym 'a act = "session \<Rightarrow> (js_error + 'a) \<times> session"

definition ret :: "'a \<Rightarrow> 'a act" where
  "ret a s = (Inr a, s)"

definition lift :: "js_error + 'a \<Rightarrow> 'a act" where
  "lift r s = (r, s)"

definition bind_act :: "'a act \<Rightarrow> ('a \<Rightarrow> 'b act) \<Rightarrow> 'b act" where
  "bind_act m f s = (case m s of (Inl e, s') \<Rightarrow> (Inl e, s') | (Inr a, s') \<Rightarrow> f a s')"

definition seq_act :: "unit act \<Rightarrow> 'b act \<Rightarrow> 'b act" where
  "seq_act m k = bind_act m (\<lambda>_. k)"

subsection \<open>The canvas\<close>

text \<open>Setting \<open>canvas.width\<close> or \<open>canvas.height\<close> converts the Number to an
  \<open>unsigned long\<close> (modulo \<open>2^32\<close>); a reflected \<open>unsigned long\<close> outside
  \<open>[0, 2^31)\<close> gives the attribute's default (300 for the width, 150 for the height).
  The bitmap is reset to transparent black, also when the value does not change.\<close>

definition canvas_dim :: "nat \<Rightarrow> int \<Rightarrow> nat" where
  "canvas_dim dflt v = (let u = v mod 2 ^ 32 in if u < 2 ^ 31 then nat u else dflt)"

definition set_width :: "int \<Rightarrow> unit act" where
  "set_width v s = (Inr (), s\<lparr>canvas := createImageData (canvas_dim 300 v) (height (canvas s))\<rparr>)"

definition set_height :: "int \<Rightarrow> unit act" where
  "set_height v s = (Inr (), s\<lparr>canvas := createImageData (width (canvas s)) (canvas_dim 150 v)\<rparr>)"

text \<open>\<open>ctx.putImageData(img, 0, 0)\<close>: the pixels of \<open>img\<close> replace the canvas
  pixels they cover, the rest of the canvas is kept.  \<open>drawImage\<close> of a decoded image
  on the cleared canvas has the same effect.\<close>

definition put_image :: "image \<Rightarrow> image \<Rightarrow> image" where
  "put_image c img =
     c\<lparr>data := map (\<lambda>i. let x = i div 4 mod width c; y = i div 4 div width c
                         in if x < width img \<and> y < height img then px img x y (i mod 4) else data c ! i)
                    [0..<length (data c)]\<rparr>"

text \<open>\<open>getCurrentImageData()\<close> (lines 53-55): \<open>getImageData\<close> of the whole canvas,
  which throws \<open>IndexSizeError\<close> when a dimension is 0.\<close>

definition getCurrentImageData :: "image act" where
  "getCurrentImageData s =
     (if width (canvas s) = 0 \<or> height (canvas s) = 0 then (Inl IndexSizeError, s) else (Inr (canvas s), s))"

text \<open>\<open>putCurrentImageData(imageData)\<close> (lines 57-60).\<close>

definition putCurrentImageData :: "image \<Rightarrow> unit act" where
  "putCurrentImageData img s =
     (Inr (), s\<lparr>canvas := put_image (canvas s) img, currentImageData := Some img\<rparr>)"

subsection \<open>Handlers\<close>

text \<open>The point transforms, \<open>flip\<close> and the Sobel gradient pass: read the canvas,
  transform, write back (e.g. \<open>toGray\<close>, lines 73-87; \<open>flip\<close>, lines 185-207).\<close>

definition run_image_op :: "(image \<Rightarrow> image) \<Rightarrow> unit act" where
  "run_image_op f = bind_act getCurrentImageData (\<lambda>imgData. putCurrentImageData (f imgData))"

text \<open>\<open>rotate90(isCW)\<close> (lines 155-182): the canvas takes the swapped dimensions
  before the result is written.\<close>

definition run_rotate90 :: "bool \<Rightarrow> unit act" where
  "run_rotate90 isCW =
     bind_act getCurrentImageData (\<lambda>srcData.
       let dstImageData = rotate90 isCW srcData
       in seq_act (set_width (int (width dstImageData)))
            (seq_act (set_height (int (height dstImageData))) (putCurrentImageData dstImageData)))"

text \<open>\<open>scaleNearest(factor)\<close> and \<open>scaleBilinear(factor)\<close> (lines 212-286): the
  engine may throw (\<open>createImageData\<close>), then the canvas takes the rounded
  dimensions \<open>dstW\<close>, \<open>dstH\<close> as the code computes them.\<close>

definition run_scale :: "(real \<Rightarrow> image \<Rightarrow> js_error + image) \<Rightarrow> real \<Rightarrow> unit act" where
  "run_scale scale factor =
     bind_act getCurrentImageData (\<lambda>srcData.
       let dstW = js_round (real (width srcData) * factor); dstH = js_round (real (height srcData) * factor)
       in bind_act (lift (scale factor srcData)) (\<lambda>dstImageData.
            seq_act (set_width dstW) (seq_act (set_height dstH) (putCurrentImageData dstImageData))))"

text \<open>\<open>applyConvolutionMatrix(matrix)\<close> (lines 309-346) in the session.\<close>

definition run_convolution :: "kernel \<Rightarrow> unit act" where
  "run_convolution matrix =
     bind_act getCurrentImageData (\<lambda>srcData.
       bind_act (lift (applyConvolutionMatrix matrix srcData)) putCurrentImageData)"

text \<open>\<open>applySobel()\<close> (lines 360-395): \<open>toGray()\<close> as a handler of its own, then
  the gradient pass on the image read back.\<close>

definition run_sobel :: "unit act" where
  "run_sobel = seq_act (run_image_op toGray) (run_image_op sobel_pass)"

text \<open>\<open>drawHistogram()\<close> (lines 398-490) reads the canvas and draws on the
  histogram canvas only.\<close>

definition run_histogram :: "unit act" where
  "run_histogram = bind_act getCurrentImageData (\<lambda>_. ret ())"

text \<open>\<open>resetImage()\<close> (lines 493-498).\<close>

definition resetImage :: "unit act" where
  "resetImage s =
     (case originalImageData s of
        None \<Rightarrow> (Inr (), s)
      | Some orig \<Rightarrow>
          seq_act (set_width (int (width orig)))
            (seq_act (set_height (int (height orig))) (putCurrentImageData orig)) s)"

text \<open>The \<open>onload\<close> handler of the decoded image (lines 29-46): resize the canvas,
  draw the image, then read the canvas twice, into \<open>currentImageData\<close> and into
  \<open>originalImageData\<close>.\<close>

definition load_image :: "image \<Rightarrow> unit act" where
  "load_image img =
     seq_act (set_width (int (width img)))
       (seq_act (set_height (int (height img)))
         (\<lambda>s. bind_act getCurrentImageData (\<lambda>cur.
                bind_act getCurrentImageData (\<lambda>orig s.
                  (Inr (), s\<lparr>currentImageData := Some cur, originalImageData := Some orig\<rparr>)))
              (s\<lparr>canvas := put_image (canvas s) img\<rparr>)))"

subsection \<open>Events and steps\<close>

text \<open>The buttons of lines 509-582 and the load of a decoded image.  The values
  \<open>parseInt\<close> reads from the input fields are integers, those of
  \<open>parseFloat\<close> reals.\<close>

datatype event =
    Load image
  | BtnGray | BtnBinarize int | BtnBrighten int | BtnDarken int | BtnContrast real
  | BtnColorAdjust int int int | BtnNegative | BtnRotateCW | BtnRotateCCW | BtnFlipH | BtnFlipV
  | BtnScaleUpNoSmooth | BtnScaleDownNoSmooth | BtnScaleUpSmooth | BtnScaleDownSmooth
  | BtnScaleAny real | BtnGauss3 | BtnGauss5 | BtnSobel | BtnHistogram | BtnReset

fun handler :: "event \<Rightarrow> unit act" where
  "handler (Load img) = load_image img"
| "handler BtnGray = run_image_op toGray"
| "handler (BtnBinarize threshold) = run_image_op (toBlackAndWhite (of_int threshold))"
| "handler (BtnBrighten val) = run_image_op (changeBrightness (of_int val))"
| "handler (BtnDarken val) = run_image_op (changeBrightness (of_int (- val)))"
| "handler (BtnContrast factor) = run_image_op (changeContrast factor)"
| "handler (BtnColorAdjust r g b) = run_image_op (adjustRGB (of_int r) (of_int g) (of_int b))"
| "handler BtnNegative = run_image_op negative"
| "handler BtnRotateCW = run_rotate90 True"
| "handler BtnRotateCCW = run_rotate90 False"
| "handler BtnFlipH = run_image_op (flip True)"
| "handler BtnFlipV = run_image_op (flip False)"
| "handler BtnScaleUpNoSmooth = run_scale scaleNearest 2"
| "handler BtnScaleDownNoSmooth = run_scale scaleNearest (1 / 2)"
| "handler BtnScaleUpSmooth = run_scale scaleBilinear 2"
| "handler BtnScaleDownSmooth = run_scale scaleBilinear (1 / 2)"
| "handler (BtnScaleAny factor) = run_scale scaleAny factor"
| "handler BtnGauss3 = run_convolution gauss3"
| "handler BtnGauss5 = run_convolution gauss5"
| "handler BtnSobel = run_sobel"
| "handler BtnHistogram = run_histogram"
| "handler BtnReset = resetImage"

text \<open>One event: the state after the handler, and the exception it threw, if any.\<close>

definition step :: "session \<Rightarrow> event \<Rightarrow> session \<times> js_error option" where
  "step s e = (case handler e s of (Inl err, s') \<Rightarrow> (s', Some err) | (Inr _, s') \<Rightarrow> (s', None))"

text \<open>The page starts with an empty canvas of its HTML size and no image.\<close>

definition init_session :: "nat \<Rightarrow> nat \<Rightarrow> session" where
  "init_session w h = \<lparr>canvas = createImageData w h, originalImageData = None, currentImageData = None\<rparr>"

text \<open>The sizes the canvas API takes are Web IDL \<open>long\<close>s: the model covers
  dimensions below \<open>2^31\<close>.\<close>

definition dim_ok :: "int \<Rightarrow> bool" where
  "dim_ok v \<longleftrightarrow> v < 2 ^ 31"

text \<open>The scale factor of a scaling button.\<close>

fun scale_factor :: "event \<Rightarrow> real option" where
  "scale_factor BtnScaleUpNoSmooth = Some 2"
| "scale_factor BtnScaleDownNoSmooth = Some (1 / 2)"
| "scale_factor BtnScaleUpSmooth = Some 2"
| "scale_factor BtnScaleDownSmooth = Some (1 / 2)"
| "scale_factor (BtnScaleAny factor) = Some factor"
| "scale_factor _ = None"

text \<open>The inputs the page can receive in state \<open>s\<close>: a decoded image is well formed
  with positive dimensions; a scale factor is positive and keeps the dimensions in
  range.\<close>

fun valid_event :: "session \<Rightarrow> event \<Rightarrow> bool" where
  "valid_event s (Load img) \<longleftrightarrow> wf_image img \<and> 0 < width img \<and> 0 < height img
     \<and> dim_ok (int (width img)) \<and> dim_ok (int (height img))"
| "valid_event s e \<longleftrightarrow> (case scale_factor e of None \<Rightarrow> True
     | Some f \<Rightarrow> 0 < f \<and> dim_ok (js_round (real (width (canvas s)) * f))
                \<and> dim_ok (js_round (real (height (canvas s)) * f)))"

inductive reachable :: "nat \<Rightarrow> nat \<Rightarrow> session \<Rightarrow> bool" for w h where
  start: "reachable w h (init_session w h)"
| step: "reachable w h s \<Longrightarrow> valid_event s e \<Longrightarrow> reachable w h (fst (step s e))"

text \<open>A run of events from a state, and the condition that each of them is valid in
  the state it meets.\<close>

fun run_events :: "session \<Rightarrow> event list \<Rightarrow> session" where
  "run_events s [] = s"
| "run_events s (e # es) = run_events (fst (step s e)) es"

fun valid_run :: "session \<Rightarrow> event list \<Rightarrow> bool" where
  "valid_run s [] = True"
| "valid_run s (e # es) \<longleftrightarrow> valid_event s e \<and> valid_run (fst (step s e)) es"

fun is_load :: "event \<Rightarrow> bool" where
  "is_load (Load _) = True"
| "is_load _ = False"

text \<open>The invariant of a session: the canvas is a well-formed non-empty bitmap of
  in-range size, \<open>currentImageData\<close> is what the canvas shows, and the original is a
  well-formed non-empty image of in-range size.\<close>

definition good_image :: "image \<Rightarrow> bool" where
  "good_image img \<longleftrightarrow> wf_image img \<and> 0 < width img \<and> 0 < height img
     \<and> dim_ok (int (width img)) \<and> dim_ok (int (height img))"

definition session_inv :: "session \<Rightarrow> bool" where
  "session_inv s \<longleftrightarrow> good_image (canvas s)
     \<and> (\<forall>c. currentImageData s = Some c \<longrightarrow> c = canvas s)
     \<and> (\<forall>orig. originalImageData s = Some orig \<longrightarrow> good_image orig)"

text \<open>The outcome of one handler from a state satisfying the invariant: either it throws
  \<open>IndexSizeError\<close> without changing the state, or it succeeds and shows a new image.\<close>

definition shows_image :: "session \<Rightarrow> (js_error + unit) \<times> session \<Rightarrow> bool" where
  "shows_image s r \<longleftrightarrow> (\<exists>c. good_image c \<and> r = (Inr (), s\<lparr>canvas := c, currentImageData := Some c\<rparr>))"

text \<open>What one valid event does to a session satisfying the invariant.\<close>

definition step_outcome :: "session \<Rightarrow> event \<Rightarrow> session \<times> js_error option \<Rightarrow> bool" where
  "step_outcome s e r \<longleftrightarrow>
     (r = (s, Some IndexSizeError) \<and> scale_factor e \<noteq> None)
     \<or> r = (s, None)
     \<or> (\<exists>c. good_image c \<and> r = (s\<lparr>canvas := c, currentImageData := Some c\<rparr>, None))
     \<or> (\<exists>img. e = Load img \<and> good_image img
          \<and> r = (s\<lparr>canvas := img, currentImageData := Some img, originalImageData := Some img\<rparr>, None))"

subsection \<open>Lemmas on the monad, the canvas and the handlers\<close>

lemma bind_act_Inr: "m s = (Inr a, s') \<Longrightarrow> bind_act m f s = f a s'"
  by (simp add: bind_act_def)

lemma bind_act_Inl: "m s = (Inl e, s') \<Longrightarrow> bind_act m f s = (Inl e, s')"
  by (simp add: bind_act_def)

lemma seq_act_Inr: "m s = (Inr (), s') \<Longrightarrow> seq_act m k s = k s'"
  by (simp add: seq_act_def bind_act_def)

lemma canvas_dim_int: "dim_ok (int n) \<Longrightarrow> canvas_dim dflt (int n) = n"
  by (simp add: canvas_dim_def dim_ok_def)

lemma put_image_same:
  assumes "wf_image c" and "wf_image img" and "width c = width img" and "height c = height img"
  shows "put_image c img = img"
proof -
  let ?w = "width img" and ?h = "height img"
  have len: "length (data c) = length (data img)" using assms by (simp add: wf_image_def)
  have "data (put_image c img) = data img"
  proof (rule nth_equalityI)
    show "length (data (put_image c img)) = length (data img)" using len by (simp add: put_image_def)
    fix i assume "i < length (data (put_image c img))"
    then have i: "i < 4 * ?w * ?h" using assms(2) len by (simp add: put_image_def wf_image_def)
    then have w: "0 < ?w" by (cases ?w) simp_all
    have k: "i div 4 < ?w * ?h" using i by (simp add: less_mult_imp_div_less mult.assoc)
    have x: "i div 4 mod ?w < ?w" using w by simp
    have y: "i div 4 div ?w < ?h" using k by (simp add: less_mult_imp_div_less mult.commute)
    have "4 * (i div 4 div ?w * ?w + i div 4 mod ?w) + i mod 4 = i" by simp
    then have "px img (i div 4 mod ?w) (i div 4 div ?w) (i mod 4) = data img ! i" by (simp add: px_def)
    moreover have "i < length (data img)" using i assms(2) by (simp add: wf_image_def)
    ultimately show "data (put_image c img) ! i = data img ! i"
      using x y assms(3) len by (simp add: put_image_def Let_def)
  qed
  then show ?thesis using assms(3,4) by (simp add: put_image_def)
qed

lemma resize_put:
  assumes "good_image img"
  shows "seq_act (set_width (int (width img))) (seq_act (set_height (int (height img))) (putCurrentImageData img)) s
         = (Inr (), s\<lparr>canvas := img, currentImageData := Some img\<rparr>)"
proof -
  have d: "canvas_dim 300 (int (width img)) = width img" "canvas_dim 150 (int (height img)) = height img"
    using assms by (simp_all add: good_image_def canvas_dim_int)
  have "put_image (createImageData (width img) (height img)) img = img"
    using assms by (intro put_image_same) (simp_all add: good_image_def)
  then show ?thesis
    by (simp add: seq_act_def bind_act_def set_width_def set_height_def putCurrentImageData_def d)
qed

lemma get_inv: "session_inv s \<Longrightarrow> getCurrentImageData s = (Inr (canvas s), s)"
  by (simp add: getCurrentImageData_def session_inv_def good_image_def)

lemma run_image_op_inv:
  assumes "session_inv s" and "wf_image (f (canvas s))"
    and "width (f (canvas s)) = width (canvas s)" and "height (f (canvas s)) = height (canvas s)"
  shows "run_image_op f s = (Inr (), s\<lparr>canvas := f (canvas s), currentImageData := Some (f (canvas s))\<rparr>)"
proof -
  have "put_image (canvas s) (f (canvas s)) = f (canvas s)"
    using assms by (intro put_image_same) (simp_all add: session_inv_def good_image_def)
  then show ?thesis
    by (simp add: run_image_op_def bind_act_Inr [where m = getCurrentImageData, OF get_inv [OF assms(1)]] putCurrentImageData_def)
qed


lemma wf_step4_op:
  "(\<And>i d. length (body i d) = length d) \<Longrightarrow> wf_image img \<Longrightarrow>
   wf_image (img\<lparr>data := step4_loop body (length (data img)) 0 (data img)\<rparr>)"
  by (simp add: wf_image_def length_step4_loop)

lemma wf_point_ops:
  assumes "wf_image img"
  shows "wf_image (toGray img)" "wf_image (toBlackAndWhite t img)" "wf_image (changeBrightness v img)"
    "wf_image (changeContrast k img)" "wf_image (adjustRGB r g b img)" "wf_image (negative img)"
  unfolding toGray_def toBlackAndWhite_def changeBrightness_def changeContrast_def adjustRGB_def negative_def
  by (rule wf_step4_op [OF _ assms],
      simp add: gray_body_def bw_body_def brightness_body_def contrast_body_def adjust_body_def negative_body_def Let_def)+

lemma wf_sobel_pass: "wf_image (sobel_pass img)"
  by (simp add: sobel_pass_def Let_def wf_image_def length_for_grid sobel_body_def split: prod.split)

lemma length_bilinear_body: "length (bilinear_body factor src w h dW x y d) = length d"
  by (simp add: bilinear_body_def Let_def length_fold_upd)

lemma scale_shape:
  assumes "wf_image img" and "0 < factor" and "sc = scaleNearest \<or> sc = scaleBilinear \<or> sc = scaleAny"
  shows "sc factor img = Inl e \<Longrightarrow> e = IndexSizeError"
    and "sc factor img = Inr dst \<Longrightarrow> wf_image dst \<and> 0 < width dst \<and> 0 < height dst
           \<and> int (width dst) = js_round (real (width img) * factor) \<and> int (height dst) = js_round (real (height img) * factor)"
proof -
  show "sc factor img = Inl e \<Longrightarrow> e = IndexSizeError"
    using assms(3) by (auto simp: scaleNearest_def scaleBilinear_def scaleAny_def Let_def split: if_splits)
  assume r: "sc factor img = Inr dst"
  consider "sc factor img = scaleNearest factor img" | "sc factor img = scaleBilinear factor img"
    using assms(3) by (auto simp: scaleAny_def)
  then show "wf_image dst \<and> 0 < width dst \<and> 0 < height dst
           \<and> int (width dst) = js_round (real (width img) * factor) \<and> int (height dst) = js_round (real (height img) * factor)"
  proof cases
    case 1
    with r have n: "scaleNearest factor img = Inr dst" by simp
    from scaleNearest_Inr [OF assms(2) n] wf_scaleNearest [OF assms(1,2) n] show ?thesis by simp
  next
    case 2
    with r have n: "scaleBilinear factor img = Inr dst" by simp
    from scaleBilinear_Inr [OF assms(2) n] show ?thesis
      by (simp add: wf_image_def length_for_grid length_bilinear_body)
  qed
qed


lemma inv_show:
  "session_inv s \<Longrightarrow> good_image c \<Longrightarrow> session_inv (s\<lparr>canvas := c, currentImageData := Some c\<rparr>)"
  by (simp add: session_inv_def)

lemma good_same_shape:
  "good_image c \<Longrightarrow> wf_image d \<Longrightarrow> width d = width c \<Longrightarrow> height d = height c \<Longrightarrow> good_image d"
  by (simp add: good_image_def)

lemma run_image_op_shows:
  assumes "session_inv s" and "wf_image (f (canvas s))"
    and "width (f (canvas s)) = width (canvas s)" and "height (f (canvas s)) = height (canvas s)"
  shows "shows_image s (run_image_op f s)"
  using assms good_same_shape [of "canvas s" "f (canvas s)"]
  unfolding shows_image_def run_image_op_inv [where f = f and s = s, OF assms] by (auto simp: session_inv_def)

lemma run_rotate90_shows:
  assumes "session_inv s"
  shows "shows_image s (run_rotate90 isCW s)"
proof -
  have g: "good_image (rotate90 isCW (canvas s))" using assms by (simp add: session_inv_def good_image_def)
  show ?thesis
    unfolding shows_image_def run_rotate90_def bind_act_Inr [where m = getCurrentImageData, OF get_inv [OF assms]]
      Let_def resize_put [OF g] using g by blast
qed

lemma run_scale_cases:
  assumes "session_inv s" and "0 < factor" and "sc = scaleNearest \<or> sc = scaleBilinear \<or> sc = scaleAny"
    and "dim_ok (js_round (real (width (canvas s)) * factor))" and "dim_ok (js_round (real (height (canvas s)) * factor))"
  shows "run_scale sc factor s = (Inl IndexSizeError, s) \<or> shows_image s (run_scale sc factor s)"
proof (cases "sc factor (canvas s)")
  case (Inl e)
  have wf: "wf_image (canvas s)" using assms(1) by (simp add: session_inv_def good_image_def)
  from Inl scale_shape (1) [OF wf assms(2,3)] show ?thesis
    by (simp add: run_scale_def get_inv [OF assms(1)] Let_def bind_act_def lift_def)
next
  case (Inr dst)
  have wf: "wf_image (canvas s)" using assms(1) by (simp add: session_inv_def good_image_def)
  note D = scale_shape (2) [OF wf assms(2,3) Inr]
  have g: "good_image dst" using D assms(4,5) by (simp add: good_image_def)
  have "run_scale sc factor s = seq_act (set_width (int (width dst))) (seq_act (set_height (int (height dst)))
          (putCurrentImageData dst)) s"
    using Inr D by (simp add: run_scale_def get_inv [OF assms(1)] Let_def bind_act_def lift_def)
  then show ?thesis unfolding shows_image_def resize_put [OF g] using g by blast
qed


lemma gauss_square_odd: "square_odd gauss3" "square_odd gauss5"
  by (simp_all add: square_odd_def gauss3_def gauss5_def)

lemma run_convolution_shows:
  assumes "session_inv s" and "square_odd matrix"
  shows "shows_image s (run_convolution matrix s)"
proof -
  let ?c = "canvas s"
  have wf: "wf_image ?c" using assms(1) by (simp add: session_inv_def good_image_def)
  have A: "applyConvolutionMatrix matrix ?c = Inr (kernel_apply matrix ?c)"
    using conv_loop_ref [OF assms(2) wf]
    by (simp add: applyConvolutionMatrix_def Let_def createImageData_def kernel_apply_def)
  have "run_convolution matrix s = run_image_op (kernel_apply matrix) s"
    by (simp add: run_convolution_def run_image_op_def get_inv [OF assms(1)] bind_act_def lift_def A)
  also have "shows_image s \<dots>" using assms(1) wf by (intro run_image_op_shows) simp_all
  finally show ?thesis .
qed

lemma shows_image_inv: "session_inv s \<Longrightarrow> shows_image s r \<Longrightarrow> session_inv (snd r)"
  by (auto simp: shows_image_def intro: inv_show)

lemma run_sobel_shows:
  assumes "session_inv s"
  shows "shows_image s (run_sobel s)"
proof -
  have wf: "wf_image (canvas s)" using assms by (simp add: session_inv_def good_image_def)
  have "shows_image s (run_image_op toGray s)"
    using assms wf_point_ops (1) [OF wf] by (intro run_image_op_shows) (simp_all add: toGray_def)
  then obtain g where g: "good_image g" and r: "run_image_op toGray s = (Inr (), s\<lparr>canvas := g, currentImageData := Some g\<rparr>)"
    by (auto simp: shows_image_def)
  let ?s1 = "s\<lparr>canvas := g, currentImageData := Some g\<rparr>"
  have i1: "session_inv ?s1" using assms g by (rule inv_show)
  have "shows_image ?s1 (run_image_op sobel_pass ?s1)"
    using i1 wf_sobel_pass by (intro run_image_op_shows) (simp_all add: sobel_pass_def Let_def)
  then show ?thesis by (simp add: run_sobel_def seq_act_Inr [where m = "run_image_op toGray", OF r] shows_image_def)
qed

lemma run_histogram_inv: "session_inv s \<Longrightarrow> run_histogram s = (Inr (), s)"
  by (simp add: run_histogram_def bind_act_def get_inv ret_def)

lemma resetImage_some:
  assumes "originalImageData s = Some orig" and "good_image orig"
  shows "resetImage s = (Inr (), s\<lparr>canvas := orig, currentImageData := Some orig\<rparr>)"
  using assms by (simp add: resetImage_def resize_put)

lemma load_image_valid:
  assumes "good_image img"
  shows "load_image img s = (Inr (), s\<lparr>canvas := img, currentImageData := Some img, originalImageData := Some img\<rparr>)"
proof -
  have d: "canvas_dim 300 (int (width img)) = width img" "canvas_dim 150 (int (height img)) = height img"
    using assms by (simp_all add: good_image_def canvas_dim_int)
  have p: "put_image (createImageData (width img) (height img)) img = img"
    using assms by (intro put_image_same) (simp_all add: good_image_def)
  have nz: "width img \<noteq> 0" "height img \<noteq> 0" using assms by (simp_all add: good_image_def)
  show ?thesis
    by (simp add: load_image_def seq_act_def bind_act_def set_width_def set_height_def d p
        getCurrentImageData_def nz)
qed


lemma step_cases:
  assumes "session_inv s" and "valid_event s e"
  shows "step_outcome s e (step s e)"
proof -
  let ?T = "step_outcome s e (step s e)"
  let ?c = "canvas s"
  have wf: "wf_image ?c" using assms(1) by (simp add: session_inv_def good_image_def)
  have shw: "shows_image s (handler e s) \<Longrightarrow> ?T"
    by (auto simp: step_def shows_image_def step_outcome_def)
  have same: "handler e s = (Inr (), s) \<Longrightarrow> ?T" by (simp add: step_def step_outcome_def)
  have sc: "\<And>sc f. handler e s = run_scale sc f s \<Longrightarrow> scale_factor e \<noteq> None \<Longrightarrow>
      sc = scaleNearest \<or> sc = scaleBilinear \<or> sc = scaleAny \<Longrightarrow>
      0 < f \<and> dim_ok (js_round (real (width ?c) * f)) \<and> dim_ok (js_round (real (height ?c) * f)) \<Longrightarrow> ?T"
  proof -
    fix sc f assume h: "handler e s = run_scale sc f s" and f: "scale_factor e \<noteq> None"
      and sc: "sc = scaleNearest \<or> sc = scaleBilinear \<or> sc = scaleAny"
      and v: "0 < f \<and> dim_ok (js_round (real (width ?c) * f)) \<and> dim_ok (js_round (real (height ?c) * f))"
    from run_scale_cases [OF assms(1) _ sc] v consider "run_scale sc f s = (Inl IndexSizeError, s)"
      | "shows_image s (run_scale sc f s)" by blast
    then show ?T
    proof cases
      case 1
      then show ?T using h f by (simp add: step_def step_outcome_def)
    qed (use h shw in simp)
  qed
  show ?thesis
  proof (cases e)
    case (BtnGray)
    have "shows_image s (handler e s)"
      using BtnGray run_image_op_shows [OF assms(1), of "toGray"] wf_point_ops(1) [OF wf] by (simp add: toGray_def)
    then show ?thesis by (rule shw)
  next
    case (BtnBinarize t)
    have "shows_image s (handler e s)"
      using BtnBinarize run_image_op_shows [OF assms(1), of "toBlackAndWhite (of_int t)"] wf_point_ops(2) [OF wf] by (simp add: toBlackAndWhite_def)
    then show ?thesis by (rule shw)
  next
    case (BtnBrighten v)
    have "shows_image s (handler e s)"
      using BtnBrighten run_image_op_shows [OF assms(1), of "changeBrightness (of_int v)"] wf_point_ops(3) [OF wf] by (simp add: changeBrightness_def)
    then show ?thesis by (rule shw)
  next
    case (BtnDarken v)
    have "shows_image s (handler e s)"
      using BtnDarken run_image_op_shows [OF assms(1), of "changeBrightness (of_int (- v))"] wf_point_ops(3) [OF wf] by (simp add: changeBrightness_def)
    then show ?thesis by (rule shw)
  next
    case (BtnContrast k)
    have "shows_image s (handler e s)"
      using BtnContrast run_image_op_shows [OF assms(1), of "changeContrast k"] wf_point_ops(4) [OF wf] by (simp add: changeContrast_def)
    then show ?thesis by (rule shw)
  next
    case (BtnColorAdjust r g b)
    have "shows_image s (handler e s)"
      using BtnColorAdjust run_image_op_shows [OF assms(1), of "adjustRGB (of_int r) (of_int g) (of_int b)"] wf_point_ops(5) [OF wf] by (simp add: adjustRGB_def)
    then show ?thesis by (rule shw)
  next
    case (BtnNegative)
    have "shows_image s (handler e s)"
      using BtnNegative run_image_op_shows [OF assms(1), of "negative"] wf_point_ops(6) [OF wf] by (simp add: negative_def)
    then show ?thesis by (rule shw)
  next
    case (BtnFlipH)
    have "shows_image s (handler e s)"
      using BtnFlipH run_image_op_shows [OF assms(1), of "flip True"] wf_flip by (simp add: flip_sel)
    then show ?thesis by (rule shw)
  next
    case (BtnFlipV)
    have "shows_image s (handler e s)"
      using BtnFlipV run_image_op_shows [OF assms(1), of "flip False"] wf_flip by (simp add: flip_sel)
    then show ?thesis by (rule shw)
  next
    case BtnRotateCW
    then show ?thesis using shw run_rotate90_shows [OF assms(1), of True] by simp
  next
    case BtnRotateCCW
    then show ?thesis using shw run_rotate90_shows [OF assms(1), of False] by simp
  next
    case BtnScaleUpNoSmooth
    then show ?thesis using assms(2) by (intro sc [of scaleNearest "2"]) simp_all
  next
    case BtnScaleDownNoSmooth
    then show ?thesis using assms(2) by (intro sc [of scaleNearest "1 / 2"]) simp_all
  next
    case BtnScaleUpSmooth
    then show ?thesis using assms(2) by (intro sc [of scaleBilinear "2"]) simp_all
  next
    case BtnScaleDownSmooth
    then show ?thesis using assms(2) by (intro sc [of scaleBilinear "1 / 2"]) simp_all
  next
    case (BtnScaleAny f)
    then show ?thesis using assms(2) by (intro sc [of scaleAny f]) simp_all
  next
    case BtnGauss3
    then show ?thesis using shw run_convolution_shows [OF assms(1), of gauss3] gauss_square_odd by simp
  next
    case BtnGauss5
    then show ?thesis using shw run_convolution_shows [OF assms(1), of gauss5] gauss_square_odd by simp
  next
    case BtnSobel
    then show ?thesis using shw run_sobel_shows [OF assms(1)] by simp
  next
    case BtnHistogram
    then show ?thesis using same run_histogram_inv [OF assms(1)] by simp
  next
    case (Load img)
    then have g: "good_image img" using assms(2) by (simp add: good_image_def)
    then show ?thesis using Load load_image_valid [OF g] by (simp add: step_def step_outcome_def)
  next
    case BtnReset
    show ?thesis
    proof (cases "originalImageData s")
      case None
      then show ?thesis using BtnReset same by (simp add: resetImage_def)
    next
      case (Some orig)
      then have g: "good_image orig" using assms(1) by (simp add: session_inv_def)
      have "shows_image s (handler e s)"
        using BtnReset resetImage_some [OF Some g] g by (auto simp: shows_image_def)
      then show ?thesis by (rule shw)
    qed
  qed
qed


lemma js_round_neg_nat: "factor < 0 \<Longrightarrow> nat (js_round (real n * factor)) = 0"
  using js_round_nonpos [of "real n * factor"] by (simp add: mult_nonneg_nonpos)

lemma put_image_zero: "put_image (createImageData 0 h) img = createImageData 0 h"
  by (simp add: put_image_def createImageData_def)

lemma canvas_dim_zero [simp]: "canvas_dim dflt 0 = 0"
  by (simp add: canvas_dim_def)

lemma canvas_dim_neg:
  assumes "- (2 ^ 31) \<le> v" and "v < 0"
  shows "canvas_dim dflt v = dflt"
proof -
  have "v mod 2 ^ 32 = (v + 2 ^ 32) mod 2 ^ 32" by simp
  also have "\<dots> = v + 2 ^ 32" by (rule mod_pos_pos_trivial) (use assms in simp_all)
  finally have "v mod 2 ^ 32 = v + 2 ^ 32" .
  then show ?thesis using assms by (simp add: canvas_dim_def)
qed

lemma put_image_blank: "put_image (createImageData w h) (createImageData a b) = createImageData w h"
proof -
  let ?c = "createImageData w h"
  have px0: "px (createImageData a b) x y c = 0" if "x < a" "y < b" "c < 4" for x y c
    using px_index_bound [OF that] by (simp add: px_def createImageData_def)
  have z: "data ?c ! i = 0" if "i < 4 * w * h" for i
    using that by (simp add: createImageData_def)
  have "map (\<lambda>i. let x = i div 4 mod w; y = i div 4 div w
         in if x < a \<and> y < b then px (createImageData a b) x y (i mod 4) else data ?c ! i)
         [0..<4 * w * h] = data ?c"
    by (intro nth_equalityI) (simp_all add: Let_def px0 z)
  then show ?thesis by (simp add: put_image_def)
qed

lemma run_gray:
  assumes "session_inv s"
  shows "run_image_op toGray s = (Inr (), s\<lparr>canvas := toGray (canvas s), currentImageData := Some (toGray (canvas s))\<rparr>)"
proof -
  have wf: "wf_image (canvas s)" using assms by (simp add: session_inv_def good_image_def)
  show ?thesis using assms wf_point_ops (1) [OF wf] by (intro run_image_op_inv) (simp_all add: toGray_def)
qed

lemma step_outcome_inv: "session_inv s \<Longrightarrow> step_outcome s e r \<Longrightarrow> session_inv (fst r)"
  by (auto simp: step_outcome_def session_inv_def)


lemma run_events_frozen:
  assumes "session_inv s" and "valid_run s es" and "\<not> list_ex is_load es"
  shows "session_inv (run_events s es) \<and> originalImageData (run_events s es) = originalImageData s"
  using assms
proof (induction es arbitrary: s)
  case (Cons e es)
  have o: "step_outcome s e (step s e)" using step_cases Cons.prems by simp
  have i: "session_inv (fst (step s e))" using step_outcome_inv [OF Cons.prems(1) o] .
  have "originalImageData (fst (step s e)) = originalImageData s"
    using o Cons.prems(3) by (auto simp: step_outcome_def)
  then show ?case using Cons.IH [OF i] Cons.prems(2,3) by simp
qed simp

text \<open>C6: in every session reachable from a well-sized initial canvas by valid
  events, the canvas is a well-formed non-empty image, the cached current image
  is the canvas, and the original image is well formed.\<close>

theorem session_inv_reachable:
  assumes "reachable w h s" and "0 < w" and "0 < h" and "dim_ok (int w)" and "dim_ok (int h)"
  shows "session_inv s"
  using assms(1)
proof induction
  case start
  then show ?case using assms(2-) by (simp add: init_session_def session_inv_def good_image_def)
next
  case (step s e)
  then show ?case using step_outcome_inv step_cases by blast
qed

theorem session_inv_reachable_witness:
  "reachable 300 150 (init_session 300 150) \<and> (0::nat) < 300 \<and> (0::nat) < 150
   \<and> dim_ok (int 300) \<and> dim_ok (int 150) \<and> session_inv (init_session 300 150)"
proof -
  have h: "reachable 300 150 (init_session 300 150)" "(0::nat) < 300" "(0::nat) < 150"
    "dim_ok (int 300)" "dim_ok (int 150)" by (simp_all add: reachable.start dim_ok_def)
  show ?thesis using h session_inv_reachable [OF h] by simp
qed

text \<open>C7: a valid event on a session satisfying the invariant throws only the
  IndexSizeError of a scaling whose rounded size is 0, and then leaves the
  session unchanged.\<close>

theorem step_error:
  assumes "session_inv s" and "valid_event s e" and "snd (step s e) = Some err"
  shows "err = IndexSizeError \<and> scale_factor e \<noteq> None \<and> fst (step s e) = s"
  using step_cases [OF assms(1,2)] assms(3) by (auto simp: step_outcome_def)

theorem step_error_witness:
  "let s = init_session 1 1; e = BtnScaleAny (1 / 4) in
     session_inv s \<and> valid_event s e \<and> snd (step s e) = Some IndexSizeError
     \<and> fst (step s e) = s"
proof -
  let ?s = "init_session 1 1" and ?e = "BtnScaleAny (1 / 4)"
  have i: "session_inv ?s" by (simp add: init_session_def session_inv_def good_image_def dim_ok_def)
  have v: "valid_event ?s ?e" by (simp add: init_session_def dim_ok_def js_round_def)
  have r: "snd (step ?s ?e) = Some IndexSizeError"
    by (simp add: step_def init_session_def run_scale_def bind_act_def getCurrentImageData_def lift_def
        scaleAny_def scaleBilinear_def js_round_def createImageData_def)
  show ?thesis using i v r step_error [OF i v r] by simp
qed

text \<open>C23: the Reset button of a session whose original image is set puts the
  original back on the canvas and in \<open>currentImageData\<close>.\<close>

theorem reset_restores:
  assumes "session_inv s" and "originalImageData s = Some orig"
  shows "step s BtnReset = (s\<lparr>canvas := orig, currentImageData := Some orig\<rparr>, None)"
proof -
  have "good_image orig" using assms by (simp add: session_inv_def)
  then show ?thesis using resetImage_some [OF assms(2)] by (simp add: step_def)
qed

theorem reset_restores_witness:
  "let orig = \<lparr>width = 2, height = 1, data = [10, 20, 30, 255, 40, 50, 60, 255]\<rparr>;
       s = \<lparr>canvas = createImageData 1 1, originalImageData = Some orig, currentImageData = None\<rparr> in
     session_inv s \<and> originalImageData s = Some orig
     \<and> step s BtnReset = (s\<lparr>canvas := orig, currentImageData := Some orig\<rparr>, None)"
proof -
  let ?o = "\<lparr>width = 2, height = 1, data = [10, 20, 30, 255, 40, 50, 60, 255::u8]\<rparr>"
  let ?s = "\<lparr>canvas = createImageData 1 1, originalImageData = Some ?o, currentImageData = None\<rparr>"
  have i: "session_inv ?s" by (simp add: session_inv_def good_image_def wf_image_def dim_ok_def)
  have o: "originalImageData ?s = Some ?o" by simp
  show ?thesis using i o reset_restores [OF i o] by simp
qed

text \<open>C8: after loading an image and applying any valid sequence of buttons other
  than a load, Reset shows the loaded image again.\<close>

theorem load_edit_reset:
  assumes "session_inv s" and "valid_event s (Load img)"
    and "valid_run (fst (step s (Load img))) es" and "\<not> list_ex is_load es"
  shows "canvas (fst (step (run_events (fst (step s (Load img))) es) BtnReset)) = img"
proof -
  let ?s1 = "fst (step s (Load img))"
  have g: "good_image img" using assms(2) by (simp add: good_image_def)
  have s1: "?s1 = s\<lparr>canvas := img, currentImageData := Some img, originalImageData := Some img\<rparr>"
    using load_image_valid [OF g] by (simp add: step_def)
  have i1: "session_inv ?s1" using s1 g assms(1) by (simp add: session_inv_def)
  from run_events_frozen [OF i1 assms(3,4)] s1
  have "originalImageData (run_events ?s1 es) = Some img" by simp
  then show ?thesis using resetImage_some g by (simp add: step_def)
qed

theorem load_edit_reset_witness:
  "let img = \<lparr>width = 2, height = 1, data = [10, 20, 30, 255, 40, 50, 60, 255]\<rparr>;
       s = init_session 300 150; es = [BtnNegative, BtnRotateCW, BtnGauss3] in
     session_inv s \<and> valid_event s (Load img) \<and> valid_run (fst (step s (Load img))) es
     \<and> \<not> list_ex is_load es
     \<and> canvas (fst (step (run_events (fst (step s (Load img))) es) BtnReset)) = img"
proof -
  let ?img = "\<lparr>width = 2, height = 1, data = [10, 20, 30, 255, 40, 50, 60, 255::u8]\<rparr>"
  let ?s = "init_session 300 150" and ?es = "[BtnNegative, BtnRotateCW, BtnGauss3]"
  have i: "session_inv ?s" by (simp add: init_session_def session_inv_def good_image_def dim_ok_def)
  have v: "valid_event ?s (Load ?img)" by (simp add: wf_image_def dim_ok_def)
  have r: "valid_run (fst (step ?s (Load ?img))) ?es" by simp
  have l: "\<not> list_ex is_load ?es" by simp
  show ?thesis using i v r l load_edit_reset [OF i v r l] by simp
qed

text \<open>C24: loading an image of width 0 resizes the canvas to width 0 and then throws
  IndexSizeError from \<open>getImageData\<close>: the canvas is left empty while
  \<open>currentImageData\<close> and \<open>originalImageData\<close> keep the previous image.\<close>

theorem load_empty:
  assumes "width img = 0"
  shows "step s (Load img) = (s\<lparr>canvas := createImageData 0 (canvas_dim 150 (int (height img)))\<rparr>, Some IndexSizeError)"
  using assms by (simp add: step_def load_image_def seq_act_def bind_act_def set_width_def set_height_def
      getCurrentImageData_def put_image_zero)

theorem load_empty_witness:
  "let img = \<lparr>width = 0, height = 5, data = []\<rparr> in
     width img = 0 \<and> step (init_session 300 150) (Load img)
       = ((init_session 300 150)\<lparr>canvas := createImageData 0 5\<rparr>, Some IndexSizeError)"
proof -
  let ?img = "\<lparr>width = 0, height = 5, data = [] :: u8 list\<rparr>"
  have h: "width ?img = 0" by simp
  show ?thesis using h load_empty [OF h, of "init_session 300 150"] by (simp add: canvas_dim_def)
qed

text \<open>C25: a negative scale factor is not rejected: the canvas size setters receive
  negative values, which give the default canvas size 300 x 150, while
  \<open>currentImageData\<close> becomes a blank image of the absolute rounded size, so the
  cached current image no longer is the canvas.\<close>

theorem scale_negative_session:
  assumes "session_inv s" and "factor < 0"
    and "js_round (real (width (canvas s)) * factor) \<noteq> 0" and "js_round (real (height (canvas s)) * factor) \<noteq> 0"
    and "- (2 ^ 31) \<le> js_round (real (width (canvas s)) * factor)"
    and "- (2 ^ 31) \<le> js_round (real (height (canvas s)) * factor)"
  shows "step s (BtnScaleAny factor) =
           (s\<lparr>canvas := createImageData 300 150,
               currentImageData := Some (createImageData (nat \<bar>js_round (real (width (canvas s)) * factor)\<bar>)
                                                         (nat \<bar>js_round (real (height (canvas s)) * factor)\<bar>))\<rparr>, None)"
proof -
  let ?W = "js_round (real (width (canvas s)) * factor)" and ?H = "js_round (real (height (canvas s)) * factor)"
  have n: "?W < 0" "?H < 0"
    using assms(2-4) js_round_nonpos [of "real (width (canvas s)) * factor"]
      js_round_nonpos [of "real (height (canvas s)) * factor"] by (simp_all add: mult_nonneg_nonpos)
  have e: "scaleAny factor (canvas s) = Inr (createImageData (nat \<bar>?W\<bar>) (nat \<bar>?H\<bar>))"
    using assms(3,4) js_round_neg_nat [OF assms(2), of "height (canvas s)"]
    by (simp add: scaleAny_def scaleBilinear_def Let_def for_grid_def)
  have d: "canvas_dim 300 ?W = 300" "canvas_dim 150 ?H = 150"
    using n assms(5,6) by (simp_all add: canvas_dim_neg)
  show ?thesis
    using e d by (simp add: step_def run_scale_def get_inv [OF assms(1)] Let_def bind_act_def lift_def
        seq_act_def set_width_def set_height_def putCurrentImageData_def put_image_blank)
qed

theorem scale_negative_session_witness:
  "let img = \<lparr>width = 2, height = 1, data = [10, 20, 30, 255, 40, 50, 60, 255]\<rparr>;
       s = \<lparr>canvas = img, originalImageData = Some img, currentImageData = Some img\<rparr> in
   session_inv s \<and> (-1::real) < 0
   \<and> js_round (real (width (canvas s)) * -1) \<noteq> 0 \<and> js_round (real (height (canvas s)) * -1) \<noteq> 0
   \<and> - (2 ^ 31) \<le> js_round (real (width (canvas s)) * -1) \<and> - (2 ^ 31) \<le> js_round (real (height (canvas s)) * -1)
   \<and> step s (BtnScaleAny (-1)) =
       (s\<lparr>canvas := createImageData 300 150, currentImageData := Some (createImageData 2 1)\<rparr>, None)"
proof -
  let ?img = "\<lparr>width = 2, height = 1, data = [10, 20, 30, 255, 40, 50, 60, 255::u8]\<rparr>"
  let ?s = "\<lparr>canvas = ?img, originalImageData = Some ?img, currentImageData = Some ?img\<rparr>"
  have h: "session_inv ?s" "(-1::real) < 0"
    "js_round (real (width (canvas ?s)) * -1) \<noteq> 0" "js_round (real (height (canvas ?s)) * -1) \<noteq> 0"
    "- (2 ^ 31) \<le> js_round (real (width (canvas ?s)) * -1)" "- (2 ^ 31) \<le> js_round (real (height (canvas ?s)) * -1)"
    by (simp_all add: session_inv_def good_image_def wf_image_def dim_ok_def js_round_def)
  show ?thesis using h scale_negative_session [OF h] by (simp add: js_round_def)
qed

end
