(* ===== verification/Spec2Isabelle.thy ===== *)
theory Spec2Isabelle
  imports Session
begin

text \<open>
  \<^bold>\<open>A verification library for the image editor of src/script.js.\<close>

  The program is a single browser script.  Its core is a pixel-buffer engine: the
  current picture is an \<open>ImageData\<close> (width, height, a flat
  \<open>Uint8ClampedArray\<close> of RGBA samples) read from a canvas, transformed by one
  of the button handlers, and written back with \<open>putImageData\<close>.  The parts are

  \<^item> the shared buffer utilities \<open>clamp\<close>, \<open>clampIndex\<close> (lines 62-68) and
    the \<open>ImageData\<close> itself: theory \<open>Buffer\<close> (record \<open>image\<close>, invariant
    \<open>wf_image\<close>, \<open>createImageData\<close>); the JavaScript number semantics they rely
    on (the store ToUint8Clamp, \<open>Math.round\<close>, NaN) and the two loop shapes of
    the script are in \<open>Prelude\<close>;
  \<^item> the point transform engine, lines 70-150 (\<open>toGray\<close>,
    \<open>toBlackAndWhite\<close>, \<open>changeBrightness\<close>, \<open>changeContrast\<close>,
    \<open>adjustRGB\<close>, \<open>negative\<close>): theory \<open>Point\<close>;
  \<^item> the geometric engine, lines 152-291 (\<open>rotate90\<close>, \<open>flip\<close>,
    \<open>scaleNearest\<close>, \<open>scaleBilinear\<close>, \<open>scaleAny\<close>): theory
    \<open>Geometric\<close>, each the nested loop \<open>for_grid\<close> over the source's loop body
    (\<open>rotate_body\<close>, \<open>flip_body\<close>, \<open>nearest_body\<close>, \<open>bilinear_body\<close>)
    writing into \<open>createImageData\<close>, with \<open>IndexSizeError\<close> as the \<open>Inl\<close> branch;
  \<^item> the convolution engine, lines 293-395: theory \<open>Convolution\<close>;
    \<open>applyConvolutionMatrix\<close> is the nested pixel loop \<open>for_grid_err\<close> around the
    kernel loops \<open>fold_err\<close> in the exception monad \<open>js_error + _\<close> (a missing
    kernel row throws \<open>TypeError\<close>; a missing weight reads \<open>undefined\<close>, NaN),
    with \<open>conv_cell\<close>/\<open>acc3\<close> the inner body; \<open>applySobel\<close> is \<open>toGray\<close>
    followed by \<open>sobel_pass\<close>, whose body \<open>sobel_cell\<close> accumulates both
    gradients;
  \<^item> the histogram, lines 397-490: theory \<open>Histogram\<close>; \<open>hist_counts\<close> is the
    counting loop (\<open>step4_loop\<close> over \<open>hist_body\<close>), \<open>hist_max\<close> the joint maximum
    \<open>maxAll\<close> and \<open>drawHistogram\<close> returns the points of the three polylines the
    function strokes;
  \<^item> the session, lines 9-60 and 492-582: theory \<open>Session\<close>.  The globals and
    the canvas are the record \<open>session\<close>; every handler is a computation in the
    exception-state monad \<open>'a act\<close> (\<open>bind_act\<close>, \<open>seq_act\<close>), so that an
    uncaught exception keeps what the handler changed before it; the canvas
    primitives are \<open>set_width\<close>/\<open>set_height\<close> (the \<open>unsigned long\<close> setter, which
    clears the bitmap), \<open>getCurrentImageData\<close> (\<open>getImageData\<close>, throwing
    \<open>IndexSizeError\<close> on an empty canvas) and \<open>putCurrentImageData\<close>
    (\<open>put_image\<close>, a clipped copy).  The handlers \<open>run_image_op\<close>,
    \<open>run_rotate90\<close>, \<open>run_scale\<close>, \<open>run_convolution\<close>, \<open>run_sobel\<close>,
    \<open>run_histogram\<close>, \<open>resetImage\<close> and \<open>load_image\<close> call the engines of
    the other theories; the datatype \<open>event\<close> lists the 21 buttons and the load of a
    decoded image, \<open>handler\<close> is the wiring of lines 509-582, \<open>step\<close> runs one
    event, \<open>run_events\<close> a sequence, and \<open>reachable\<close> is the inductive set of
    states reached from \<open>init_session\<close> by valid events.

  \<^bold>\<open>Correspondence.\<close>  Every engine function is modelled as a function from the
  \<open>ImageData\<close> it reads with \<open>getCurrentImageData\<close> to the one it hands to
  \<open>putCurrentImageData\<close>.  Loops are kept as loops: the stride-4 sample loop is
  \<open>step4_loop\<close> and the nested row/column loop \<open>for_grid\<close>, each with the
  source's loop body (reads, index arithmetic, the four writes).  Abstract
  reference semantics sit beside them (\<open>map_pixels\<close> for the point engine) and
  refinement lemmas connect the two (\<open>step4_loop_map_pixels\<close>).

  \<^bold>\<open>Numbers.\<close>  JavaScript Numbers are modelled as exact reals; IEEE rounding
  of the intermediate products is not modelled.  What the code stores is modelled
  exactly: an assignment to a \<open>Uint8ClampedArray\<close> cell clamps to [0, 255] and
  rounds to nearest, ties to even (\<open>u8_clamped\<close>); NaN (an undefined read) stores
  0.  Parameters coming from the UI are taken as real numbers (a NaN from
  \<open>parseInt\<close> of an empty field is not modelled).

  \<^bold>\<open>Inputs.\<close>  \<open>valid_event\<close> states what the page can receive: a decoded
  image is well formed with positive dimensions below \<open>2^31\<close> (the range of a
  Web IDL \<open>long\<close>, in which the canvas size setter stores a value unchanged), and a
  scale factor is positive with rounded dimensions below \<open>2^31\<close>.  Outside these
  bounds the model still computes (a negative or huge size gives the setter's default
  300 or 150, \<open>canvas_dim\<close>), and two theorems describe what happens there.  The
  initial canvas size is a parameter of \<open>reachable\<close>, since the HTML page is not part
  of the repository.

  \<^bold>\<open>Results.\<close>  Every result is stated for all inputs of its kind; concrete
  images appear only in the witnesses.  \<open>Point\<close>: the loop refines
  \<open>map_pixels\<close>; grayscale is idempotent, negative an involution; per-pixel
  behaviour of toGray, binarize (the threshold branch on the average of R, G, B) and
  integer brightness; the stored gray value is within 1/2 of the weighted sum (the
  store rounds where the spec says it truncates, \<open>u8_clamped_near\<close>).
  \<open>Geometric\<close>: a generic scatter lemma (\<open>for_grid_scatter\<close>) gives the pixel maps
  of rotation, flip and nearest scaling; four quarter turns, a CW/CCW pair, three CW
  turns against one CCW turn and a double flip agree as the spec requires (alpha
  255); both scalers are the identity at factor 1; nearest scaling never reads outside
  the source; a negative factor gives a blank image.  \<open>Convolution\<close>: for every
  square odd kernel the loop refines the spec's ApplyKernel with edge clamping
  (\<open>kernel_apply\<close>), and \<open>applySobel\<close> refines the spec's gradient magnitude
  (\<open>sobel_ref\<close>); uniform images are fixed points of normalised kernels; every even
  kernel throws \<open>TypeError\<close> and every odd kernel with a short row gives a black
  image (NaN sums, \<open>acc3_nan\<close>).  \<open>Histogram\<close>: the counting loop computes the
  spec's count-per-value histogram (\<open>hist_ref\<close>), every channel counts each pixel
  once, the curves stay inside the histogram canvas, and the three curves are drawn
  on the joint scale \<open>hist_scale\<close>, the largest count over all channels
  (\<open>polyline_ref\<close>).  \<open>Session\<close>: the invariant \<open>session_inv\<close> (the canvas is a
  good image, \<open>currentImageData\<close> is the canvas, the original is a good image) holds
  in every reachable state (rule induction over \<open>step_cases\<close>, which classifies the
  outcome of every valid event); the only exception a valid event raises is the
  \<open>IndexSizeError\<close> of a scaling to size 0, and it leaves the session unchanged;
  Reset restores the original, also after any sequence of edits; a zero-width load
  and a negative scale factor break the invariant.  Across the theories (this
  theory): pressing Gray before Sobel changes nothing (\<open>gray_then_sobel\<close>).

  \<^bold>\<open>Not modelled.\<close>  Reading the file and decoding it (\<open>FileReader\<close>,
  \<open>Image\<close>, lines 22-27 and 47-49): the decoded image is the argument of the
  \<open>Load\<close> event, and \<open>drawImage\<close> of it on the freshly cleared canvas is
  \<open>put_image\<close>.  The paint calls on the histogram canvas (\<open>fillRect\<close>,
  \<open>stroke\<close>) are represented by the point lists they receive, and the console output
  is dropped.  \<open>saveImage\<close> (lines 501-506) is a download.  The canvas is assumed
  to store \<open>putImageData\<close> pixels exactly (no premultiplied-alpha loss), and a
  \<open>parseInt\<close>/\<open>parseFloat\<close> of a malformed field (NaN) is not an input of the
  model.  Each handler reads a fresh \<open>ImageData\<close> from the canvas, so the aliasing
  of \<open>currentImageData\<close> and \<open>originalImageData\<close> after a reset never lets an
  engine write into the original: images are values in the model.
\<close>

text \<open>C26: Pressing Gray before Sobel changes nothing: Sobel starts with its own
  grayscale conversion, and grayscale is idempotent, so both sequences leave the same
  session (canvas, current and original image).\<close>

theorem gray_then_sobel:
  assumes "session_inv s"
  shows "step (fst (step s BtnGray)) BtnSobel = step s BtnSobel"
proof -
  let ?g = "toGray (canvas s)"
  let ?s1 = "s\<lparr>canvas := ?g, currentImageData := Some ?g\<rparr>"
  have wf: "wf_image (canvas s)" using assms by (simp add: session_inv_def good_image_def)
  have m: "length (data (canvas s)) mod 4 = 0" using wf_image_mod4 [OF wf] .
  note e = toGray_map_pixels [OF m]
  have m2: "length (data ?g) mod 4 = 0" using m by (simp add: e)
  have c: "gray_px \<circ> gray_px = gray_px" by (simp add: fun_eq_iff gray_px_idem)
  have gg: "toGray ?g = ?g"
    unfolding toGray_map_pixels [OF m2] by (simp only: e) (simp add: map_pixels_comp c)
  have good: "good_image ?g"
    using assms by (rule_tac good_same_shape [OF _ wf_point_ops (1) [OF wf]]) (simp_all add: session_inv_def toGray_def)
  have i1: "session_inv ?s1" using inv_show [OF assms good] .
  have r1: "run_image_op toGray ?s1 = (Inr (), ?s1)" using run_gray [OF i1] gg by simp
  have "run_sobel s = run_image_op sobel_pass ?s1"
    unfolding run_sobel_def using run_gray [OF assms] by (rule seq_act_Inr)
  moreover have "run_sobel ?s1 = run_image_op sobel_pass ?s1"
    unfolding run_sobel_def using r1 by (rule seq_act_Inr)
  ultimately show ?thesis using run_gray [OF assms] by (simp add: step_def)
qed

theorem gray_then_sobel_witness:
  "session_inv \<lparr>canvas = \<lparr>width = 1, height = 1, data = [200, 100, 50, 255]\<rparr>, originalImageData = None,
                currentImageData = None\<rparr>
   \<and> step (fst (step \<lparr>canvas = \<lparr>width = 1, height = 1, data = [200, 100, 50, 255]\<rparr>, originalImageData = None,
                currentImageData = None\<rparr> BtnGray)) BtnSobel
     = step \<lparr>canvas = \<lparr>width = 1, height = 1, data = [200, 100, 50, 255]\<rparr>, originalImageData = None,
                currentImageData = None\<rparr> BtnSobel"
proof -
  have i: "session_inv \<lparr>canvas = \<lparr>width = 1, height = 1, data = [200, 100, 50, 255]\<rparr>, originalImageData = None,
                currentImageData = None\<rparr>"
    by (simp add: session_inv_def good_image_def wf_image_def dim_ok_def)
  show ?thesis by (rule conjI [OF i gray_then_sobel [OF i]])
qed

end
